(* ===== verification/GoBase.thy ===== *)
theory GoBase
  imports Main "HOL-Library.Word" "HOL-Library.AList"
begin

text \<open>
  The prelude of the development: the Go values every component shares (error values,
  \<^typ>\<open>64 word\<close> identifiers, user-visible messages), the shape of an operation with an
  \<open>error\<close> result over an explicit world, the combinators for Go's
  \<open>x, err := f(); if err != nil { return ... }\<close> idiom, and the generic lemmas on lists
  and association lists that the component theories use.
\<close>

named_theorems go_op "unfolding of the operation combinators"
named_theorems frame "what an operation leaves unchanged"

type_synonym u64 = "64 word"

section \<open>Messages and error values\<close>

text \<open>
  The messages of the program are Chinese string literals. The model has one constructor per
  literal (or format string, with its arguments), named after its meaning, so that two
  messages are equal in the model exactly when they are equal in the code. They are grouped by the part of
  the program that raises them.
\<close>

datatype auth_msg =
    M_credential_missing \<comment> \<open>login credential missing\<close>
  | M_credential_invalid \<comment> \<open>login credential invalid or expired\<close>
  | M_identity_unavailable \<comment> \<open>authentication service unavailable\<close>
  | M_credential_revoked \<comment> \<open>login credential revoked\<close>
  | M_login_state_invalid \<comment> \<open>login state no longer valid\<close>
  | M_register_failed
  | M_username_taken
  | M_phone_taken
  | M_username_or_phone_taken
  | M_sms_code_wrong \<comment> \<open>SMS code wrong or expired\<close>
  | M_hash_failed
  | M_access_token_failed
  | M_refresh_token_failed
  | M_login_failed
  | M_phone_or_password_wrong
  | M_account_disabled
  | M_phone_unregistered
  | M_refresh_missing

datatype session_msg =
    M_refresh_invalid_or_expired
  | M_refresh_invalid
  | M_user_absent
  | M_refresh_expired
  | M_refresh_used
  | M_logout_failed
  | M_reset_unavailable
  | M_reset_token_invalid
  | M_reset_failed
  | M_reset_token_stale
  | M_user_id_invalid
  | M_profile_failed
  | M_captcha_unavailable
  | M_captcha_wrong
  | M_captcha_generate_failed

datatype sms_msg =
    M_client_ip_missing
  | M_sms_unavailable
  | M_sms_ip_minute
  | M_sms_phone_minute
  | M_sms_ip_day
  | M_sms_phone_day
  | M_sms_result_unknown
  | M_sms_three_wrong

datatype agent_msg =
    M_agent_token_empty
  | M_agent_token_invalid
  | M_agent_auth_unavailable
  | M_agent_server_absent
  | M_unauthorized
  | M_authorization_empty
  | M_authorization_malformed
  | M_agent_offline u64
  | M_agent_conn_closed u64
  | M_write_deadline_failed
  | M_command_send_failed
  | M_command_marshal_failed
  | M_interrupted_reason

datatype store_msg =
    M_refresh_cache_empty
  | M_refresh_cache_expired
  | M_refresh_consume_failed
  | M_reset_marshal_failed
  | M_reset_read_failed
  | M_sms_ttl_too_small
  | M_sms_save_failed
  | M_sms_consume_failed
  | M_limit_not_positive
  | M_limit_check_failed
  | M_limit_release_failed
  | M_server_id_invalid
  | M_token_invalid_or_expired
  | M_agent_subject_invalid
  | M_aes_key_length
  | M_ciphertext_too_short

datatype sys_msg =
    M_internal_error
  | M_success

datatype server_msg =
    M_server_name_empty
  | M_server_ip_invalid
  | M_server_create_failed
  | M_server_exists
  | M_server_query_failed
  | M_server_absent
  | M_paging_invalid
  | M_server_list_failed
  | M_server_update_failed
  | M_server_has_dst
  | M_server_delete_failed

datatype dst_msg =
    M_dst_name_empty
  | M_dst_params_invalid
  | M_dst_slot_taken
  | M_dst_create_failed
  | M_dst_query_failed
  | M_dst_absent
  | M_query_params_invalid
  | M_dst_list_failed
  | M_max_players_invalid
  | M_dst_update_failed
  | M_dst_delete_failed

datatype task_msg =
    M_task_query_failed
  | M_task_absent
  | M_task_status_invalid
  | M_resource_type_required
  | M_task_list_failed

datatype web_msg =
    M_request_invalid
  | M_bearer_missing_or_malformed
  | M_credential_malformed
  | M_server_path_id_invalid
  | M_dst_path_id_invalid
  | M_task_path_id_invalid
  | M_server_busy
  | M_origin_untrusted

datatype client_msg =
    M_identity_read_failed
  | M_identity_dir_failed
  | M_identity_save_failed
  | M_action_unsupported string
  | M_ws_deadline_failed
  | M_ws_send_failed
  | M_ws_read_failed
  | M_ws_marshal_failed
  | M_heartbeat_failed
  | M_ws_connect_failed "int option" \<comment> \<open>with the status of the answer, if there was one\<close>

datatype boot_msg =
    M_config_read_failed
  | M_config_parse_failed
  | M_config_failed
  | M_log_dir_failed string
  | M_logger_failed
  | M_aes_failed
  | M_db_dir_failed string
  | M_sqlite_open_failed
  | M_sqlite_failed
  | M_mysql_open_failed
  | M_mysql_connect_failed string int
  | M_mysql_failed
  | M_pool_failed
  | M_migration_failed
  | M_redis_connect_failed string int
  | M_redis_failed
  | M_sms_provider_unknown string
  | M_listen_failed
  | M_shutdown_failed
  | M_force_close_failed

datatype aliyun_msg =
    M_aliyun_client_failed
  | M_aliyun_call_failed
  | M_aliyun_response_empty
  | M_aliyun_refused string string string \<comment> \<open>code, message and request id\<close>

datatype msg =
    AuthMsg auth_msg | SessionMsg session_msg | SmsMsg sms_msg | AgentMsg agent_msg
  | StoreMsg store_msg | SysMsg sys_msg | ServerMsg server_msg | DstMsg dst_msg
  | TaskMsg task_msg | WebMsg web_msg | ClientMsg client_msg
  | BootMsg boot_msg | AliyunMsg aliyun_msg

text \<open>
  Go \<open>error\<close> values: the program's own \<open>*apperr.BizError\<close>, errors made by
  \<open>errors.New\<close> and \<open>fmt.Errorf\<close>, errors wrapped with \<open>%w\<close>, the sentinels the
  code compares with, and any other error of a library.
\<close>

datatype go_err =
    BizError int msg
  | ErrorMsg msg
  | Wrapped msg go_err
  | RedisNil
  | ErrDuplicatedKey
  | ErrRecordNotFound
  | ErrTokenVersionConflict
  | ErrServerHasDst
  | ErrSMSCodeAttemptsExceeded
  | ErrServerClosed \<comment> \<open>\<open>http.ErrServerClosed\<close>\<close>
  | CtxCanceled \<comment> \<open>\<open>context.Canceled\<close>\<close>
  | Joined go_err go_err \<comment> \<open>\<open>errors.Join\<close>\<close>
  | LibError string

text \<open>\<open>errors.Is\<close> and \<open>errors.As\<close> walk the chain of wrapped errors.\<close>

fun errors_is :: "go_err \<Rightarrow> go_err \<Rightarrow> bool" where
  "errors_is (Wrapped m e) t \<longleftrightarrow> Wrapped m e = t \<or> errors_is e t"
| "errors_is (Joined d e) t \<longleftrightarrow> Joined d e = t \<or> errors_is d t \<or> errors_is e t"
| "errors_is e t \<longleftrightarrow> e = t"

fun errors_as_biz :: "go_err \<Rightarrow> (int \<times> msg) option" where
  "errors_as_biz (BizError c m) = Some (c, m)"
| "errors_as_biz (Wrapped m e) = errors_as_biz e"
| "errors_as_biz (Joined d e) = (case errors_as_biz d of Some b \<Rightarrow> Some b | None \<Rightarrow> errors_as_biz e)"
| "errors_as_biz _ = None"

section \<open>Operations over a world\<close>

text \<open>
  A Go function that returns \<open>(T, error)\<close> and has effects is a function of the world it
  runs in: it yields the error or the value, and the world afterwards. The type of the world
  is a variable: what the external services (Redis, the database, the clock) do to it is
  given by the operations the code is passed.
\<close>

type_synonym ('w, 'a) go = "'w \<Rightarrow> (go_err + 'a) \<times> 'w"

definition ret :: "'a \<Rightarrow> ('w, 'a) go" where
  [go_op]: "ret a w = (Inr a, w)"

definition fail :: "go_err \<Rightarrow> ('w, 'a) go" where
  [go_op]: "fail e w = (Inl e, w)"

text \<open>
  \<open>call m h k\<close> is \<open>x, err := m(); if err != nil { h(err) }; k(x)\<close>.
\<close>

definition call ::
    "('w, 'a) go \<Rightarrow> (go_err \<Rightarrow> ('w, 'b) go) \<Rightarrow> ('a \<Rightarrow> ('w, 'b) go) \<Rightarrow> ('w, 'b) go" where
  "call m h k w = (case m w of (Inl e, w') \<Rightarrow> h e w' | (Inr a, w') \<Rightarrow> k a w')"

text \<open>\<open>effect f\<close> reads from the world without a possible error (the clock, a random id).\<close>

definition effect :: "('w \<Rightarrow> 'a \<times> 'w) \<Rightarrow> ('a \<Rightarrow> ('w, 'b) go) \<Rightarrow> ('w, 'b) go" where
  "effect f k w = (case f w of (a, w') \<Rightarrow> k a w')"

text \<open>\<open>ignoring m k\<close> is \<open>if err := m(); err != nil { log }; k\<close>: the result of \<open>m\<close> is dropped.\<close>

definition ignoring :: "('w, 'a) go \<Rightarrow> ('w, 'b) go \<Rightarrow> ('w, 'b) go" where
  "ignoring m k w = k (snd (m w))"

lemma call_Inl [simp]: "m w = (Inl e, w') \<Longrightarrow> call m h k w = h e w'"
  by (simp add: call_def)

lemma call_Inr [simp]: "m w = (Inr a, w') \<Longrightarrow> call m h k w = k a w'"
  by (simp add: call_def)

lemma effect_eq [simp]: "f w = (a, w') \<Longrightarrow> effect f k w = k a w'"
  by (simp add: effect_def)

lemma call_split:
  "P (call m h k w) \<longleftrightarrow>
     (\<forall>e w'. m w = (Inl e, w') \<longrightarrow> P (h e w')) \<and> (\<forall>a w'. m w = (Inr a, w') \<longrightarrow> P (k a w'))"
  by (auto simp: call_def split: prod.split sum.split)

lemma call_split_asm:
  "P (call m h k w) \<longleftrightarrow>
     \<not> ((\<exists>e w'. m w = (Inl e, w') \<and> \<not> P (h e w')) \<or> (\<exists>a w'. m w = (Inr a, w') \<and> \<not> P (k a w')))"
  by (auto simp: call_def split: prod.split sum.split)

lemma effect_split:
  "P (effect f k w) \<longleftrightarrow> (\<forall>a w'. f w = (a, w') \<longrightarrow> P (k a w'))"
  by (auto simp: effect_def split: prod.split)

lemma effect_split_asm:
  "P (effect f k w) \<longleftrightarrow> \<not> (\<exists>a w'. f w = (a, w') \<and> \<not> P (k a w'))"
  by (auto simp: effect_def split: prod.split)

lemmas go_splits = call_split call_split_asm effect_split effect_split_asm

lemma ret_iff [simp]: "ret a w = (r, w') \<longleftrightarrow> r = Inr a \<and> w' = w"
  by (auto simp: ret_def)

lemma fail_iff [simp]: "fail e w = (r, w') \<longleftrightarrow> r = Inl e \<and> w' = w"
  by (auto simp: fail_def)

lemma call_Inr_iff:
  "call m (\<lambda>e. fail (g e)) k w = (Inr b, w'') \<longleftrightarrow>
     (\<exists>a w'. m w = (Inr a, w') \<and> k a w' = (Inr b, w''))"
  by (auto split: call_split_asm call_split)

section \<open>Lists and association lists\<close>

lemma count_list_remove1_eq: "count_list (remove1 x xs) y = count_list xs y - (if x = y then 1 else 0)"
  by (induction xs) auto

lemma distinct_count_list: "distinct xs \<Longrightarrow> count_list xs x = (if x \<in> set xs then 1 else 0)"
  by (induction xs) auto

lemma map_of_update_iff:
  "map_of (AList.update k v al) k' = (if k' = k then Some v else map_of al k')"
  by (simp add: update_conv')

lemma map_of_delete_iff:
  "map_of (AList.delete k al) k' = (if k' = k then None else map_of al k')"
  by (simp add: delete_conv')

end
