(* ===== verification/GoStrings.thy ===== *)
theory GoStrings
  imports GoBase
begin

text \<open>
  What the program uses of Go's \<open>strings\<close> and \<open>strconv\<close> packages, on byte strings
  (\<^typ>\<open>string\<close>, one \<^typ>\<open>char\<close> per byte, as a Go string holds UTF-8 bytes):
  \<open>TrimSpace\<close>, \<open>HasPrefix\<close>, \<open>TrimPrefix\<close>, \<open>SplitN\<close>, \<open>FormatUint\<close>,
  \<open>Itoa\<close> and \<open>ParseUint\<close> with its 64-bit overflow checks. The lemmas are the facts the
  components rest on: trimming is idempotent and leaves no space at either end,
  \<open>ParseUint\<close> accepts exactly the decimal numerals in range and inverts \<open>FormatUint\<close>.
\<close>

section \<open>Trimming\<close>

text \<open>
  The UTF-8 encodings of the characters for which \<open>unicode.IsSpace\<close> holds.
\<close>

definition space_runes :: "string list" where
  "space_runes =
     [[CHR 0x09], [CHR 0x0A], [CHR 0x0B], [CHR 0x0C], [CHR 0x0D], [CHR 0x20],
      [CHR 0xC2, CHR 0x85], [CHR 0xC2, CHR 0xA0], [CHR 0xE1, CHR 0x9A, CHR 0x80],
      [CHR 0xE2, CHR 0x80, CHR 0x80], [CHR 0xE2, CHR 0x80, CHR 0x81],
      [CHR 0xE2, CHR 0x80, CHR 0x82], [CHR 0xE2, CHR 0x80, CHR 0x83],
      [CHR 0xE2, CHR 0x80, CHR 0x84], [CHR 0xE2, CHR 0x80, CHR 0x85],
      [CHR 0xE2, CHR 0x80, CHR 0x86], [CHR 0xE2, CHR 0x80, CHR 0x87],
      [CHR 0xE2, CHR 0x80, CHR 0x88], [CHR 0xE2, CHR 0x80, CHR 0x89],
      [CHR 0xE2, CHR 0x80, CHR 0x8A], [CHR 0xE2, CHR 0x80, CHR 0xA8],
      [CHR 0xE2, CHR 0x80, CHR 0xA9], [CHR 0xE2, CHR 0x80, CHR 0xAF],
      [CHR 0xE2, CHR 0x81, CHR 0x9F], [CHR 0xE3, CHR 0x80, CHR 0x80]]"

definition starts_with :: "string \<Rightarrow> string \<Rightarrow> bool" where
  "starts_with p s \<longleftrightarrow> take (length p) s = p"

text \<open>Remove the patterns of \<open>rs\<close> from the front as long as one of them is there.\<close>

function strip :: "string list \<Rightarrow> string \<Rightarrow> string" where
  "strip rs s =
     (case find (\<lambda>r. r \<noteq> [] \<and> starts_with r s) rs of
        None \<Rightarrow> s
      | Some r \<Rightarrow> strip rs (drop (length r) s))"
  by pat_completeness auto
termination
  by (relation "measure (\<lambda>(rs, s). length s)")
    (auto simp: find_Some_iff starts_with_def,
      metis diff_less length_greater_0_conv take_Nil)

declare strip.simps [simp del]

definition trim_left :: "string \<Rightarrow> string" where
  "trim_left s = strip space_runes s"

definition trim_right :: "string \<Rightarrow> string" where
  "trim_right s = rev (strip (map rev space_runes) (rev s))"

definition trim_space :: "string \<Rightarrow> string" where
  "trim_space s = trim_right (trim_left s)"

definition space_free :: "string list \<Rightarrow> string \<Rightarrow> bool" where
  "space_free rs s \<longleftrightarrow> (\<forall>r\<in>set rs. r \<noteq> [] \<longrightarrow> \<not> starts_with r s)"

lemma strip_space_free: "space_free rs (strip rs s)"
proof (induction rs s rule: strip.induct)
  case (1 rs s)
  then show ?case
    by (subst strip.simps) (auto simp: space_free_def find_None_iff split: option.split)
qed

lemma strip_id: "space_free rs s \<Longrightarrow> strip rs s = s"
  by (subst strip.simps) (auto simp: space_free_def find_Some_iff split: option.split dest: nth_mem)

lemma strip_suffix: "\<exists>t. s = t @ strip rs s"
proof (induction rs s rule: strip.induct)
  case (1 rs s)
  show ?case
  proof (cases "find (\<lambda>r. r \<noteq> [] \<and> starts_with r s) rs")
    case None
    then show ?thesis by (subst strip.simps) auto
  next
    case (Some r)
    with 1 obtain t where "drop (length r) s = t @ strip rs (drop (length r) s)" by blast
    then have "s = (take (length r) s @ t) @ strip rs (drop (length r) s)"
      by (metis append.assoc append_take_drop_id)
    moreover have "strip rs s = strip rs (drop (length r) s)"
      using Some by (subst strip.simps) simp
    ultimately show ?thesis by metis
  qed
qed

lemma space_free_prefix: "space_free rs (s @ t) \<Longrightarrow> space_free rs s"
  by (auto simp: space_free_def starts_with_def)

lemma trim_right_prefix: "\<exists>t. s = trim_right s @ t"
  using strip_suffix [of "rev s" "map rev space_runes"]
  by (auto simp: trim_right_def) (metis rev_append rev_rev_ident)

lemma trim_space_front: "space_free space_runes (trim_space s)"
  unfolding trim_space_def
  by (metis space_free_prefix strip_space_free trim_left_def trim_right_prefix)

lemma trim_space_back: "space_free (map rev space_runes) (rev (trim_space s))"
  by (simp add: trim_space_def trim_right_def strip_space_free)

lemma trim_space_id:
  "space_free space_runes s \<Longrightarrow> space_free (map rev space_runes) (rev s) \<Longrightarrow> trim_space s = s"
  by (simp add: trim_space_def trim_left_def trim_right_def strip_id)

lemma trim_space_idem [simp]: "trim_space (trim_space s) = trim_space s"
  by (rule trim_space_id [OF trim_space_front trim_space_back])

lemma trim_space_Nil [simp]: "trim_space [] = []"
  by (rule trim_space_id) (auto simp: space_free_def starts_with_def)

lemma trim_space_last_not_blank:
  "trim_space s \<noteq> [] \<Longrightarrow> last (trim_space s) \<noteq> CHR 0x20"
proof
  assume "trim_space s \<noteq> []" and "last (trim_space s) = CHR 0x20"
  then have "starts_with [CHR 0x20] (rev (trim_space s))"
    by (cases "trim_space s" rule: rev_cases) (auto simp: starts_with_def)
  with trim_space_back [of s] show False
    by (auto simp: space_free_def space_runes_def)
qed

section \<open>Prefixes and splitting\<close>

definition has_prefix :: "string \<Rightarrow> string \<Rightarrow> bool" where
  "has_prefix s p \<longleftrightarrow> starts_with p s"

definition trim_prefix :: "string \<Rightarrow> string \<Rightarrow> string" where
  "trim_prefix s p = (if has_prefix s p then drop (length p) s else s)"

text \<open>\<open>strings.SplitN(s, " ", 2)\<close>: the part before the first blank, and the rest if any.\<close>

fun split_blank2 :: "string \<Rightarrow> string list" where
  "split_blank2 s =
     (let a = takeWhile (\<lambda>c. c \<noteq> CHR 0x20) s
      in if length a = length s then [s] else [a, drop (Suc (length a)) s])"

section \<open>Numbers\<close>

text \<open>\<open>strconv.FormatUint(n, 10)\<close>, also \<open>Itoa\<close> of a natural number.\<close>

fun show_nat :: "nat \<Rightarrow> string" where
  "show_nat n =
     (if n < 10 then [char_of (48 + n)] else show_nat (n div 10) @ [char_of (48 + n mod 10)])"

declare show_nat.simps [simp del]

definition show_int :: "int \<Rightarrow> string" where
  "show_int i = (if i < 0 then CHR ''-'' # show_nat (nat (- i)) else show_nat (nat i))"

text \<open>The decimal form of an \<^typ>\<open>int\<close> computed on integers, which the kernel evaluates fast.\<close>

function show_pos :: "int \<Rightarrow> string" where
  "show_pos n =
     (if n < 10 then [char_of (48 + nat n)] else show_pos (n div 10) @ [char_of (48 + nat (n mod 10))])"
  by auto
termination by (relation "measure nat") auto

declare show_pos.simps [simp del]

lemma show_pos_eq: "0 \<le> n \<Longrightarrow> show_pos n = show_nat (nat n)"
proof (induction n rule: show_pos.induct)
  case (1 n)
  moreover from this have "n < 10 \<longleftrightarrow> nat n < 10" by linarith
  ultimately show ?case
    by (subst show_pos.simps, subst show_nat.simps)
      (simp add: pos_imp_zdiv_nonneg_iff nat_div_distrib nat_mod_distrib)
qed

lemma show_int_code [code]:
  "show_int i = (if i < 0 then CHR ''-'' # show_pos (- i) else show_pos i)"
  by (simp add: show_int_def show_pos_eq)

definition format_uint :: "u64 \<Rightarrow> string" where
  "format_uint w = show_nat (unat w)"

datatype num_error = ErrSyntax | ErrRange

definition is_digit :: "char \<Rightarrow> bool" where
  "is_digit c \<longleftrightarrow> 48 \<le> (of_char c :: nat) \<and> (of_char c :: nat) \<le> 57"

definition digit_val :: "char \<Rightarrow> nat" where
  "digit_val c = of_char c - 48"

text \<open>
  The loop of \<open>strconv.ParseUint\<close> in base 10: \<open>cutoff\<close> is the least number whose
  product with 10 overflows, and the sum is checked for overflow and against \<open>maxVal\<close>.
\<close>

definition parse_cutoff :: u64 where
  "parse_cutoff = 1844674407370955162"

fun parse_loop :: "u64 \<Rightarrow> u64 \<Rightarrow> string \<Rightarrow> num_error + u64" where
  "parse_loop maxv n [] = Inr n"
| "parse_loop maxv n (c # cs) =
     (if \<not> is_digit c then Inl ErrSyntax
      else if parse_cutoff \<le> n then Inl ErrRange
      else
        let n' = n * 10; n1 = n' + of_nat (digit_val c)
        in if n1 < n' \<or> maxv < n1 then Inl ErrRange else parse_loop maxv n1 cs)"

definition parse_uint :: "string \<Rightarrow> nat \<Rightarrow> num_error + u64" where
  "parse_uint s bits =
     (if s = [] then Inl ErrSyntax else parse_loop (push_bit bits 1 - 1) 0 s)"

text \<open>The number a digit string denotes, on unbounded naturals.\<close>

fun dec_value :: "nat \<Rightarrow> string \<Rightarrow> nat" where
  "dec_value a [] = a"
| "dec_value a (c # cs) = dec_value (10 * a + digit_val c) cs"

lemma dec_value_ge: "a \<le> dec_value a cs"
proof (induction cs arbitrary: a)
  case Nil
  then show ?case by simp
next
  case (Cons c cs)
  have "a \<le> 10 * a + digit_val c" by simp
  also have "\<dots> \<le> dec_value (10 * a + digit_val c) cs" by (rule Cons.IH)
  finally show ?case by simp
qed

lemma dec_value_append: "dec_value a (xs @ ys) = dec_value (dec_value a xs) ys"
  by (induction xs arbitrary: a) auto

lemma digit_val_le: "is_digit c \<Longrightarrow> digit_val c \<le> 9"
  by (auto simp: is_digit_def digit_val_def)

lemma digit_char: "d < 10 \<Longrightarrow> is_digit (char_of (48 + d)) \<and> digit_val (char_of (48 + d :: nat)) = d"
  by (simp add: is_digit_def digit_val_def)

lemma show_nat_digits: "list_all is_digit (show_nat n) \<and> show_nat n \<noteq> [] \<and> dec_value 0 (show_nat n) = n"
proof (induction n rule: show_nat.induct)
  case (1 n)
  show ?case
  proof (cases "n < 10")
    case True
    then show ?thesis by (subst (1 2 3) show_nat.simps) (simp add: digit_char)
  next
    case False
    then have "n mod 10 < 10" by simp
    with False 1 show ?thesis
      by (subst (1 2 3) show_nat.simps) (simp add: digit_char dec_value_append)
  qed
qed

lemma show_nat_inject [simp]: "show_nat m = show_nat n \<longleftrightarrow> m = n"
  by (metis show_nat_digits)

lemma parse_step:
  assumes "is_digit c" and "\<not> parse_cutoff \<le> n"
  defines "n' \<equiv> n * 10" and "n1 \<equiv> n * 10 + (of_nat (digit_val c) :: u64)"
  shows "(n1 < n' \<longleftrightarrow> 2 ^ 64 \<le> 10 * unat n + digit_val c)"
    and "\<not> n1 < n' \<Longrightarrow> unat n1 = 10 * unat n + digit_val c"
proof -
  have n: "unat n < 1844674407370955162"
    using assms(2) by (simp add: parse_cutoff_def not_le word_less_nat_alt)
  have d: "digit_val c \<le> 9" by (rule digit_val_le [OF assms(1)])
  have n': "unat n' = 10 * unat n"
    using n by (simp add: n'_def unat_word_ariths)
  have ud: "unat (of_nat (digit_val c) :: u64) = digit_val c"
    using d by (simp add: unat_of_nat)
  have n1: "unat n1 = (10 * unat n + digit_val c) mod 2 ^ 64"
    unfolding n1_def n'_def [symmetric] by (simp add: unat_word_ariths n' ud)
  show ov: "n1 < n' \<longleftrightarrow> 2 ^ 64 \<le> 10 * unat n + digit_val c"
    unfolding word_less_nat_alt n1 n' using n d by (auto simp: mod_if)
  show "\<not> n1 < n' \<Longrightarrow> unat n1 = 10 * unat n + digit_val c"
    using ov n1 by simp
qed

lemma parse_loop_iff:
  "unat n \<le> unat maxv \<Longrightarrow>
   parse_loop maxv n cs = Inr v \<longleftrightarrow>
     list_all is_digit cs \<and> dec_value (unat n) cs \<le> unat maxv \<and> unat v = dec_value (unat n) cs"
proof (induction cs arbitrary: n)
  case Nil
  then show ?case by (auto simp: word_unat_eq_iff)
next
  case (Cons c cs)
  show ?case
  proof (cases "is_digit c \<and> \<not> parse_cutoff \<le> n")
    case False
    have "unat maxv < 2 ^ 64" using unsigned_less [of maxv] by simp
    moreover have "parse_cutoff \<le> n \<Longrightarrow> 2 ^ 64 \<le> 10 * unat n + digit_val c"
      by (simp add: parse_cutoff_def word_le_nat_alt)
    moreover have "10 * unat n + digit_val c \<le> dec_value (unat n) (c # cs)"
      by (simp add: dec_value_ge)
    ultimately have "parse_cutoff \<le> n \<Longrightarrow> \<not> dec_value (unat n) (c # cs) \<le> unat maxv"
      by linarith
    with False show ?thesis by auto
  next
    case True
    let ?n1 = "n * 10 + (of_nat (digit_val c) :: u64)"
    note st = parse_step [OF conjunct1 [OF True] conjunct2 [OF True]]
    have lt: "unat maxv < 2 ^ 64" using unsigned_less [of maxv] by simp
    have ge: "10 * unat n + digit_val c \<le> dec_value (unat n) (c # cs)" by (simp add: dec_value_ge)
    show ?thesis
    proof (cases "?n1 < n * 10 \<or> maxv < ?n1")
      case True': True
      have "\<not> dec_value (unat n) (c # cs) \<le> unat maxv"
      proof (cases "?n1 < n * 10")
        case True
        with st(1) ge lt show ?thesis by linarith
      next
        case False
        with True' have "unat maxv < unat ?n1" by (simp add: word_less_nat_alt)
        with st(2) [OF False] ge show ?thesis by linarith
      qed
      with True True' show ?thesis by (simp add: Let_def)
    next
      case False
      then have le: "unat ?n1 \<le> unat maxv" by (simp add: word_less_nat_alt)
      from False have "unat ?n1 = 10 * unat n + digit_val c" using st(2) by blast
      with Cons.IH [OF le] True False show ?thesis by (simp add: Let_def)
    qed
  qed
qed

lemma max_val: "bits \<le> 64 \<Longrightarrow> unat (push_bit bits 1 - 1 :: u64) = 2 ^ bits - 1"
proof (cases "bits = 64")
  case True
  then show ?thesis by (simp add: push_bit_eq_mult)
next
  case False
  assume "bits \<le> 64"
  with False have "bits < 64" by simp
  then have lt: "(2::nat) ^ bits < 2 ^ 64" by (rule power_strict_increasing) simp
  have p: "(push_bit bits 1 :: u64) = of_nat (2 ^ bits)" by (simp add: push_bit_eq_mult)
  have u: "unat (push_bit bits 1 :: u64) = 2 ^ bits"
    unfolding p by (simp only: unat_of_nat take_bit_nat_def) (use lt in simp)
  then have "(1 :: u64) \<le> push_bit bits 1"
    by (simp only: word_le_nat_alt unat_1 one_le_power one_le_numeral)
  then show ?thesis by (simp only: unat_sub u unat_1)
qed

lemma parse_uint_iff:
  "bits \<le> 64 \<Longrightarrow>
   parse_uint s bits = Inr v \<longleftrightarrow>
     s \<noteq> [] \<and> list_all is_digit s \<and> dec_value 0 s < 2 ^ bits \<and> unat v = dec_value 0 s"
proof (cases "s = []")
  case True
  then show ?thesis by (simp add: parse_uint_def)
next
  case False
  assume "bits \<le> 64"
  have "dec_value 0 s \<le> 2 ^ bits - 1 \<longleftrightarrow> dec_value 0 s < 2 ^ bits"
    by (metis One_nat_def Suc_le_eq Suc_pred less_Suc_eq_le zero_less_numeral zero_less_power)
  with False show ?thesis
    by (simp add: parse_uint_def parse_loop_iff max_val [OF \<open>bits \<le> 64\<close>] del: push_bit_of_1)
qed

lemma parse_format_uint: "parse_uint (format_uint w) 64 = Inr w"
  using show_nat_digits [of "unat w"] unsigned_less [of w]
  by (simp add: parse_uint_iff format_uint_def)

section \<open>UTF-8\<close>

text \<open>
  The length of the well-formed UTF-8 sequence a byte string starts with, 0 when it starts
  with an ill-formed byte (\<open>utf8.DecodeRune\<close> then returns \<open>RuneError\<close>, width 1).
\<close>

definition in_range :: "nat \<Rightarrow> nat \<Rightarrow> char \<Rightarrow> bool" where
  "in_range lo hi c \<longleftrightarrow> lo \<le> (of_char c :: nat) \<and> (of_char c :: nat) \<le> hi"

fun rune_len :: "string \<Rightarrow> nat" where
  "rune_len [] = 0"
| "rune_len (a # cs) =
     (let cont = in_range 0x80 0xBF;
          second = (\<lambda>lo hi. case cs of b # _ \<Rightarrow> in_range lo hi b | [] \<Rightarrow> False);
          third = (case cs of _ # c # _ \<Rightarrow> cont c | _ \<Rightarrow> False);
          fourth = (case cs of _ # _ # d # _ \<Rightarrow> cont d | _ \<Rightarrow> False)
      in if in_range 0 0x7F a then 1
         else if in_range 0xC2 0xDF a then (if second 0x80 0xBF then 2 else 0)
         else if in_range 0xE0 0xEF a then
           (if second (if in_range 0xE0 0xE0 a then 0xA0 else 0x80)
                      (if in_range 0xED 0xED a then 0x9F else 0xBF) \<and> third then 3 else 0)
         else if in_range 0xF0 0xF4 a then
           (if second (if in_range 0xF0 0xF0 a then 0x90 else 0x80)
                      (if in_range 0xF4 0xF4 a then 0x8F else 0xBF) \<and> third \<and> fourth then 4 else 0)
         else 0)"

text \<open>
  A byte string as \<open>encoding/json\<close> writes it: every ill-formed byte becomes U+FFFD.
\<close>

function utf8_coerce :: "string \<Rightarrow> string" where
  "utf8_coerce [] = []"
| "utf8_coerce (c # cs) =
     (case rune_len (c # cs) of
        0 \<Rightarrow> [CHR 0xEF, CHR 0xBF, CHR 0xBD] @ utf8_coerce cs
      | Suc n \<Rightarrow> take (Suc n) (c # cs) @ utf8_coerce (drop n cs))"
  by pat_completeness auto
termination
  by (relation "measure length") auto

definition valid_utf8 :: "string \<Rightarrow> bool" where
  "valid_utf8 s \<longleftrightarrow> utf8_coerce s = s"

lemma ascii_valid_utf8: "list_all (in_range 0 0x7F) s \<Longrightarrow> valid_utf8 s"
  unfolding valid_utf8_def by (induction s) (auto simp: Let_def)

lemma valid_utf8_Nil [simp]: "valid_utf8 []"
  by (simp add: valid_utf8_def)

section \<open>Hexadecimal digits\<close>

definition hex_digit :: "nat \<Rightarrow> char" where
  "hex_digit n = (if n < 10 then char_of (48 + n) else char_of (87 + n))"

definition hex_val :: "char \<Rightarrow> nat option" where
  "hex_val c =
     (if is_digit c then Some (digit_val c)
      else if in_range 97 102 c then Some (of_char c - 87)
      else if in_range 65 70 c then Some (of_char c - 55) else None)"

lemma hex_val_digit: "d < 16 \<Longrightarrow> hex_val (hex_digit d) = Some d"
  by (auto simp: hex_val_def hex_digit_def is_digit_def digit_val_def in_range_def)

section \<open>Lower case\<close>

definition lower :: "char \<Rightarrow> char" where
  "lower c = (if in_range 0x41 0x5A c then char_of (of_char c + 32 :: nat) else c)"

text \<open>
  \<open>strings.ToLower\<close> for comparing with an ASCII text: besides the capital letters of ASCII, U+0130 and U+212A have an
  ASCII letter as their lower case; other characters are left as they are here.
\<close>

function to_lower :: "string \<Rightarrow> string" where
  "to_lower [] = []"
| "to_lower (c # cs) =
     (if starts_with [CHR 0xC4, CHR 0xB0] (c # cs) then CHR ''i'' # to_lower (drop 1 cs)
      else if starts_with [CHR 0xE2, CHR 0x84, CHR 0xAA] (c # cs) then CHR ''k'' # to_lower (drop 2 cs)
      else lower c # to_lower cs)"
  by pat_completeness auto
termination by (relation "measure length") auto

end
