(* ===== verification/Protocol.thy ===== *)
theory Protocol
  imports GoStrings
begin

text \<open>
  The messages between server and agent, \<open>src/internal/protocol/message.go\<close>: the
  envelope and the four payload structs, and what \<open>encoding/json\<close> does with them by
  their field tags. A JSON text is represented by its parsed document
  (\<open>json\<close>): an envelope's payload is a \<open>json.RawMessage\<close>, which is valid JSON
  once the envelope itself has been decoded, or absent. The lemmas show that every message
  that is sent is decoded to the same message.
\<close>

section \<open>JSON documents and struct decoding\<close>

text \<open>
  Numbers that are not integer literals are kept apart, since Go does not decode them into
  an \<open>int\<close>.
\<close>

datatype json =
    JNull
  | JBool bool
  | JInt int
  | JNumber string
  | JStr string
  | JArr "json list"
  | JObj "(string \<times> json) list"

definition json_type_error :: go_err where
  "json_type_error = LibError ''json: cannot unmarshal''"

definition json_syntax_error :: go_err where
  "json_syntax_error = LibError ''unexpected end of JSON input''"

text \<open>
  Keys are matched exactly first, then up to simple case folding (the long s and the Kelvin
  sign fold to \<open>S\<close> and \<open>K\<close>).
\<close>

function fold_key :: "string \<Rightarrow> string" where
  "fold_key [] = []"
| "fold_key (c # cs) =
     (if starts_with [CHR 0xC5, CHR 0xBF] (c # cs) then CHR ''S'' # fold_key (drop 1 cs)
      else if starts_with [CHR 0xE2, CHR 0x84, CHR 0xAA] (c # cs) then CHR ''K'' # fold_key (drop 2 cs)
      else if in_range 97 122 c then char_of (of_char c - 32 :: nat) # fold_key cs
      else c # fold_key cs)"
  by pat_completeness auto
termination
  by (relation "measure length") auto

definition match_key :: "string list \<Rightarrow> string \<Rightarrow> string option" where
  "match_key fields k =
     (if k \<in> set fields then Some k else find (\<lambda>f. fold_key f = fold_key k) fields)"

fun dec_bool :: "json \<Rightarrow> bool \<Rightarrow> go_err + bool" where
  "dec_bool (JBool b) _ = Inr b"
| "dec_bool JNull old = Inr old"
| "dec_bool _ _ = Inl json_type_error"

fun dec_string :: "json \<Rightarrow> string \<Rightarrow> go_err + string" where
  "dec_string (JStr s) _ = Inr s"
| "dec_string JNull old = Inr old"
| "dec_string _ _ = Inl json_type_error"

definition int64_range :: "int \<Rightarrow> bool" where
  "int64_range i \<longleftrightarrow> - (2 ^ 63) \<le> i \<and> i < 2 ^ 63"

fun dec_int :: "json \<Rightarrow> int \<Rightarrow> go_err + int" where
  "dec_int (JInt i) _ = (if int64_range i then Inr i else Inl json_type_error)"
| "dec_int JNull old = Inr old"
| "dec_int _ _ = Inl json_type_error"

definition upd_field :: "('a \<Rightarrow> 's) \<Rightarrow> go_err + 'a \<Rightarrow> go_err + 's" where
  "upd_field f r = (case r of Inl e \<Rightarrow> Inl e | Inr a \<Rightarrow> Inr (f a))"

lemma upd_field_simps [simp]:
  "upd_field f (Inl e) = Inl e" "upd_field f (Inr a) = Inr (f a)"
  by (simp_all add: upd_field_def)

text \<open>
  Decoding an object into a struct: the members in order, each into the field its key names
  (unknown keys are skipped, a later member overwrites an earlier one). \<open>null\<close> leaves the
  struct as it is, any other document is a type error.
\<close>

fun dec_members :: "(string \<Rightarrow> json \<Rightarrow> 's \<Rightarrow> go_err + 's) \<Rightarrow> (string \<times> json) list \<Rightarrow> 's \<Rightarrow> go_err + 's"
where
  "dec_members f [] s = Inr s"
| "dec_members f ((k, v) # ms) s = (case f k v s of Inl e \<Rightarrow> Inl e | Inr s' \<Rightarrow> dec_members f ms s')"

definition dec_struct ::
    "string list \<Rightarrow> (string \<Rightarrow> json \<Rightarrow> 's \<Rightarrow> go_err + 's) \<Rightarrow> 's \<Rightarrow> json \<Rightarrow> go_err + 's"
where
  "dec_struct fields f zero j =
     (case j of
        JNull \<Rightarrow> Inr zero
      | JObj ms \<Rightarrow>
          dec_members (\<lambda>k v s. case match_key fields k of None \<Rightarrow> Inr s | Some n \<Rightarrow> f n v s) ms zero
      | _ \<Rightarrow> Inl json_type_error)"

text \<open>\<open>json.Unmarshal\<close> of a raw payload: absent bytes are a syntax error.\<close>

definition unmarshal_raw :: "(json \<Rightarrow> go_err + 's) \<Rightarrow> json option \<Rightarrow> go_err + 's" where
  "unmarshal_raw dec p = (case p of None \<Rightarrow> Inl json_syntax_error | Some j \<Rightarrow> dec j)"

definition omitempty :: "bool \<Rightarrow> string \<Rightarrow> json \<Rightarrow> (string \<times> json) list" where
  "omitempty is_zero k v = (if is_zero then [] else [(k, v)])"

definition json_string :: "string \<Rightarrow> json" where
  "json_string s = JStr (utf8_coerce s)"

section \<open>Message types and actions\<close>

definition TypePing :: string where "TypePing = ''ping''"
definition TypeCommand :: string where "TypeCommand = ''command''"
definition TypeAck :: string where "TypeAck = ''ack''"
definition TypeLog :: string where "TypeLog = ''log''"
definition TypeResult :: string where "TypeResult = ''result''"

definition ActionDeploy :: string where "ActionDeploy = ''deploy''"
definition ActionInit :: string where "ActionInit = ''init''"
definition ActionStart :: string where "ActionStart = ''start''"
definition ActionStop :: string where "ActionStop = ''stop''"
definition ActionUpdate :: string where "ActionUpdate = ''update''"
definition ActionDelete :: string where "ActionDelete = ''delete''"
definition ActionStatus :: string where "ActionStatus = ''status''"

lemmas message_types = TypePing_def TypeCommand_def TypeAck_def TypeLog_def TypeResult_def

lemmas actions =
  ActionDeploy_def ActionInit_def ActionStart_def ActionStop_def ActionUpdate_def
  ActionDelete_def ActionStatus_def

section \<open>The structs\<close>

record envelope =
  env_id :: string
  env_type :: string
  env_payload :: "json option"

record cmd_payload =
  cmd_action :: string
  cmd_slot :: int
  cmd_cluster_token :: string

record log_line =
  log_content :: string

record ack =
  ack_accepted :: bool
  ack_reason :: string

record cmd_result =
  res_action :: string
  res_slot :: int
  res_success :: bool
  res_exit_code :: int
  res_error :: string

text \<open>Encoding, by the tags of the fields.\<close>

definition marshal_envelope :: "envelope \<Rightarrow> json" where
  "marshal_envelope e =
     JObj (omitempty (env_id e = []) ''id'' (json_string (env_id e)) @
           [(''type'', json_string (env_type e))] @
           (case env_payload e of None \<Rightarrow> [] | Some p \<Rightarrow> [(''payload'', p)]))"

definition marshal_cmd :: "cmd_payload \<Rightarrow> json" where
  "marshal_cmd c =
     JObj ([(''action'', json_string (cmd_action c))] @
           omitempty (cmd_slot c = 0) ''slot'' (JInt (cmd_slot c)) @
           omitempty (cmd_cluster_token c = []) ''clusterToken'' (json_string (cmd_cluster_token c)))"

definition marshal_log :: "log_line \<Rightarrow> json" where
  "marshal_log l = JObj [(''content'', json_string (log_content l))]"

definition marshal_ack :: "ack \<Rightarrow> json" where
  "marshal_ack a =
     JObj ([(''accepted'', JBool (ack_accepted a))] @
           omitempty (ack_reason a = []) ''reason'' (json_string (ack_reason a)))"

definition marshal_result :: "cmd_result \<Rightarrow> json" where
  "marshal_result r =
     JObj ([(''action'', json_string (res_action r))] @
           omitempty (res_slot r = 0) ''slot'' (JInt (res_slot r)) @
           [(''success'', JBool (res_success r)), (''exitCode'', JInt (res_exit_code r))] @
           omitempty (res_error r = []) ''error'' (json_string (res_error r)))"

text \<open>Decoding, by the same tags.\<close>

definition unmarshal_envelope :: "json \<Rightarrow> go_err + envelope" where
  "unmarshal_envelope =
     dec_struct [''id'', ''type'', ''payload'']
       (\<lambda>n v e.
          if n = ''id'' then upd_field (\<lambda>s. e\<lparr>env_id := s\<rparr>) (dec_string v (env_id e))
          else if n = ''type'' then upd_field (\<lambda>s. e\<lparr>env_type := s\<rparr>) (dec_string v (env_type e))
          else Inr (e\<lparr>env_payload := Some v\<rparr>))
       \<lparr>env_id = [], env_type = [], env_payload = None\<rparr>"

definition unmarshal_cmd :: "json \<Rightarrow> go_err + cmd_payload" where
  "unmarshal_cmd =
     dec_struct [''action'', ''slot'', ''clusterToken'']
       (\<lambda>n v c.
          if n = ''action'' then upd_field (\<lambda>s. c\<lparr>cmd_action := s\<rparr>) (dec_string v (cmd_action c))
          else if n = ''slot'' then upd_field (\<lambda>i. c\<lparr>cmd_slot := i\<rparr>) (dec_int v (cmd_slot c))
          else upd_field (\<lambda>s. c\<lparr>cmd_cluster_token := s\<rparr>) (dec_string v (cmd_cluster_token c)))
       \<lparr>cmd_action = [], cmd_slot = 0, cmd_cluster_token = []\<rparr>"

definition unmarshal_log :: "json \<Rightarrow> go_err + log_line" where
  "unmarshal_log =
     dec_struct [''content'']
       (\<lambda>n v l. upd_field (\<lambda>s. l\<lparr>log_content := s\<rparr>) (dec_string v (log_content l)))
       \<lparr>log_content = []\<rparr>"

definition unmarshal_ack :: "json \<Rightarrow> go_err + ack" where
  "unmarshal_ack =
     dec_struct [''accepted'', ''reason'']
       (\<lambda>n v a.
          if n = ''accepted'' then upd_field (\<lambda>b. a\<lparr>ack_accepted := b\<rparr>) (dec_bool v (ack_accepted a))
          else upd_field (\<lambda>s. a\<lparr>ack_reason := s\<rparr>) (dec_string v (ack_reason a)))
       \<lparr>ack_accepted = False, ack_reason = []\<rparr>"

definition unmarshal_result :: "json \<Rightarrow> go_err + cmd_result" where
  "unmarshal_result =
     dec_struct [''action'', ''slot'', ''success'', ''exitCode'', ''error'']
       (\<lambda>n v r.
          if n = ''action'' then upd_field (\<lambda>s. r\<lparr>res_action := s\<rparr>) (dec_string v (res_action r))
          else if n = ''slot'' then upd_field (\<lambda>i. r\<lparr>res_slot := i\<rparr>) (dec_int v (res_slot r))
          else if n = ''success'' then upd_field (\<lambda>b. r\<lparr>res_success := b\<rparr>) (dec_bool v (res_success r))
          else if n = ''exitCode'' then upd_field (\<lambda>i. r\<lparr>res_exit_code := i\<rparr>) (dec_int v (res_exit_code r))
          else upd_field (\<lambda>s. r\<lparr>res_error := s\<rparr>) (dec_string v (res_error r)))
       \<lparr>res_action = [], res_slot = 0, res_success = False, res_exit_code = 0, res_error = []\<rparr>"

section \<open>Round trips\<close>

lemmas codec_simps = dec_struct_def omitempty_def json_string_def match_key_def valid_utf8_def

lemma envelope_roundtrip:
  "valid_utf8 (env_id e) \<Longrightarrow> valid_utf8 (env_type e) \<Longrightarrow>
   unmarshal_envelope (marshal_envelope e) = Inr e"
  by (cases e) (auto simp: unmarshal_envelope_def marshal_envelope_def codec_simps split: option.split)

lemma cmd_roundtrip:
  "valid_utf8 (cmd_action c) \<Longrightarrow> valid_utf8 (cmd_cluster_token c) \<Longrightarrow> int64_range (cmd_slot c) \<Longrightarrow>
   unmarshal_cmd (marshal_cmd c) = Inr c"
  by (cases c) (auto simp: unmarshal_cmd_def marshal_cmd_def codec_simps)

lemma log_roundtrip: "valid_utf8 (log_content l) \<Longrightarrow> unmarshal_log (marshal_log l) = Inr l"
  by (cases l) (auto simp: unmarshal_log_def marshal_log_def codec_simps)

lemma ack_roundtrip: "valid_utf8 (ack_reason a) \<Longrightarrow> unmarshal_ack (marshal_ack a) = Inr a"
  by (cases a) (auto simp: unmarshal_ack_def marshal_ack_def codec_simps)

lemma result_roundtrip:
  "valid_utf8 (res_action r) \<Longrightarrow> valid_utf8 (res_error r) \<Longrightarrow>
   int64_range (res_slot r) \<Longrightarrow> int64_range (res_exit_code r) \<Longrightarrow>
   unmarshal_result (marshal_result r) = Inr r"
  by (cases r) (auto simp: unmarshal_result_def marshal_result_def codec_simps)

end
