(* ===== verification/CommandTracker.thy ===== *)
theory CommandTracker
  imports Protocol
begin

text \<open>
  The interface through which the agent service learns whether a command is still waiting
  for its outcome: \<open>Finish\<close> of the hub. The provider is the theory Hub, the client the
  theory AgentService.
\<close>

locale command_tracker =
  fixes finish :: "u64 \<Rightarrow> string \<Rightarrow> 'h \<Rightarrow> bool \<times> 'h"
    and waiting :: "'h \<Rightarrow> u64 \<Rightarrow> string \<Rightarrow> bool"
    and wf :: "'h \<Rightarrow> bool"
  assumes finish_result: "wf h \<Longrightarrow> fst (finish k i h) = waiting h k i"
    and finish_waiting:
      "wf h \<Longrightarrow> waiting (snd (finish k i h)) k' i' \<longleftrightarrow> waiting h k' i' \<and> (k', i') \<noteq> (k, i)"
    and finish_wf: "wf h \<Longrightarrow> wf (snd (finish k i h))"
begin

lemma finish_cases:
  assumes "wf h"
  obtains (settled) h' where "finish k i h = (True, h')" "waiting h k i" "wf h'"
      "\<And>k' i'. waiting h' k' i' \<longleftrightarrow> waiting h k' i' \<and> (k', i') \<noteq> (k, i)"
  | (unknown) h' where "finish k i h = (False, h')" "\<not> waiting h k i" "wf h'"
      "\<And>k' i'. waiting h' k' i' \<longleftrightarrow> waiting h k' i'"
proof (cases "finish k i h")
  case (Pair b h')
  with assms have "b = waiting h k i" "wf h'"
    and "\<And>k' i'. waiting h' k' i' \<longleftrightarrow> waiting h k' i' \<and> (k', i') \<noteq> (k, i)"
    using finish_result [of h k i] finish_waiting [of h k i] finish_wf [of h k i] by simp_all
  then show ?thesis
    using Pair settled [of h'] unknown [of h'] by (cases b) auto
qed

end

end
