(* ===== verification/Hub.thy ===== *)
theory Hub
  imports CommandTracker
begin

text \<open>
  The registry of connected agents, \<open>src/internal/agent_manager/hub.go\<close>. A hub maps
  server ids to \<open>*agentConn\<close> objects; the objects live in a heap, because a goroutine
  may hold a pointer to one after it has left the map. A \<open>*websocket.Conn\<close> is a handle
  (a number); what gorilla/websocket answers is a parameter (\<open>wire\<close>).

  Every operation is one or two critical sections: \<open>register_lock\<close>,
  \<open>unregister_lock\<close>, \<open>disconnect_lock\<close> and \<open>lookup_agent\<close> run under
  \<open>h.mu\<close>; \<open>close_agent\<close>, \<open>send_locked\<close> and \<open>finish_locked\<close> under the
  agent's own mutex. The whole methods compose them; the theory HubInterleaving lets
  other goroutines run in between.
\<close>

section \<open>State\<close>

type_synonym conn = nat
type_synonym agent_ref = nat

record agent_conn =
  ac_conn :: conn
  ac_pending :: "string list"
  ac_closed :: bool

text \<open>
  \<open>h_on_interrupted\<close>: the callback field is set. The order in which Go ranges over the
  pending map is not specified; the model takes insertion order, and the theorems speak of
  multisets and sets of ids.
\<close>

record hub =
  h_conns :: "(u64 \<times> agent_ref) list"
  h_heap :: "agent_ref \<Rightarrow> agent_conn"
  h_next :: agent_ref
  h_on_interrupted :: bool

datatype hub_event =
    ConnClosed conn
  | Interrupted u64 string

record wire =
  wire_set_write_deadline :: "conn \<Rightarrow> go_err option"
  wire_write_json :: "conn \<Rightarrow> envelope \<Rightarrow> go_err option"

definition nil_agent :: agent_conn where
  "nil_agent = \<lparr>ac_conn = 0, ac_pending = [], ac_closed = True\<rparr>"

definition new_hub :: hub where
  "new_hub = \<lparr>h_conns = [], h_heap = (\<lambda>_. nil_agent), h_next = 0, h_on_interrupted = False\<rparr>"

section \<open>Critical sections\<close>

definition lookup_agent :: "u64 \<Rightarrow> hub \<Rightarrow> agent_ref option" where
  "lookup_agent sid h = map_of (h_conns h) sid"

definition register_lock :: "u64 \<Rightarrow> conn \<Rightarrow> hub \<Rightarrow> agent_ref option \<times> hub" where
  "register_lock sid c h =
     (lookup_agent sid h,
      h\<lparr>h_conns := AList.update sid (h_next h) (h_conns h),
        h_heap := (h_heap h)(h_next h := \<lparr>ac_conn = c, ac_pending = [], ac_closed = False\<rparr>),
        h_next := Suc (h_next h)\<rparr>)"

definition unregister_lock :: "u64 \<Rightarrow> conn \<Rightarrow> hub \<Rightarrow> agent_ref option \<times> hub" where
  "unregister_lock sid c h =
     (case lookup_agent sid h of
        None \<Rightarrow> (None, h)
      | Some r \<Rightarrow>
          if ac_conn (h_heap h r) \<noteq> c then (None, h)
          else (Some r, h\<lparr>h_conns := AList.delete sid (h_conns h)\<rparr>))"

definition disconnect_lock :: "u64 \<Rightarrow> hub \<Rightarrow> agent_ref option \<times> hub" where
  "disconnect_lock sid h = (lookup_agent sid h, h\<lparr>h_conns := AList.delete sid (h_conns h)\<rparr>)"

definition close_agent :: "u64 \<Rightarrow> agent_ref \<Rightarrow> hub \<Rightarrow> hub_event list \<times> hub" where
  "close_agent sid r h =
     (let a = h_heap h r;
          ids = ac_pending a
      in (ConnClosed (ac_conn a) #
            (if h_on_interrupted h then map (Interrupted sid) ids else []),
          h\<lparr>h_heap := (h_heap h)(r := a\<lparr>ac_closed := True, ac_pending := []\<rparr>)\<rparr>))"

definition add_pending :: "string \<Rightarrow> string list \<Rightarrow> string list" where
  "add_pending i p = (if i \<in> set p then p else p @ [i])"

definition set_agent :: "agent_ref \<Rightarrow> agent_conn \<Rightarrow> hub \<Rightarrow> hub" where
  "set_agent r a h = h\<lparr>h_heap := (h_heap h)(r := a)\<rparr>"

definition send_locked ::
    "wire \<Rightarrow> u64 \<Rightarrow> agent_ref \<Rightarrow> envelope \<Rightarrow> hub \<Rightarrow> go_err option \<times> hub_event list \<times> hub"
where
  "send_locked wr sid r env h =
     (let a = h_heap h r in
      if ac_closed a then (Some (ErrorMsg (AgentMsg (M_agent_conn_closed sid))), [], h)
      else
        case wire_set_write_deadline wr (ac_conn a) of
          Some e \<Rightarrow>
            (Some (Wrapped (AgentMsg M_write_deadline_failed) e), [ConnClosed (ac_conn a)], h)
        | None \<Rightarrow>
            let a' = (if env_type env = TypeCommand
                      then a\<lparr>ac_pending := add_pending (env_id env) (ac_pending a)\<rparr> else a)
            in case wire_write_json wr (ac_conn a) env of
                 Some e \<Rightarrow>
                   (Some (Wrapped (AgentMsg M_command_send_failed) e), [ConnClosed (ac_conn a)],
                    set_agent r (a'\<lparr>ac_pending := removeAll (env_id env) (ac_pending a')\<rparr>) h)
               | None \<Rightarrow> (None, [], set_agent r a' h))"

definition finish_locked :: "agent_ref \<Rightarrow> string \<Rightarrow> hub \<Rightarrow> bool \<times> hub" where
  "finish_locked r i h =
     (let a = h_heap h r in
      if i \<notin> set (ac_pending a) then (False, h)
      else (True, set_agent r (a\<lparr>ac_pending := removeAll i (ac_pending a)\<rparr>) h))"

section \<open>The methods\<close>

definition close_old :: "u64 \<Rightarrow> agent_ref option \<times> hub \<Rightarrow> hub_event list \<times> hub" where
  "close_old sid p = (case p of (None, h) \<Rightarrow> ([], h) | (Some r, h) \<Rightarrow> close_agent sid r h)"

definition register :: "u64 \<Rightarrow> conn \<Rightarrow> hub \<Rightarrow> hub_event list \<times> hub" where
  "register sid c h = close_old sid (register_lock sid c h)"

definition unregister :: "u64 \<Rightarrow> conn \<Rightarrow> hub \<Rightarrow> hub_event list \<times> hub" where
  "unregister sid c h = close_old sid (unregister_lock sid c h)"

definition disconnect :: "u64 \<Rightarrow> hub \<Rightarrow> hub_event list \<times> hub" where
  "disconnect sid h = close_old sid (disconnect_lock sid h)"

definition send :: "wire \<Rightarrow> u64 \<Rightarrow> envelope \<Rightarrow> hub \<Rightarrow> go_err option \<times> hub_event list \<times> hub" where
  "send wr sid env h =
     (case lookup_agent sid h of
        None \<Rightarrow> (Some (ErrorMsg (AgentMsg (M_agent_offline sid))), [], h)
      | Some r \<Rightarrow> send_locked wr sid r env h)"

definition finish :: "u64 \<Rightarrow> string \<Rightarrow> hub \<Rightarrow> bool \<times> hub" where
  "finish sid i h =
     (case lookup_agent sid h of None \<Rightarrow> (False, h) | Some r \<Rightarrow> finish_locked r i h)"

definition is_online :: "u64 \<Rightarrow> hub \<Rightarrow> bool" where
  "is_online sid h = (lookup_agent sid h \<noteq> None)"

definition count_online :: "hub \<Rightarrow> nat" where
  "count_online h = length (h_conns h)"

lemmas hub_locks =
  lookup_agent_def register_lock_def unregister_lock_def disconnect_lock_def close_agent_def
  send_locked_def finish_locked_def set_agent_def

lemmas hub_methods =
  register_def unregister_def disconnect_def send_def finish_def close_old_def

section \<open>The invariant\<close>

text \<open>
  Server ids are keys at most once, two servers never share an agent object, every object in
  the map has been allocated and is open, its pending ids are distinct, and a closed object
  has nothing pending.
\<close>

definition agent_ok :: "agent_conn \<Rightarrow> bool" where
  "agent_ok a \<longleftrightarrow> distinct (ac_pending a) \<and> (ac_closed a \<longrightarrow> ac_pending a = [])"

definition refs_of :: "hub \<Rightarrow> agent_ref set" where
  "refs_of h = snd ` set (h_conns h)"

definition hub_wf :: "hub \<Rightarrow> bool" where
  "hub_wf h \<longleftrightarrow>
     distinct (map fst (h_conns h)) \<and> distinct (map snd (h_conns h)) \<and>
     (\<forall>r\<in>refs_of h. r < h_next h \<and> \<not> ac_closed (h_heap h r)) \<and>
     (\<forall>r. agent_ok (h_heap h r))"

lemma refs_of_lookup: "lookup_agent sid h = Some r \<Longrightarrow> r \<in> refs_of h"
  by (auto simp: lookup_agent_def refs_of_def dest!: map_of_SomeD intro: rev_image_eqI)

lemma lookup_inject:
  assumes "hub_wf h" "lookup_agent s h = Some r" "lookup_agent t h = Some r"
  shows "s = t"
proof -
  have "(s, r) \<in> set (h_conns h)" "(t, r) \<in> set (h_conns h)"
    using assms(2,3) by (auto simp: lookup_agent_def dest: map_of_SomeD)
  moreover have "inj_on snd (set (h_conns h))"
    using assms(1) by (simp add: hub_wf_def distinct_map)
  ultimately show ?thesis by (metis inj_onD prod.inject snd_conv)
qed

lemma lookup_open: "hub_wf h \<Longrightarrow> lookup_agent s h = Some r \<Longrightarrow> \<not> ac_closed (h_heap h r)"
  using refs_of_lookup by (auto simp: hub_wf_def)

lemma hub_wf_new [simp]: "hub_wf new_hub"
  by (simp add: hub_wf_def new_hub_def refs_of_def agent_ok_def nil_agent_def)

lemma in_delete: "p \<in> set (AList.delete k al) \<Longrightarrow> p \<in> set al"
  by (auto simp: AList.delete_eq)

lemma in_update: "p \<in> set (AList.update k r al) \<Longrightarrow> p = (k, r) \<or> p \<in> set al"
  by (induction al) (auto split: if_splits)

lemma distinct_snd_update:
  "distinct (map fst al) \<Longrightarrow> distinct (map snd al) \<Longrightarrow> r \<notin> snd ` set al \<Longrightarrow>
   distinct (map snd (AList.update k r al))"
proof (induction al)
  case (Cons p al)
  then show ?case by (cases p) (auto dest!: in_update intro: rev_image_eqI)
qed simp

lemma distinct_snd_delete: "distinct (map snd al) \<Longrightarrow> distinct (map snd (AList.delete k al))"
proof (induction al)
  case (Cons p al)
  then show ?case by (cases p) (auto dest!: in_delete intro: rev_image_eqI)
qed simp

text \<open>
  An object that is not in the map any more may be closed: this is what each method does
  after its first critical section.
\<close>

lemma hub_wf_heap:
  assumes "hub_wf h" and "agent_ok a" and "r \<in> refs_of h \<Longrightarrow> \<not> ac_closed a"
  shows "hub_wf (set_agent r a h)"
  using assms by (auto simp: hub_wf_def set_agent_def refs_of_def)

lemma hub_wf_delete: "hub_wf h \<Longrightarrow> hub_wf (h\<lparr>h_conns := AList.delete sid (h_conns h)\<rparr>)"
  by (auto simp: hub_wf_def refs_of_def distinct_snd_delete intro: distinct_delete dest!: in_delete)

lemma lookup_delete:
  "lookup_agent t (h\<lparr>h_conns := AList.delete sid (h_conns h)\<rparr>) =
     (if t = sid then None else lookup_agent t h)"
  by (simp add: lookup_agent_def map_of_delete_iff)

lemma deleted_not_ref:
  assumes "hub_wf h" and "lookup_agent sid h = Some r"
  shows "r \<notin> refs_of (h\<lparr>h_conns := AList.delete sid (h_conns h)\<rparr>)"
proof
  assume "r \<in> refs_of (h\<lparr>h_conns := AList.delete sid (h_conns h)\<rparr>)"
  then obtain t where t: "(t, r) \<in> set (AList.delete sid (h_conns h))" by (auto simp: refs_of_def)
  then have "t \<noteq> sid" and "(t, r) \<in> set (h_conns h)" by (auto simp: AList.delete_eq)
  then have "lookup_agent t h = Some r"
    using assms(1) by (simp add: lookup_agent_def hub_wf_def)
  with assms \<open>t \<noteq> sid\<close> show False using lookup_inject by blast
qed

lemma close_agent_set:
  "snd (close_agent sid r h) =
     set_agent r ((h_heap h r)\<lparr>ac_closed := True, ac_pending := []\<rparr>) h"
  by (simp add: close_agent_def Let_def set_agent_def)

lemma hub_wf_close: "hub_wf h \<Longrightarrow> r \<notin> refs_of h \<Longrightarrow> hub_wf (snd (close_agent sid r h))"
  by (auto simp: close_agent_set agent_ok_def intro: hub_wf_heap)

lemma hub_wf_register_lock: "hub_wf h \<Longrightarrow> hub_wf (snd (register_lock sid c h))"
proof -
  assume wf: "hub_wf h"
  have fresh: "h_next h \<notin> snd ` set (h_conns h)"
    using wf by (auto simp: hub_wf_def refs_of_def)
  show ?thesis
    using wf fresh
    by (auto simp: hub_wf_def register_lock_def refs_of_def agent_ok_def distinct_snd_update
        intro: distinct_update dest!: in_update)
qed

lemma register_old_not_ref:
  assumes "hub_wf h" and "lookup_agent sid h = Some r"
  shows "r \<notin> refs_of (snd (register_lock sid c h))"
proof
  let ?h = "snd (register_lock sid c h)"
  have rlt: "r < h_next h" using assms refs_of_lookup by (auto simp: hub_wf_def)
  assume "r \<in> refs_of ?h"
  then obtain t where "(t, r) \<in> set (h_conns ?h)" by (auto simp: refs_of_def)
  moreover have "distinct (map fst (h_conns ?h))"
    using hub_wf_register_lock [OF assms(1)] by (simp add: hub_wf_def)
  ultimately have "map_of (h_conns ?h) t = Some r" by simp
  moreover have "map_of (h_conns ?h) t = (if t = sid then Some (h_next h) else lookup_agent t h)"
    by (simp add: register_lock_def map_of_update_iff lookup_agent_def)
  ultimately have "(if t = sid then Some (h_next h) else lookup_agent t h) = Some r" by metis
  with rlt assms show False
    by (auto split: if_splits dest: lookup_inject)
qed

lemma hub_wf_register: "hub_wf h \<Longrightarrow> hub_wf (snd (register sid c h))"
  using hub_wf_register_lock [of h sid c] register_old_not_ref [of h sid _ c]
  by (auto simp: register_def close_old_def register_lock_def split: option.split
      intro!: hub_wf_close)

lemma hub_wf_unregister: "hub_wf h \<Longrightarrow> hub_wf (snd (unregister sid c h))"
  by (auto simp: unregister_def close_old_def unregister_lock_def split: option.split
      intro!: hub_wf_close hub_wf_delete dest: deleted_not_ref)

lemma hub_wf_disconnect: "hub_wf h \<Longrightarrow> hub_wf (snd (disconnect sid h))"
  by (auto simp: disconnect_def close_old_def disconnect_lock_def split: option.split
      intro!: hub_wf_close hub_wf_delete dest: deleted_not_ref)

lemma set_add_pending [simp]: "set (add_pending i p) = insert i (set p)"
  by (auto simp: add_pending_def)

lemma distinct_add_pending [simp]: "distinct (add_pending i p) = distinct p"
  by (auto simp: add_pending_def)

lemma hub_wf_ok: "hub_wf h \<Longrightarrow> agent_ok (h_heap h r)"
  by (simp add: hub_wf_def)

lemma hub_wf_send_locked: "hub_wf h \<Longrightarrow> hub_wf (snd (snd (send_locked wr sid r env h)))"
  using hub_wf_ok [of h r]
  by (auto simp: send_locked_def Let_def agent_ok_def distinct_removeAll
      split: option.split intro!: hub_wf_heap)

lemma hub_wf_finish_locked: "hub_wf h \<Longrightarrow> hub_wf (snd (finish_locked r i h))"
  using hub_wf_ok [of h r]
  by (auto simp: finish_locked_def Let_def agent_ok_def distinct_removeAll intro!: hub_wf_heap)

lemma hub_wf_send: "hub_wf h \<Longrightarrow> hub_wf (snd (snd (send wr sid env h)))"
  by (auto simp: send_def hub_wf_send_locked split: option.split)

lemma hub_wf_finish: "hub_wf h \<Longrightarrow> hub_wf (snd (finish sid i h))"
  by (auto simp: finish_def hub_wf_finish_locked split: option.split)

section \<open>What is waiting for an outcome\<close>

text \<open>
  A command is waiting on a server when the server's current agent object has its id among
  the pending ones. This is the view under which the hub provides the tracker interface.
\<close>

definition waiting_on :: "hub \<Rightarrow> u64 \<Rightarrow> string \<Rightarrow> bool" where
  "waiting_on h sid i =
     (case lookup_agent sid h of None \<Rightarrow> False | Some r \<Rightarrow> i \<in> set (ac_pending (h_heap h r)))"

lemma lookup_set_agent [simp]: "lookup_agent sid (set_agent r a h) = lookup_agent sid h"
  by (simp add: lookup_agent_def set_agent_def)

lemma heap_set_agent: "h_heap (set_agent r a h) = (h_heap h)(r := a)"
  by (simp add: set_agent_def)

lemma waiting_set_agent:
  "hub_wf h \<Longrightarrow> lookup_agent sid h = Some r \<Longrightarrow>
   waiting_on (set_agent r a h) t i \<longleftrightarrow> (if t = sid then i \<in> set (ac_pending a) else waiting_on h t i)"
  by (auto simp: waiting_on_def heap_set_agent split: option.split dest: lookup_inject)

lemma finish_fst: "fst (finish sid i h) = waiting_on h sid i"
  by (auto simp: finish_def finish_locked_def waiting_on_def Let_def split: option.split)

lemma finish_waiting_iff:
  "hub_wf h \<Longrightarrow>
   waiting_on (snd (finish sid i h)) t j \<longleftrightarrow> waiting_on h t j \<and> (t, j) \<noteq> (sid, i)"
  by (auto simp: finish_def finish_locked_def Let_def waiting_set_agent split: option.split)
    (auto simp: waiting_on_def)

interpretation hub_tracker: command_tracker finish waiting_on hub_wf
  by unfold_locales (simp_all add: finish_fst finish_waiting_iff hub_wf_finish)

section \<open>Properties\<close>

text \<open>What the methods do to the map, and to the agent objects of other servers.\<close>

lemma register_unfold:
  "register sid c h =
     (case lookup_agent sid h of
        None \<Rightarrow> ([], snd (register_lock sid c h))
      | Some r \<Rightarrow> close_agent sid r (snd (register_lock sid c h)))"
  by (simp add: register_def close_old_def register_lock_def split: option.split)

lemma lookup_register:
  "lookup_agent t (snd (register sid c h)) = (if t = sid then Some (h_next h) else lookup_agent t h)"
  by (auto simp: register_unfold close_agent_set lookup_agent_def register_lock_def set_agent_def
      map_of_update_iff split: option.split)

lemma heap_register:
  "h_heap (snd (register sid c h)) t =
     (let h1 = (h_heap h)(h_next h := \<lparr>ac_conn = c, ac_pending = [], ac_closed = False\<rparr>)
      in if lookup_agent sid h = Some t then (h1 t)\<lparr>ac_closed := True, ac_pending := []\<rparr> else h1 t)"
  by (auto simp: register_unfold close_agent_set register_lock_def set_agent_def split: option.split)

lemma lookup_less: "hub_wf h \<Longrightarrow> lookup_agent t h = Some r \<Longrightarrow> r < h_next h"
  using refs_of_lookup by (auto simp: hub_wf_def)

lemma waiting_register:
  "hub_wf h \<Longrightarrow> waiting_on (snd (register sid c h)) t i \<longleftrightarrow> waiting_on h t i \<and> t \<noteq> sid"
  by (auto simp: waiting_on_def lookup_register heap_register Let_def split: option.split
      dest: lookup_less lookup_inject)

lemma register_events:
  "fst (register sid c h) =
     (case lookup_agent sid h of
        None \<Rightarrow> []
      | Some r \<Rightarrow>
          let a = h_heap (snd (register_lock sid c h)) r
          in ConnClosed (ac_conn a) # (if h_on_interrupted h then map (Interrupted sid) (ac_pending a) else []))"
  by (simp add: register_unfold close_agent_def register_lock_def Let_def split: option.split)

text \<open>A server that connects again is taken over by its new connection: the old connection is closed,
  every command that was pending on it is reported interrupted, exactly once and in the hub's order, the new
  connection is the current one with nothing pending, and no other server's connection or pending command
  changes.\<close>

lemma register_takes_over:
  assumes "hub_wf h" and "h_on_interrupted h" and "lookup_agent sid h = Some r"
  shows "fst (register sid c h) =
      ConnClosed (ac_conn (h_heap h r)) # map (Interrupted sid) (ac_pending (h_heap h r)) \<and>
    distinct (ac_pending (h_heap h r)) \<and>
    (\<forall>t. lookup_agent t (snd (register sid c h)) = (if t = sid then Some (h_next h) else lookup_agent t h)) \<and>
    h_heap (snd (register sid c h)) (h_next h) = \<lparr>ac_conn = c, ac_pending = [], ac_closed = False\<rparr> \<and>
    (\<forall>t i. waiting_on (snd (register sid c h)) t i \<longleftrightarrow> waiting_on h t i \<and> t \<noteq> sid)"
proof (intro conjI allI)
  have old: "h_heap (snd (register_lock sid c h)) r = h_heap h r"
    using lookup_less [OF assms(1,3)] by (simp add: register_lock_def)
  show "fst (register sid c h) =
      ConnClosed (ac_conn (h_heap h r)) # map (Interrupted sid) (ac_pending (h_heap h r))"
    using assms by (simp add: register_events old Let_def)
  show "distinct (ac_pending (h_heap h r))"
    using hub_wf_ok [OF assms(1)] by (simp add: agent_ok_def)
  show "h_heap (snd (register sid c h)) (h_next h) = \<lparr>ac_conn = c, ac_pending = [], ac_closed = False\<rparr>"
    using lookup_less [OF assms(1,3)] assms(3) by (simp add: heap_register Let_def)
qed (simp_all add: lookup_register waiting_register [OF assms(1)])

definition sample_hub :: hub where
  "sample_hub = (snd (register 7 70 new_hub))\<lparr>h_on_interrupted := True\<rparr>"

definition sample_wire :: wire where
  "sample_wire = \<lparr>wire_set_write_deadline = (\<lambda>_. None), wire_write_json = (\<lambda>_ _. None)\<rparr>"

definition sample_busy_hub :: hub where
  "sample_busy_hub =
     snd (snd (send sample_wire 7 \<lparr>env_id = ''x'', env_type = TypeCommand, env_payload = None\<rparr> sample_hub))"

lemma sample_hub_wf: "hub_wf sample_hub"
  using hub_wf_register [OF hub_wf_new, of 7 70] by (simp add: sample_hub_def hub_wf_def refs_of_def)

lemma sample_busy_hub_wf: "hub_wf sample_busy_hub"
  unfolding sample_busy_hub_def by (rule hub_wf_send [OF sample_hub_wf])

lemma register_takes_over_witness:
  "fst (register 7 71 sample_busy_hub) = [ConnClosed 70, Interrupted 7 ''x'']"
proof -
  have "h_on_interrupted sample_busy_hub" "lookup_agent 7 sample_busy_hub = Some 0"
    "h_heap sample_busy_hub 0 = \<lparr>ac_conn = 70, ac_pending = [''x''], ac_closed = False\<rparr>"
    by code_simp+
  then show ?thesis
    using register_takes_over [OF sample_busy_hub_wf, of 7 0 71] by simp
qed

text \<open>A connection that has been replaced cannot remove its successor: when connection c2 has registered
  for a server, the deferred \<open>Unregister\<close> of an earlier connection c1 of that server closes nothing, reports
  nothing and leaves the hub as it is, whatever the hub's state was.\<close>

lemma stale_unregister_is_noop:
  "c1 \<noteq> c2 \<Longrightarrow>
   unregister sid c1 (snd (register sid c2 h)) = ([], snd (register sid c2 h))"
  by (auto simp: unregister_def unregister_lock_def close_old_def lookup_register heap_register Let_def
      split: option.split)

lemma stale_unregister_is_noop_witness:
  "unregister 7 70 (snd (register 7 71 sample_busy_hub)) = ([], snd (register 7 71 sample_busy_hub))"
  by (rule stale_unregister_is_noop) simp

lemma send_waiting:
  assumes "hub_wf h" and "env_type env = TypeCommand" and "\<not> waiting_on h sid (env_id env)"
  shows "(case send wr sid env h of
            (None, evs, h') \<Rightarrow> is_online sid h \<and> evs = [] \<and>
              (\<forall>t i. waiting_on h' t i \<longleftrightarrow> waiting_on h t i \<or> (t, i) = (sid, env_id env))
          | (Some e, evs, h') \<Rightarrow> (\<forall>t i. waiting_on h' t i \<longleftrightarrow> waiting_on h t i))"
proof (cases "lookup_agent sid h")
  case None
  then show ?thesis by (simp add: send_def)
next
  case (Some r)
  have "waiting_on h sid i \<longleftrightarrow> i \<in> set (ac_pending (h_heap h r))" for i
    using Some by (simp add: waiting_on_def)
  with assms Some show ?thesis
    by (auto simp: send_def send_locked_def Let_def waiting_set_agent is_online_def add_pending_def
        split: option.split)
qed

text \<open>\<open>Send\<close> of a command with a new id tracks it exactly when it was written: on success the command is
  pending on that server and nothing else changes, and on every error (agent offline, connection closed,
  write deadline or write failed) the set of pending commands is the one before.\<close>

lemma send_tracks_command:
  assumes "hub_wf h" and "env_type env = TypeCommand" and "\<not> waiting_on h sid (env_id env)"
  shows "(case send wr sid env h of
            (None, evs, h') \<Rightarrow> is_online sid h \<and> evs = [] \<and>
              (\<forall>t i. waiting_on h' t i \<longleftrightarrow> waiting_on h t i \<or> (t, i) = (sid, env_id env))
          | (Some e, evs, h') \<Rightarrow> (\<forall>t i. waiting_on h' t i \<longleftrightarrow> waiting_on h t i))"
  by (rule send_waiting [OF assms])

lemma send_tracks_command_witness:
  "waiting_on sample_busy_hub 7 ''x''"
proof -
  let ?env = "\<lparr>env_id = ''x'', env_type = TypeCommand, env_payload = None\<rparr>"
  have "fst (send sample_wire 7 ?env sample_hub) = None" by code_simp
  moreover have "snd (snd (send sample_wire 7 ?env sample_hub)) = sample_busy_hub"
    by (simp add: sample_busy_hub_def)
  ultimately obtain evs where "send sample_wire 7 ?env sample_hub = (None, evs, sample_busy_hub)"
    by (metis prod.collapse)
  moreover have "\<not> waiting_on sample_hub 7 ''x''" by code_simp
  ultimately show ?thesis
    using send_tracks_command [OF sample_hub_wf, of ?env 7 sample_wire] by simp
qed

end
