(* ===== verification/AgentService.thy ===== *)
theory AgentService
  imports Hub
begin

text \<open>
  Commands to agents and their answers, \<open>src/internal/agent_manager/service.go\<close>. The
  answer handlers use the hub through \<open>Finish\<close> only, so they take it as an argument, and
  their lemmas are proved for every instance of the locale \<open>command_tracker\<close>; the hub is one.
\<close>

section \<open>The service and its callbacks\<close>

text \<open>Which of the four callback fields are set.\<close>

record callbacks =
  cb_ack :: bool
  cb_log :: bool
  cb_result :: bool
  cb_interrupted :: bool

datatype service_event =
    EvAck u64 string ack
  | EvLog u64 string log_line
  | EvResult u64 string cmd_result
  | EvInterrupted u64 string msg

definition emit :: "bool \<Rightarrow> service_event \<Rightarrow> service_event list" where
  "emit on ev = (if on then [ev] else [])"

definition new_service :: "hub \<Rightarrow> hub" where
  "new_service h = h\<lparr>h_on_interrupted := True\<rparr>"

text \<open>The closure \<open>NewService\<close> installs as the hub's callback.\<close>

definition on_hub_interrupted :: "callbacks \<Rightarrow> u64 \<Rightarrow> string \<Rightarrow> service_event list" where
  "on_hub_interrupted cb sid i =
     emit (cb_interrupted cb) (EvInterrupted sid i (AgentMsg M_interrupted_reason))"

section \<open>Sending commands\<close>

definition send_cmd ::
    "wire \<Rightarrow> string \<Rightarrow> u64 \<Rightarrow> cmd_payload \<Rightarrow> hub \<Rightarrow> (go_err + string) \<times> hub_event list \<times> hub"
where
  "send_cmd wr uuid sid payload h =
     (let env = \<lparr>env_id = uuid, env_type = TypeCommand, env_payload = Some (marshal_cmd payload)\<rparr>
      in case send wr sid env h of
           (Some e, evs, h') \<Rightarrow> (Inl e, evs, h')
         | (None, evs, h') \<Rightarrow> (Inr (env_id env), evs, h'))"

definition svc_deploy ::
    "wire \<Rightarrow> string \<Rightarrow> u64 \<Rightarrow> hub \<Rightarrow> (go_err + string) \<times> hub_event list \<times> hub"
where
  "svc_deploy wr uuid sid =
     send_cmd wr uuid sid \<lparr>cmd_action = ActionDeploy, cmd_slot = 0, cmd_cluster_token = []\<rparr>"

definition svc_init ::
    "wire \<Rightarrow> string \<Rightarrow> u64 \<Rightarrow> int \<Rightarrow> string \<Rightarrow> hub \<Rightarrow> (go_err + string) \<times> hub_event list \<times> hub"
where
  "svc_init wr uuid sid slot token =
     send_cmd wr uuid sid \<lparr>cmd_action = ActionInit, cmd_slot = slot, cmd_cluster_token = token\<rparr>"

definition svc_start ::
    "wire \<Rightarrow> string \<Rightarrow> u64 \<Rightarrow> int \<Rightarrow> hub \<Rightarrow> (go_err + string) \<times> hub_event list \<times> hub"
where
  "svc_start wr uuid sid slot =
     send_cmd wr uuid sid \<lparr>cmd_action = ActionStart, cmd_slot = slot, cmd_cluster_token = []\<rparr>"

definition svc_stop ::
    "wire \<Rightarrow> string \<Rightarrow> u64 \<Rightarrow> int \<Rightarrow> hub \<Rightarrow> (go_err + string) \<times> hub_event list \<times> hub"
where
  "svc_stop wr uuid sid slot =
     send_cmd wr uuid sid \<lparr>cmd_action = ActionStop, cmd_slot = slot, cmd_cluster_token = []\<rparr>"

definition svc_update ::
    "wire \<Rightarrow> string \<Rightarrow> u64 \<Rightarrow> hub \<Rightarrow> (go_err + string) \<times> hub_event list \<times> hub"
where
  "svc_update wr uuid sid =
     send_cmd wr uuid sid \<lparr>cmd_action = ActionUpdate, cmd_slot = 0, cmd_cluster_token = []\<rparr>"

definition svc_delete ::
    "wire \<Rightarrow> string \<Rightarrow> u64 \<Rightarrow> int \<Rightarrow> hub \<Rightarrow> (go_err + string) \<times> hub_event list \<times> hub"
where
  "svc_delete wr uuid sid slot =
     send_cmd wr uuid sid \<lparr>cmd_action = ActionDelete, cmd_slot = slot, cmd_cluster_token = []\<rparr>"

definition svc_status ::
    "wire \<Rightarrow> string \<Rightarrow> u64 \<Rightarrow> int \<Rightarrow> hub \<Rightarrow> (go_err + string) \<times> hub_event list \<times> hub"
where
  "svc_status wr uuid sid slot =
     send_cmd wr uuid sid \<lparr>cmd_action = ActionStatus, cmd_slot = slot, cmd_cluster_token = []\<rparr>"

definition svc_is_online :: "u64 \<Rightarrow> hub \<Rightarrow> bool" where
  "svc_is_online sid h = is_online sid h"

definition svc_online_count :: "hub \<Rightarrow> nat" where
  "svc_online_count h = count_online h"

section \<open>Handling answers\<close>

definition handle_ack ::
    "(u64 \<Rightarrow> string \<Rightarrow> 'h \<Rightarrow> bool \<times> 'h) \<Rightarrow> callbacks \<Rightarrow> u64 \<Rightarrow> string \<Rightarrow> ack \<Rightarrow> 'h \<Rightarrow> service_event list \<times> 'h"
where
  "handle_ack fin cb sid i a h =
     (if \<not> ack_accepted a then
        (case fin sid i h of
           (False, h') \<Rightarrow> ([], h')
         | (True, h') \<Rightarrow> (emit (cb_ack cb) (EvAck sid i a), h'))
      else (emit (cb_ack cb) (EvAck sid i a), h))"

definition handle_log :: "callbacks \<Rightarrow> u64 \<Rightarrow> string \<Rightarrow> log_line \<Rightarrow> 'h \<Rightarrow> service_event list \<times> 'h" where
  "handle_log cb sid i l h = (emit (cb_log cb) (EvLog sid i l), h)"

definition handle_result ::
    "(u64 \<Rightarrow> string \<Rightarrow> 'h \<Rightarrow> bool \<times> 'h) \<Rightarrow> callbacks \<Rightarrow> u64 \<Rightarrow> string \<Rightarrow> cmd_result \<Rightarrow> 'h
      \<Rightarrow> service_event list \<times> 'h"
where
  "handle_result fin cb sid i r h =
     (case fin sid i h of
        (False, h') \<Rightarrow> ([], h')
      | (True, h') \<Rightarrow> (emit (cb_result cb) (EvResult sid i r), h'))"

text \<open>An answer received from an agent, and a run of answers from any agents.\<close>

datatype inbound =
    InAck string ack
  | InLog string log_line
  | InResult string cmd_result

fun deliver ::
    "(u64 \<Rightarrow> string \<Rightarrow> 'h \<Rightarrow> bool \<times> 'h) \<Rightarrow> callbacks \<Rightarrow> u64 \<Rightarrow> inbound \<Rightarrow> 'h \<Rightarrow> service_event list \<times> 'h"
where
  "deliver fin cb sid (InAck i a) h = handle_ack fin cb sid i a h"
| "deliver fin cb sid (InLog i l) h = handle_log cb sid i l h"
| "deliver fin cb sid (InResult i r) h = handle_result fin cb sid i r h"

fun deliver_all ::
    "(u64 \<Rightarrow> string \<Rightarrow> 'h \<Rightarrow> bool \<times> 'h) \<Rightarrow> callbacks \<Rightarrow> (u64 \<times> inbound) list \<Rightarrow> 'h
      \<Rightarrow> service_event list \<times> 'h"
where
  "deliver_all fin cb [] h = ([], h)"
| "deliver_all fin cb ((sid, m) # ms) h =
     (case deliver fin cb sid m h of
        (evs, h') \<Rightarrow> (case deliver_all fin cb ms h' of (evs', h'') \<Rightarrow> (evs @ evs', h'')))"

text \<open>
  The callbacks that report the outcome of a command, and the answers that carry one: a
  result, or the refusal of the command.
\<close>

fun settles :: "u64 \<Rightarrow> string \<Rightarrow> service_event \<Rightarrow> bool" where
  "settles sid i (EvResult s j r) \<longleftrightarrow> s = sid \<and> j = i"
| "settles sid i (EvAck s j a) \<longleftrightarrow> s = sid \<and> j = i \<and> \<not> ack_accepted a"
| "settles sid i _ \<longleftrightarrow> False"

fun carries_outcome :: "u64 \<Rightarrow> string \<Rightarrow> u64 \<times> inbound \<Rightarrow> bool" where
  "carries_outcome sid i (s, InResult j r) \<longleftrightarrow> s = sid \<and> j = i"
| "carries_outcome sid i (s, InAck j a) \<longleftrightarrow> s = sid \<and> j = i \<and> \<not> ack_accepted a"
| "carries_outcome sid i (s, InLog j l) \<longleftrightarrow> False"

definition outcomes :: "u64 \<Rightarrow> string \<Rightarrow> service_event list \<Rightarrow> nat" where
  "outcomes sid i evs = length (filter (settles sid i) evs)"

lemma outcomes_simps [simp]:
  "outcomes sid i [] = 0"
  "outcomes sid i (xs @ ys) = outcomes sid i xs + outcomes sid i ys"
  by (simp_all add: outcomes_def)

lemma outcomes_emit [simp]:
  "outcomes sid i (emit on ev) = (if on \<and> settles sid i ev then 1 else 0)"
  by (simp add: outcomes_def emit_def)

lemmas handlers = handle_ack_def handle_log_def handle_result_def

text \<open>The hub changes through \<open>Finish\<close> only, so what \<open>Finish\<close> keeps the handlers keep.\<close>

lemma deliver_state:
  "snd (deliver fin cb sid m h) = h \<or> (\<exists>i. snd (deliver fin cb sid m h) = snd (fin sid i h))"
proof (cases m)
  case (InAck j a)
  then show ?thesis
    by (cases "fin sid j h") (auto simp: handlers split: bool.split intro!: exI [of _ j])
next
  case (InLog j l)
  then show ?thesis by (simp add: handlers)
next
  case (InResult j r)
  then show ?thesis
    by (cases "fin sid j h") (auto simp: handlers split: bool.split intro!: exI [of _ j])
qed

lemma deliver_all_snd_Cons [simp]:
  "snd (deliver_all fin cb ((sid, m) # ms) h) = snd (deliver_all fin cb ms (snd (deliver fin cb sid m h)))"
  by (simp split: prod.split)

lemma deliver_all_keeps:
  assumes "\<And>sid i h. P h \<Longrightarrow> P (snd (fin sid i h))"
  shows "P h \<Longrightarrow> P (snd (deliver_all fin cb ms h))"
proof (induction ms arbitrary: h)
  case (Cons p ms)
  obtain sid m where p: "p = (sid, m)" by fastforce
  have "P (snd (deliver fin cb sid m h))"
    using deliver_state [of fin cb sid m h] Cons.prems assms by metis
  then show ?case unfolding p deliver_all_snd_Cons by (rule Cons.IH)
qed simp

definition reports_outcomes :: "callbacks \<Rightarrow> bool" where
  "reports_outcomes cb \<longleftrightarrow> cb_ack cb \<and> cb_result cb"

context command_tracker
begin

text \<open>
  One answer: it settles the command it names if that is waiting, and no other; what was
  waiting stays so unless it was settled.
\<close>

lemma deliver_outcomes:
  assumes "wf h"
  shows "outcomes k i (fst (deliver finish cb sid m h)) \<le>
            (if carries_outcome k i (sid, m) \<and> waiting h k i then 1 else 0) \<and>
        (reports_outcomes cb \<longrightarrow>
           outcomes k i (fst (deliver finish cb sid m h)) =
           (if carries_outcome k i (sid, m) \<and> waiting h k i then 1 else 0)) \<and>
        (waiting (snd (deliver finish cb sid m h)) k i \<longleftrightarrow>
           waiting h k i \<and> \<not> carries_outcome k i (sid, m)) \<and>
        wf (snd (deliver finish cb sid m h))"
proof (cases m)
  case (InAck j a)
  show ?thesis
    by (rule finish_cases [OF assms, of sid j])
      (use assms in \<open>auto simp: InAck handlers reports_outcomes_def\<close>)
next
  case (InLog j l)
  with assms show ?thesis by (auto simp: handlers)
next
  case (InResult j r)
  show ?thesis
    by (rule finish_cases [OF assms, of sid j])
      (auto simp: InResult handlers reports_outcomes_def)
qed

text \<open>A whole run: a command is reported at most once, and exactly once if it was waiting
  and some answer carries its outcome.\<close>

lemma deliver_all_outcomes:
  "wf h \<Longrightarrow>
   outcomes k i (fst (deliver_all finish cb ms h)) \<le>
     (if waiting h k i \<and> (\<exists>m\<in>set ms. carries_outcome k i m) then 1 else 0) \<and>
   (reports_outcomes cb \<longrightarrow>
    outcomes k i (fst (deliver_all finish cb ms h)) =
     (if waiting h k i \<and> (\<exists>m\<in>set ms. carries_outcome k i m) then 1 else 0)) \<and>
   (waiting (snd (deliver_all finish cb ms h)) k i \<longleftrightarrow>
      waiting h k i \<and> \<not> (\<exists>m\<in>set ms. carries_outcome k i m))"
proof (induction ms arbitrary: h)
  case Nil
  then show ?case by simp
next
  case (Cons p ms)
  obtain sid m where p: "p = (sid, m)" by fastforce
  obtain evs h' where d: "deliver finish cb sid m h = (evs, h')" by fastforce
  note one = deliver_outcomes [OF Cons.prems, where k = k and i = i and cb = cb and sid = sid
      and m = m, unfolded d fst_conv snd_conv]
  then have "wf h'" by blast
  show ?case
    using Cons.IH [OF \<open>wf h'\<close>] one
    by (auto simp: p d split: prod.split if_splits)
qed

end

section \<open>Properties\<close>

text \<open>C20 The outcome of a command is reported at most once. For any sequence of answers (refusals, logs,
  results) from any agents in any order, the callbacks report the outcome of command i of server sid exactly
  once if it was pending and some answer from that server carries an outcome for that id, and not at all
  otherwise; afterwards it is still pending exactly when no such answer came.\<close>

theorem command_outcome_reported_once:
  assumes "hub_wf h" and "reports_outcomes cb"
  shows "outcomes sid i (fst (deliver_all finish cb ms h)) =
      (if waiting_on h sid i \<and> (\<exists>m\<in>set ms. carries_outcome sid i m) then 1 else 0) \<and>
    (waiting_on (snd (deliver_all finish cb ms h)) sid i \<longleftrightarrow>
      waiting_on h sid i \<and> \<not> (\<exists>m\<in>set ms. carries_outcome sid i m))"
  using hub_tracker.deliver_all_outcomes [OF assms(1)] assms(2) by blast

definition all_callbacks :: callbacks where
  "all_callbacks = \<lparr>cb_ack = True, cb_log = True, cb_result = True, cb_interrupted = True\<rparr>"

definition sample_answers :: "(u64 \<times> inbound) list" where
  "sample_answers =
     [(7, InAck ''x'' \<lparr>ack_accepted = True, ack_reason = []\<rparr>),
      (7, InLog ''x'' \<lparr>log_content = ''up''\<rparr>),
      (7, InResult ''x'' \<lparr>res_action = ActionStart, res_slot = 1, res_success = True, res_exit_code = 0,
            res_error = []\<rparr>),
      (7, InResult ''x'' \<lparr>res_action = ActionStart, res_slot = 1, res_success = False, res_exit_code = 1,
            res_error = ''late''\<rparr>)]"

theorem command_outcome_reported_once_witness:
  "outcomes 7 ''x'' (fst (deliver_all finish all_callbacks sample_answers sample_busy_hub)) = 1"
proof -
  have "reports_outcomes all_callbacks" by (simp add: reports_outcomes_def all_callbacks_def)
  moreover have "waiting_on sample_busy_hub 7 ''x''" by code_simp
  moreover have "\<exists>m\<in>set sample_answers. carries_outcome 7 ''x'' m" by code_simp
  ultimately show ?thesis
    using command_outcome_reported_once [OF sample_busy_hub_wf, of all_callbacks 7 "''x''" sample_answers]
    by simp
qed

end
