(* ===== verification/HubInterleaving.thy ===== *)
theory HubInterleaving
  imports AgentService
begin

text \<open>
  The hub under concurrency. The methods of hub.go release \<open>h.mu\<close> before they take the
  mutex of an agent object, so other goroutines may run in between: an object a \<open>Send\<close> is
  about to write to may have been replaced and closed. A configuration holds the hub, the
  critical sections that goroutines have still to run, and the history: which commands were
  written, which were finished by an answer, which were reported interrupted. Any goroutine
  may take the next step. Command ids are the values of \<open>uuid.NewString\<close> and are never
  handed out twice.
\<close>

section \<open>Configurations and steps\<close>

datatype crit_section =
    Closing u64 agent_ref
  | Sending u64 agent_ref envelope
  | Finishing agent_ref string

record config =
  g_hub :: hub
  g_sections :: "crit_section list"
  g_ids :: "string list"
  g_sent :: "(agent_ref \<times> string) list"
  g_finished :: "(agent_ref \<times> string) list"
  g_interrupted :: "(agent_ref \<times> string) list"

datatype action =
    ARegister u64 conn
  | AUnregister u64 conn
  | ADisconnect u64
  | ASend u64 envelope
  | AFinish u64 string
  | ARun wire nat

definition init_config :: config where
  "init_config =
     \<lparr>g_hub = new_service new_hub, g_sections = [], g_ids = [], g_sent = [], g_finished = [],
      g_interrupted = []\<rparr>"

fun interrupted_ids :: "hub_event list \<Rightarrow> string list" where
  "interrupted_ids [] = []"
| "interrupted_ids (Interrupted s i # evs) = i # interrupted_ids evs"
| "interrupted_ids (ConnClosed c # evs) = interrupted_ids evs"

definition closing :: "u64 \<Rightarrow> agent_ref option \<Rightarrow> crit_section list" where
  "closing sid old = (case old of None \<Rightarrow> [] | Some r \<Rightarrow> [Closing sid r])"

definition start_close :: "u64 \<Rightarrow> agent_ref option \<times> hub \<Rightarrow> config \<Rightarrow> config" where
  "start_close sid p g = g\<lparr>g_hub := snd p, g_sections := g_sections g @ closing sid (fst p)\<rparr>"

fun run_section :: "wire \<Rightarrow> crit_section \<Rightarrow> config \<Rightarrow> config" where
  "run_section wr (Closing sid r) g =
     (case close_agent sid r (g_hub g) of
        (evs, h) \<Rightarrow>
          g\<lparr>g_hub := h, g_interrupted := map (Pair r) (interrupted_ids evs) @ g_interrupted g\<rparr>)"
| "run_section wr (Sending sid r env) g =
     (case send_locked wr sid r env (g_hub g) of
        (None, evs, h) \<Rightarrow> g\<lparr>g_hub := h, g_sent := (r, env_id env) # g_sent g\<rparr>
      | (Some e, evs, h) \<Rightarrow> g\<lparr>g_hub := h\<rparr>)"
| "run_section wr (Finishing r i) g =
     (case finish_locked r i (g_hub g) of
        (True, h) \<Rightarrow> g\<lparr>g_hub := h, g_finished := (r, i) # g_finished g\<rparr>
      | (False, h) \<Rightarrow> g\<lparr>g_hub := h\<rparr>)"

definition drop_nth :: "nat \<Rightarrow> 'a list \<Rightarrow> 'a list" where
  "drop_nth n xs = take n xs @ drop (Suc n) xs"

fun exec :: "action \<Rightarrow> config \<Rightarrow> config option" where
  "exec (ARegister sid c) g = Some (start_close sid (register_lock sid c (g_hub g)) g)"
| "exec (AUnregister sid c) g = Some (start_close sid (unregister_lock sid c (g_hub g)) g)"
| "exec (ADisconnect sid) g = Some (start_close sid (disconnect_lock sid (g_hub g)) g)"
| "exec (ASend sid env) g =
     (if env_type env \<noteq> TypeCommand \<or> env_id env \<in> set (g_ids g) then None
      else case lookup_agent sid (g_hub g) of
             None \<Rightarrow> Some g
           | Some r \<Rightarrow>
               Some (g\<lparr>g_ids := env_id env # g_ids g, g_sections := g_sections g @ [Sending sid r env]\<rparr>))"
| "exec (AFinish sid i) g =
     (case lookup_agent sid (g_hub g) of
        None \<Rightarrow> Some g
      | Some r \<Rightarrow> Some (g\<lparr>g_sections := g_sections g @ [Finishing r i]\<rparr>))"
| "exec (ARun wr n) g =
     (if n < length (g_sections g)
      then Some (run_section wr (g_sections g ! n) (g\<lparr>g_sections := drop_nth n (g_sections g)\<rparr>))
      else None)"

inductive reachable :: "config \<Rightarrow> bool" where
  init: "reachable init_config"
| step: "reachable g \<Longrightarrow> exec a g = Some g' \<Longrightarrow> reachable g'"

section \<open>The invariant\<close>

text \<open>An object out of the map is closed or about to be; closing an object happens out of the map.\<close>

definition sections_ok :: "config \<Rightarrow> bool" where
  "sections_ok g \<longleftrightarrow>
     (\<forall>sid r. Closing sid r \<in> set (g_sections g) \<longrightarrow> r \<notin> refs_of (g_hub g)) \<and>
     (\<forall>r < h_next (g_hub g). r \<notin> refs_of (g_hub g) \<longrightarrow>
        ac_closed (h_heap (g_hub g) r) \<or> (\<exists>sid. Closing sid r \<in> set (g_sections g)))"

text \<open>Every object that is not yet allocated is untouched, and sections use allocated ones.\<close>

fun section_ref :: "crit_section \<Rightarrow> agent_ref" where
  "section_ref (Closing sid r) = r"
| "section_ref (Sending sid r env) = r"
| "section_ref (Finishing r i) = r"

definition refs_ok :: "config \<Rightarrow> bool" where
  "refs_ok g \<longleftrightarrow>
     (\<forall>s\<in>set (g_sections g). section_ref s < h_next (g_hub g)) \<and>
     (\<forall>r \<ge> h_next (g_hub g). ac_pending (h_heap (g_hub g) r) = [] \<and> (\<forall>i. (r, i) \<notin> set (g_sent g)))"

text \<open>The ids of commands being written or written are pairwise different and used up.\<close>

fun sending_id :: "crit_section \<Rightarrow> string list" where
  "sending_id (Sending sid r env) = [env_id env]"
| "sending_id _ = []"

definition live_ids :: "config \<Rightarrow> string list" where
  "live_ids g = concat (map sending_id (g_sections g)) @ map snd (g_sent g)"

definition ids_ok :: "config \<Rightarrow> bool" where
  "ids_ok g \<longleftrightarrow>
     distinct (live_ids g) \<and> set (live_ids g) \<subseteq> set (g_ids g) \<and>
     (\<forall>sid r env. Sending sid r env \<in> set (g_sections g) \<longrightarrow> env_type env = TypeCommand)"

text \<open>The balance: a written command is pending, finished or interrupted, once.\<close>

definition balanced :: "config \<Rightarrow> bool" where
  "balanced g \<longleftrightarrow>
     (\<forall>r i. count_list (g_sent g) (r, i) =
        count_list (g_finished g) (r, i) + count_list (g_interrupted g) (r, i) +
        (if i \<in> set (ac_pending (h_heap (g_hub g) r)) then 1 else 0))"

definition hub_inv :: "config \<Rightarrow> bool" where
  "hub_inv g \<longleftrightarrow> hub_wf (g_hub g) \<and> h_on_interrupted (g_hub g) \<and> sections_ok g \<and> refs_ok g \<and>
     ids_ok g \<and> balanced g"

lemmas inv_defs = hub_inv_def sections_ok_def refs_ok_def ids_ok_def balanced_def live_ids_def

lemma inv_init: "hub_inv init_config"
  by (simp add: inv_defs init_config_def new_service_def hub_wf_def new_hub_def refs_of_def
      agent_ok_def nil_agent_def)

lemma interrupted_ids_map [simp]: "interrupted_ids (map (Interrupted sid) is) = is"
  by (induction "is") auto

lemma refs_of_simps [simp]:
  "refs_of (set_agent r a h) = refs_of h"
  "refs_of (snd (close_agent sid r h)) = refs_of h"
  by (simp_all add: refs_of_def set_agent_def close_agent_def Let_def)

text \<open>Steps that take an object out of the map and schedule its closing.\<close>

lemma start_close_sections:
  assumes inv: "hub_inv g" and out: "\<And>r. old = Some r \<Longrightarrow> r \<in> refs_of (g_hub g) \<and> r \<notin> refs_of h"
    and refs: "refs_of h \<subseteq> refs_of (g_hub g) \<union> {r. h_next (g_hub g) \<le> r \<and> r < h_next h}"
    and gone: "\<And>r. r < h_next h \<Longrightarrow> r \<notin> refs_of h \<Longrightarrow>
                 r < h_next (g_hub g) \<and> (r \<notin> refs_of (g_hub g) \<or> old = Some r)"
    and heap: "\<And>r. r < h_next (g_hub g) \<Longrightarrow> h_heap h r = h_heap (g_hub g) r"
  shows "sections_ok (start_close sid (old, h) g)"
proof -
  have "r \<notin> refs_of h"
    if "Closing s r \<in> set (g_sections g) \<or> Closing s r \<in> set (closing sid old)" for s r
    using that
  proof
    assume "Closing s r \<in> set (g_sections g)"
    then have "r \<notin> refs_of (g_hub g)" and "section_ref (Closing s r) < h_next (g_hub g)"
      using inv unfolding hub_inv_def sections_ok_def refs_ok_def by blast+
    with refs show ?thesis by auto
  next
    assume "Closing s r \<in> set (closing sid old)"
    then show ?thesis using out by (auto simp: closing_def split: option.splits)
  qed
  moreover have "ac_closed (h_heap h r) \<or>
      (\<exists>s. Closing s r \<in> set (g_sections g) \<or> Closing s r \<in> set (closing sid old))"
    if r: "r < h_next h" "r \<notin> refs_of h" for r
  proof (cases "old = Some r")
    case True
    then show ?thesis by (auto simp: closing_def)
  next
    case False
    with gone [OF r] have "r < h_next (g_hub g)" "r \<notin> refs_of (g_hub g)" by blast+
    with inv heap [of r] show ?thesis unfolding hub_inv_def sections_ok_def by metis
  qed
  ultimately show ?thesis by (simp add: sections_ok_def start_close_def)
qed

lemma start_close_refs:
  assumes inv: "hub_inv g" and out: "\<And>r. old = Some r \<Longrightarrow> r \<in> refs_of (g_hub g)"
    and "next": "h_next (g_hub g) \<le> h_next h"
    and new: "\<And>r. h_next (g_hub g) \<le> r \<Longrightarrow> ac_pending (h_heap h r) = []"
  shows "refs_ok (start_close sid (old, h) g)"
  unfolding refs_ok_def
proof (intro conjI ballI allI impI)
  fix s assume "s \<in> set (g_sections (start_close sid (old, h) g))"
  then have "s \<in> set (g_sections g) \<or> (\<exists>r. old = Some r \<and> s = Closing sid r)"
    by (auto simp: start_close_def closing_def split: option.splits)
  moreover have "r < h_next (g_hub g)" if "r \<in> refs_of (g_hub g)" for r
    using inv that by (auto simp: hub_inv_def hub_wf_def)
  ultimately have "section_ref s < h_next (g_hub g)"
    using inv out by (auto simp: hub_inv_def refs_ok_def)
  with "next" show "section_ref s < h_next (g_hub (start_close sid (old, h) g))"
    by (simp add: start_close_def)
next
  fix r assume "h_next (g_hub (start_close sid (old, h) g)) \<le> r"
  with "next" have r: "h_next (g_hub g) \<le> r" by (simp add: start_close_def)
  then show "ac_pending (h_heap (g_hub (start_close sid (old, h) g)) r) = []"
    using new by (simp add: start_close_def)
  fix i show "(r, i) \<notin> set (g_sent (start_close sid (old, h) g))"
    using inv r by (simp add: hub_inv_def refs_ok_def start_close_def)
qed

lemma start_close_balanced:
  assumes inv: "hub_inv g" and heap: "\<And>r. r < h_next (g_hub g) \<Longrightarrow> h_heap h r = h_heap (g_hub g) r"
    and new: "\<And>r. h_next (g_hub g) \<le> r \<Longrightarrow> ac_pending (h_heap h r) = []"
  shows "balanced (start_close sid (old, h) g)"
proof -
  have "ac_pending (h_heap h r) = ac_pending (h_heap (g_hub g) r)" for r
  proof (cases "r < h_next (g_hub g)")
    case True
    then show ?thesis using heap by simp
  next
    case False
    with inv new [of r] show ?thesis by (simp add: inv_defs)
  qed
  with inv show ?thesis by (simp add: inv_defs start_close_def)
qed

lemma inv_start_close:
  assumes inv: "hub_inv g" and p: "p = (old, h)"
    and wf: "hub_wf h" and cb: "h_on_interrupted h = h_on_interrupted (g_hub g)"
    and out: "\<And>r. old = Some r \<Longrightarrow> r \<in> refs_of (g_hub g) \<and> r \<notin> refs_of h"
    and refs: "refs_of h \<subseteq> refs_of (g_hub g) \<union> {r. h_next (g_hub g) \<le> r \<and> r < h_next h}"
    and gone: "\<And>r. r < h_next h \<Longrightarrow> r \<notin> refs_of h \<Longrightarrow>
                 r < h_next (g_hub g) \<and> (r \<notin> refs_of (g_hub g) \<or> old = Some r)"
    and "next": "h_next (g_hub g) \<le> h_next h"
    and heap: "\<And>r. r < h_next (g_hub g) \<Longrightarrow> h_heap h r = h_heap (g_hub g) r"
    and new: "\<And>r. h_next (g_hub g) \<le> r \<Longrightarrow> ac_pending (h_heap h r) = []"
  shows "hub_inv (start_close sid p g)"
proof -
  have "ids_ok (start_close sid p g)"
    using inv by (auto simp: hub_inv_def ids_ok_def live_ids_def start_close_def p closing_def split: option.splits)
  then show ?thesis
    using inv wf cb start_close_sections [OF inv out refs gone heap] start_close_refs [OF inv _ "next" new] out
      start_close_balanced [OF inv heap new]
    by (simp add: hub_inv_def start_close_def p)
qed

lemma refs_of_iff: "distinct (map fst (h_conns h)) \<Longrightarrow> r \<in> refs_of h \<longleftrightarrow> (\<exists>t. lookup_agent t h = Some r)"
  by (force simp: lookup_agent_def refs_of_def)

lemma wf_refs_iff: "hub_wf h \<Longrightarrow> r \<in> refs_of h \<longleftrightarrow> (\<exists>t. lookup_agent t h = Some r)"
  by (simp add: refs_of_iff hub_wf_def)

lemma lookup_register_lock:
  "lookup_agent t (snd (register_lock sid c h)) = (if t = sid then Some (h_next h) else lookup_agent t h)"
  by (simp add: lookup_agent_def register_lock_def map_of_update_iff)

lemma refs_register_lock:
  assumes "hub_wf h"
  shows "r \<in> refs_of (snd (register_lock sid c h)) \<longleftrightarrow>
    r = h_next h \<or> r \<in> refs_of h \<and> lookup_agent sid h \<noteq> Some r"
proof -
  have "h_next h \<notin> refs_of h" using assms by (auto simp: hub_wf_def)
  with assms show ?thesis
    by (auto simp: wf_refs_iff hub_wf_register_lock lookup_register_lock split: if_splits
        dest: lookup_inject)
qed

lemma refs_delete:
  assumes "hub_wf h"
  shows "r \<in> refs_of (h\<lparr>h_conns := AList.delete sid (h_conns h)\<rparr>) \<longleftrightarrow>
    r \<in> refs_of h \<and> lookup_agent sid h \<noteq> Some r"
  using assms
  by (auto simp: wf_refs_iff hub_wf_delete lookup_delete split: if_splits dest: lookup_inject)

lemma inv_register: "hub_inv g \<Longrightarrow> hub_inv (start_close sid (register_lock sid c (g_hub g)) g)"
proof (rule inv_start_close [OF _ prod.collapse [symmetric]])
  assume inv: "hub_inv g"
  then have wf: "hub_wf (g_hub g)" by (simp add: hub_inv_def)
  show "hub_wf (snd (register_lock sid c (g_hub g)))" by (rule hub_wf_register_lock [OF wf])
  show "r \<in> refs_of (g_hub g) \<and> r \<notin> refs_of (snd (register_lock sid c (g_hub g)))"
    if "fst (register_lock sid c (g_hub g)) = Some r" for r
    using that register_old_not_ref [OF wf] by (simp add: register_lock_def refs_of_lookup)
  show "refs_of (snd (register_lock sid c (g_hub g))) \<subseteq> refs_of (g_hub g) \<union>
      {r. h_next (g_hub g) \<le> r \<and> r < h_next (snd (register_lock sid c (g_hub g)))}"
    by (auto simp: refs_register_lock [OF wf]) (simp_all add: register_lock_def)
  show "r < h_next (g_hub g) \<and> (r \<notin> refs_of (g_hub g) \<or> fst (register_lock sid c (g_hub g)) = Some r)"
    if "r < h_next (snd (register_lock sid c (g_hub g)))"
      "r \<notin> refs_of (snd (register_lock sid c (g_hub g)))" for r
    using that by (simp add: refs_register_lock [OF wf]) (auto simp: register_lock_def)
qed (auto simp: register_lock_def hub_inv_def refs_ok_def)

lemma inv_delete:
  assumes inv: "hub_inv g" and p: "p = (lookup_agent sid (g_hub g),
    (g_hub g)\<lparr>h_conns := AList.delete sid (h_conns (g_hub g))\<rparr>)"
  shows "hub_inv (start_close sid p g)"
proof -
  have wf: "hub_wf (g_hub g)" using inv by (simp add: hub_inv_def)
  show ?thesis
    by (rule inv_start_close [OF inv p])
      (use inv wf in \<open>auto simp: hub_wf_delete refs_delete refs_of_lookup hub_inv_def refs_ok_def\<close>)
qed

lemma inv_no_close: "hub_inv g \<Longrightarrow> hub_inv (start_close sid (None, g_hub g) g)"
  by (simp add: start_close_def closing_def)

lemma inv_unregister: "hub_inv g \<Longrightarrow> hub_inv (start_close sid (unregister_lock sid c (g_hub g)) g)"
  by (auto simp: unregister_lock_def split: option.split intro!: inv_no_close intro: inv_delete)

lemma inv_disconnect: "hub_inv g \<Longrightarrow> hub_inv (start_close sid (disconnect_lock sid (g_hub g)) g)"
  by (rule inv_delete) (simp_all add: disconnect_lock_def)

text \<open>Steps that start a send or a finish only add a section.\<close>

lemma inv_start_send:
  assumes inv: "hub_inv g" and "env_type env = TypeCommand" "env_id env \<notin> set (g_ids g)"
    and look: "lookup_agent sid (g_hub g) = Some r"
  shows "hub_inv (g\<lparr>g_ids := env_id env # g_ids g, g_sections := g_sections g @ [Sending sid r env]\<rparr>)"
proof -
  have "r < h_next (g_hub g)"
    using inv refs_of_lookup [OF look] by (auto simp: hub_inv_def hub_wf_def)
  with assms show ?thesis
    by (auto simp: inv_defs)
qed

lemma inv_start_finish:
  assumes inv: "hub_inv g" and look: "lookup_agent sid (g_hub g) = Some r"
  shows "hub_inv (g\<lparr>g_sections := g_sections g @ [Finishing r i]\<rparr>)"
proof -
  have "r < h_next (g_hub g)"
    using inv refs_of_lookup [OF look] by (auto simp: hub_inv_def hub_wf_def)
  with assms show ?thesis
    by (auto simp: inv_defs)
qed

text \<open>
  Running a section: it is removed, and the agent object it concerns changes. The three
  cases share the part of the invariant that does not depend on the histories.
\<close>

lemma inv_sections_ok:
  assumes "hub_inv g" and "g_sections g = xs @ s # ys"
    and "ac_closed a = (ac_closed (h_heap (g_hub g) r) \<or> (\<exists>sid. s = Closing sid r))"
    and "\<forall>sid t. s = Closing sid t \<longrightarrow> t = r"
  shows "sections_ok (g\<lparr>g_sections := xs @ ys, g_hub := set_agent r a (g_hub g)\<rparr>)"
  using assms unfolding hub_inv_def sections_ok_def
  by (auto simp: heap_set_agent) (auto simp: set_agent_def)

lemma inv_refs_ok:
  assumes "hub_inv g" and "g_sections g = xs @ s # ys" and "section_ref s = r"
  shows "(\<forall>t\<in>set (xs @ ys). section_ref t < h_next (set_agent r a (g_hub g))) \<and>
    (\<forall>q \<ge> h_next (set_agent r a (g_hub g)).
        ac_pending (h_heap (set_agent r a (g_hub g)) q) = [] \<and> q \<noteq> r \<and>
        (\<forall>i. (q, i) \<notin> set (g_sent g)))"
  using assms unfolding hub_inv_def refs_ok_def
  by (auto simp: heap_set_agent) (auto simp: set_agent_def)

lemma inv_pending_sent:
  assumes "hub_inv g" and "i \<in> set (ac_pending (h_heap (g_hub g) r))"
  shows "(r, i) \<in> set (g_sent g)"
proof -
  have "0 < count_list (g_sent g) (r, i)"
    using assms by (simp add: hub_inv_def balanced_def)
  then show ?thesis by (metis count_list_0_iff less_irrefl)
qed

lemma inv_heap: "hub_inv g \<Longrightarrow> agent_ok (h_heap (g_hub g) r)"
  by (simp add: hub_inv_def hub_wf_def)

lemma count_list_Pair: "count_list (map (Pair r) xs) (q, i) = (if q = r then count_list xs i else 0)"
  by (induction xs) auto

lemma set_agent_same: "set_agent r (h_heap h r) h = h"
  by (simp add: set_agent_def)

text \<open>A section that leaves the hub as it is may be dropped, unless it is to close an object.\<close>

lemma inv_drop_section:
  assumes "hub_inv g" and "g_sections g = xs @ s # ys" and "\<forall>sid t. s \<noteq> Closing sid t"
  shows "hub_inv (g\<lparr>g_sections := xs @ ys\<rparr>)"
proof -
  have "sections_ok (g\<lparr>g_sections := xs @ ys\<rparr>)"
    using inv_sections_ok [OF assms(1,2), of "h_heap (g_hub g) r" r for r] assms(3)
    by (simp add: set_agent_same)
  with assms show ?thesis by (auto simp: hub_inv_def refs_ok_def ids_ok_def balanced_def live_ids_def)
qed

lemma inv_run_closing:
  assumes inv: "hub_inv g" and sec: "g_sections g = xs @ Closing sid r # ys"
  shows "hub_inv (run_section wr (Closing sid r) (g\<lparr>g_sections := xs @ ys\<rparr>))"
proof -
  let ?a = "(h_heap (g_hub g) r)\<lparr>ac_closed := True, ac_pending := []\<rparr>"
  let ?g = "g\<lparr>g_sections := xs @ ys, g_hub := set_agent r ?a (g_hub g),
    g_interrupted := map (Pair r) (ac_pending (h_heap (g_hub g) r)) @ g_interrupted g\<rparr>"
  have run: "run_section wr (Closing sid r) (g\<lparr>g_sections := xs @ ys\<rparr>) = ?g"
    using inv by (simp add: close_agent_def Let_def set_agent_def hub_inv_def)
  have "r \<notin> refs_of (g_hub g)"
    using inv sec by (auto simp: hub_inv_def sections_ok_def)
  then have "hub_wf (set_agent r ?a (g_hub g))"
    using inv hub_wf_close [of "g_hub g" r sid] by (simp add: hub_inv_def close_agent_set)
  moreover have "sections_ok ?g"
    using inv_sections_ok [OF inv sec, of ?a r] by (simp add: sections_ok_def)
  moreover have "refs_ok ?g"
    using inv_refs_ok [OF inv sec, of r ?a] by (auto simp: refs_ok_def)
  moreover have "ids_ok ?g"
    using inv sec by (simp add: hub_inv_def ids_ok_def live_ids_def)
  moreover have "balanced ?g"
    using inv inv_heap [OF inv, of r]
    by (auto simp: hub_inv_def balanced_def heap_set_agent count_list_Pair distinct_count_list agent_ok_def)
  moreover have "h_on_interrupted (set_agent r ?a (g_hub g))"
    using inv by (simp add: hub_inv_def set_agent_def)
  ultimately show ?thesis unfolding run by (simp add: hub_inv_def)
qed

lemma inv_run_finishing:
  assumes inv: "hub_inv g" and sec: "g_sections g = xs @ Finishing r i # ys"
  shows "hub_inv (run_section wr (Finishing r i) (g\<lparr>g_sections := xs @ ys\<rparr>))"
proof (cases "i \<in> set (ac_pending (h_heap (g_hub g) r))")
  case False
  then show ?thesis
    using inv_drop_section [OF inv sec] by (simp add: finish_locked_def)
next
  case True
  let ?a = "(h_heap (g_hub g) r)\<lparr>ac_pending := removeAll i (ac_pending (h_heap (g_hub g) r))\<rparr>"
  let ?g = "g\<lparr>g_sections := xs @ ys, g_hub := set_agent r ?a (g_hub g),
    g_finished := (r, i) # g_finished g\<rparr>"
  have run: "run_section wr (Finishing r i) (g\<lparr>g_sections := xs @ ys\<rparr>) = ?g"
    using True by (simp add: finish_locked_def Let_def)
  have "hub_wf (set_agent r ?a (g_hub g))"
    using inv hub_wf_finish_locked [of "g_hub g" r i] True
    by (simp add: hub_inv_def finish_locked_def Let_def)
  moreover have "sections_ok ?g"
    using inv_sections_ok [OF inv sec, of ?a r] by (simp add: sections_ok_def)
  moreover have "refs_ok ?g"
    using inv_refs_ok [OF inv sec, of r ?a] by (auto simp: refs_ok_def)
  moreover have "ids_ok ?g"
    using inv sec by (simp add: hub_inv_def ids_ok_def live_ids_def)
  moreover have "balanced ?g"
    using inv True by (auto simp: hub_inv_def balanced_def heap_set_agent)
  moreover have "h_on_interrupted (set_agent r ?a (g_hub g))"
    using inv by (simp add: hub_inv_def set_agent_def)
  ultimately show ?thesis unfolding run by (simp add: hub_inv_def)
qed

text \<open>
  The id of a send that is about to run has not been used, so an error leaves the pending
  ids as they were.
\<close>

lemma inv_fresh_id:
  assumes inv: "hub_inv g" and sec: "g_sections g = xs @ Sending sid r env # ys"
  shows "env_id env \<notin> set (ac_pending (h_heap (g_hub g) q))"
proof
  assume "env_id env \<in> set (ac_pending (h_heap (g_hub g) q))"
  then have "env_id env \<in> snd ` set (g_sent g)"
    using inv_pending_sent [OF inv] by (force intro: rev_image_eqI)
  with inv sec show False by (simp add: hub_inv_def ids_ok_def live_ids_def)
qed

lemma send_locked_cases:
  assumes "env_type env = TypeCommand" and "env_id env \<notin> set (ac_pending (h_heap h r))"
  shows "(\<exists>e evs. send_locked wr sid r env h = (Some e, evs, h)) \<or>
    (\<exists>evs. \<not> ac_closed (h_heap h r) \<and>
       send_locked wr sid r env h =
         (None, evs, set_agent r ((h_heap h r)\<lparr>ac_pending := ac_pending (h_heap h r) @ [env_id env]\<rparr>) h))"
  using assms
  by (auto simp: send_locked_def Let_def add_pending_def set_agent_same split: option.split)

lemma inv_run_sending:
  assumes inv: "hub_inv g" and sec: "g_sections g = xs @ Sending sid r env # ys"
  shows "hub_inv (run_section wr (Sending sid r env) (g\<lparr>g_sections := xs @ ys\<rparr>))"
proof -
  have ids: "ids_ok g" using inv by (simp add: hub_inv_def)
  then have cmd: "env_type env = TypeCommand"
    unfolding ids_ok_def using sec by (metis in_set_conv_decomp)
  note fresh = inv_fresh_id [OF inv sec]
  consider (error) e evs where "send_locked wr sid r env (g_hub g) = (Some e, evs, g_hub g)"
    | (sent) evs where "\<not> ac_closed (h_heap (g_hub g) r)" and
        "send_locked wr sid r env (g_hub g) = (None, evs, set_agent r
          ((h_heap (g_hub g) r)\<lparr>ac_pending := ac_pending (h_heap (g_hub g) r) @ [env_id env]\<rparr>) (g_hub g))"
    using send_locked_cases [OF cmd fresh, of wr sid] by blast
  then show ?thesis
  proof cases
    case error
    with inv_drop_section [OF inv sec] show ?thesis by simp
  next
    case sent
    let ?a = "(h_heap (g_hub g) r)\<lparr>ac_pending := ac_pending (h_heap (g_hub g) r) @ [env_id env]\<rparr>"
    let ?g = "g\<lparr>g_sections := xs @ ys, g_hub := set_agent r ?a (g_hub g),
      g_sent := (r, env_id env) # g_sent g\<rparr>"
    have run: "run_section wr (Sending sid r env) (g\<lparr>g_sections := xs @ ys\<rparr>) = ?g"
      using sent by simp
    have "env_id env \<notin> snd ` set (g_sent g)"
      using ids sec by (simp add: ids_ok_def live_ids_def)
    then have unsent: "(q, env_id env) \<notin> set (g_sent g)" for q
      by (metis image_eqI snd_conv)
    have "agent_ok ?a"
      using inv_heap [OF inv, of r] fresh sent(1) by (simp add: agent_ok_def)
    then have "hub_wf (set_agent r ?a (g_hub g))"
      using inv sent(1) by (intro hub_wf_heap) (simp_all add: hub_inv_def)
    moreover have "sections_ok ?g"
      using inv_sections_ok [OF inv sec, of ?a r] by (simp add: sections_ok_def)
    moreover have "refs_ok ?g"
      using inv_refs_ok [OF inv sec, of r ?a] by (auto simp: refs_ok_def)
    moreover have "ids_ok ?g"
      using ids sec unfolding ids_ok_def live_ids_def by auto
    moreover have "balanced ?g"
      using inv fresh unsent
      by (auto simp: hub_inv_def balanced_def heap_set_agent count_notin)
    moreover have "h_on_interrupted (set_agent r ?a (g_hub g))"
      using inv by (simp add: hub_inv_def set_agent_def)
    ultimately show ?thesis unfolding run by (simp add: hub_inv_def)
  qed
qed

lemma inv_run:
  assumes inv: "hub_inv g" and n: "n < length (g_sections g)"
  shows "hub_inv (run_section wr (g_sections g ! n) (g\<lparr>g_sections := drop_nth n (g_sections g)\<rparr>))"
proof -
  have split: "g_sections g = take n (g_sections g) @ g_sections g ! n # drop (Suc n) (g_sections g)"
    using n by (rule id_take_nth_drop)
  show ?thesis
  proof (cases "g_sections g ! n")
    case (Closing sid r)
    with split inv_run_closing [OF inv] show ?thesis by (metis drop_nth_def)
  next
    case (Sending sid r env)
    with split inv_run_sending [OF inv] show ?thesis by (metis drop_nth_def)
  next
    case (Finishing r i)
    with split inv_run_finishing [OF inv] show ?thesis by (metis drop_nth_def)
  qed
qed

lemma inv_exec: "hub_inv g \<Longrightarrow> exec a g = Some g' \<Longrightarrow> hub_inv g'"
  by (cases a)
    (auto simp: inv_register inv_unregister inv_disconnect inv_start_send inv_start_finish inv_run
      split: option.splits if_splits)

lemma reachable_inv: "reachable g \<Longrightarrow> hub_inv g"
  by (induction rule: reachable.induct) (auto intro: inv_init inv_exec)

section \<open>Runs\<close>

fun exec_all :: "action list \<Rightarrow> config \<Rightarrow> config option" where
  "exec_all [] g = Some g"
| "exec_all (a # as) g = (case exec a g of None \<Rightarrow> None | Some g' \<Rightarrow> exec_all as g')"

lemma reachable_exec_all: "reachable g \<Longrightarrow> exec_all as g = Some g' \<Longrightarrow> reachable g'"
  by (induction as arbitrary: g) (auto split: option.splits intro: reachable.step)

text \<open>Let every goroutine finish its last critical section, oldest first.\<close>

fun drain :: "wire \<Rightarrow> nat \<Rightarrow> config \<Rightarrow> config option" where
  "drain wr 0 g = Some g"
| "drain wr (Suc n) g = (case exec (ARun wr 0) g of None \<Rightarrow> None | Some g' \<Rightarrow> drain wr n g')"

lemma sections_run_section [simp]: "g_sections (run_section wr s g) = g_sections g"
  by (cases s) (auto split: prod.split option.split bool.split)

lemma drain_ends:
  "length (g_sections g) = n \<Longrightarrow>
   \<exists>g'. drain wr n g = Some g' \<and> g_sections g' = [] \<and> (reachable g \<longrightarrow> reachable g')"
proof (induction n arbitrary: g)
  case (Suc n)
  let ?g = "run_section wr (g_sections g ! 0) (g\<lparr>g_sections := drop_nth 0 (g_sections g)\<rparr>)"
  have ex: "exec (ARun wr 0) g = Some ?g" using Suc.prems by simp
  have "length (g_sections ?g) = n" using Suc.prems by (simp add: drop_nth_def)
  from Suc.IH [OF this] obtain g' where
    "drain wr n ?g = Some g'" "g_sections g' = []" "reachable ?g \<longrightarrow> reachable g'" by blast
  with ex reachable.step [OF _ ex] show ?case by auto
qed simp

lemma settled_balance:
  assumes "reachable g" and "(r, i) \<in> set (g_sent g)"
  shows "count_list (g_finished g) (r, i) + count_list (g_interrupted g) (r, i) +
    (if i \<in> set (ac_pending (h_heap (g_hub g) r)) then 1 else 0) = 1"
proof -
  have inv: "hub_inv g" using assms(1) by (rule reachable_inv)
  then have "distinct (map snd (g_sent g))" by (simp add: hub_inv_def ids_ok_def live_ids_def)
  then have "count_list (g_sent g) (r, i) = 1"
    using assms(2) by (simp add: distinct_count_list distinct_map)
  with inv show ?thesis by (simp add: hub_inv_def balanced_def)
qed

text \<open>An object out of the map, with nobody left to close it, has nothing pending.\<close>

lemma out_of_map_settled:
  assumes "reachable g" and "g_sections g = []" and "r \<notin> refs_of (g_hub g)"
  shows "ac_pending (h_heap (g_hub g) r) = []"
proof (cases "r < h_next (g_hub g)")
  case True
  have inv: "hub_inv g" using assms(1) by (rule reachable_inv)
  with True assms have "ac_closed (h_heap (g_hub g) r)"
    by (auto simp: hub_inv_def sections_ok_def)
  with inv_heap [OF inv, of r] show ?thesis by (simp add: agent_ok_def)
next
  case False
  with assms reachable_inv show ?thesis by (auto simp: hub_inv_def refs_ok_def)
qed

section \<open>Properties\<close>

definition ok_wire :: wire where
  "ok_wire = \<lparr>wire_set_write_deadline = (\<lambda>_. None), wire_write_json = (\<lambda>_ _. None)\<rparr>"

definition sample_command :: "string \<Rightarrow> envelope" where
  "sample_command i = \<lparr>env_id = i, env_type = TypeCommand, env_payload = None\<rparr>"

text \<open>
  A run in which command a is finished by its answer, and the connection of server 1 is
  replaced while b is pending and the \<open>Send\<close> of c holds a pointer to the old agent object.
\<close>

definition sample_actions :: "action list" where
  "sample_actions =
     [ARegister 1 100, ASend 1 (sample_command ''a''), ASend 1 (sample_command ''b''),
      ARun ok_wire 0, ARun ok_wire 0, ASend 1 (sample_command ''c''), AFinish 1 ''a'',
      ARun ok_wire 1, ARegister 1 200]"

definition sample_config :: config where
  "sample_config = the (exec_all sample_actions init_config)"

lemma reachable_sample: "reachable sample_config"
proof (rule reachable_exec_all [OF reachable.init])
  have "exec_all sample_actions init_config \<noteq> None" by code_simp
  then show "exec_all sample_actions init_config = Some sample_config"
    by (auto simp: sample_config_def)
qed

text \<open>C6 At every moment of every interleaving of the hub's critical sections, a command that has been
  written to an agent is in exactly one of three states: still pending on the agent object it was written to,
  finished by an answer once, or reported interrupted once. It is never reported twice and never both
  finished and interrupted.\<close>

lemma command_settled_once:
  assumes "reachable g" and "(r, i) \<in> set (g_sent g)"
  shows "count_list (g_finished g) (r, i) + count_list (g_interrupted g) (r, i) +
    (if i \<in> set (ac_pending (h_heap (g_hub g) r)) then 1 else 0) = 1"
  by (rule settled_balance [OF assms])

lemma command_settled_once_witness:
  "count_list (g_finished sample_config) (0, ''b'') + count_list (g_interrupted sample_config) (0, ''b'') +
    (if ''b'' \<in> set (ac_pending (h_heap (g_hub sample_config) 0)) then 1 else 0) = 1"
proof (rule command_settled_once [OF reachable_sample])
  show "(0, ''b'') \<in> set (g_sent sample_config)" by code_simp
qed

text \<open>C21 No command is lost. From every reachable configuration the critical sections that goroutines have
  begun can all be run to their end, and then every written command whose agent object is no longer the
  current one of any server (it was replaced, unregistered or disconnected) has been reported exactly once,
  as finished or as interrupted.\<close>

lemma no_command_lost:
  assumes "reachable g"
  shows "\<exists>g'. drain wr (length (g_sections g)) g = Some g' \<and> g_sections g' = [] \<and>
    (\<forall>r i. (r, i) \<in> set (g_sent g') \<and> r \<notin> refs_of (g_hub g') \<longrightarrow>
       count_list (g_finished g') (r, i) + count_list (g_interrupted g') (r, i) = 1)"
proof -
  obtain g' where g': "drain wr (length (g_sections g)) g = Some g'" "g_sections g' = []" "reachable g'"
    using drain_ends assms by blast
  have "count_list (g_finished g') (r, i) + count_list (g_interrupted g') (r, i) = 1"
    if "(r, i) \<in> set (g_sent g')" "r \<notin> refs_of (g_hub g')" for r i
    using settled_balance [OF g'(3) that(1)] out_of_map_settled [OF g'(3,2) that(2)] by simp
  with g' show ?thesis by blast
qed

lemma no_command_lost_witness:
  "\<exists>g'. drain ok_wire (length (g_sections sample_config)) sample_config = Some g' \<and>
     count_list (g_finished g') (0, ''c'') + count_list (g_interrupted g') (0, ''c'') = 1"
proof -
  obtain g' where g': "drain ok_wire (length (g_sections sample_config)) sample_config = Some g'"
    and all: "\<forall>r i. (r, i) \<in> set (g_sent g') \<and> r \<notin> refs_of (g_hub g') \<longrightarrow>
       count_list (g_finished g') (r, i) + count_list (g_interrupted g') (r, i) = 1"
    using no_command_lost [OF reachable_sample] by blast
  have "(0, ''c'') \<in> set (g_sent (the (drain ok_wire (length (g_sections sample_config)) sample_config)))"
    by code_simp
  moreover have "0 \<notin> refs_of (g_hub (the (drain ok_wire (length (g_sections sample_config)) sample_config)))"
    by code_simp
  ultimately show ?thesis using g' all by simp
qed

end
