(* ===== verification/Result.thy ===== *)
theory Result
  imports GoBase
begin

text \<open>
  The uniform HTTP answer, \<open>src/internal/result/result.go\<close> and
  \<open>src/internal/apperr/biz_error.go\<close>: an HTTP status and a JSON body with code,
  message, data and the trace id of the request's context.
\<close>

record 'a response =
  rs_code :: int
  rs_msg :: msg
  rs_data :: "'a option"
  rs_trace_id :: string

text \<open>An answer is the status together with the body; \<open>None\<close> data is JSON \<open>null\<close>.\<close>

type_synonym 'a answer = "int \<times> 'a response"

definition new_biz_error :: "int \<Rightarrow> msg \<Rightarrow> go_err" where
  "new_biz_error code m = BizError code m"

definition json_response :: "string \<Rightarrow> int \<Rightarrow> int \<Rightarrow> msg \<Rightarrow> 'a option \<Rightarrow> 'a answer" where
  "json_response trace status code m data =
     (status, \<lparr>rs_code = code, rs_msg = m, rs_data = data, rs_trace_id = trace\<rparr>)"

definition success :: "string \<Rightarrow> 'a option \<Rightarrow> 'a answer" where
  "success trace data = json_response trace 200 200 (SysMsg M_success) data"

definition success_with_msg :: "string \<Rightarrow> msg \<Rightarrow> 'a option \<Rightarrow> 'a answer" where
  "success_with_msg trace m data = json_response trace 200 200 m data"

definition fail_with_msg :: "string \<Rightarrow> int \<Rightarrow> msg \<Rightarrow> 'a answer" where
  "fail_with_msg trace code m = json_response trace code code m None"

definition fail_answer :: "string \<Rightarrow> go_err \<Rightarrow> 'a answer" where
  "fail_answer trace e =
     (case errors_as_biz e of
        Some (code, m) \<Rightarrow> fail_with_msg trace code m
      | None \<Rightarrow> fail_with_msg trace 500 (SysMsg M_internal_error))"

lemmas answers = json_response_def success_def success_with_msg_def fail_with_msg_def fail_answer_def

lemma answer_code_is_status:
  "fst (fail_answer t e :: 'a answer) = rs_code (snd (fail_answer t e :: 'a answer))"
  by (simp add: answers split: option.split)

lemma fail_answer_biz [simp]: "fail_answer t (BizError c m) = fail_with_msg t c m"
  by (simp add: fail_answer_def)

end
