(* ===== verification/AgentHandler.thy ===== *)
theory AgentHandler
  imports AgentService Result
begin

text \<open>
  The websocket endpoint of the agents, \<open>src/internal/agent_manager/handler.go\<close>, and
  the authentication of an agent, \<open>src/internal/agent_manager/auth.go\<close>. The token parser
  and the server store are the interfaces the code is passed; the outcome of the websocket
  upgrade, of setting a deadline and of each read are inputs.
\<close>

section \<open>Authentication\<close>

record 'w agent_auth =
  aa_parse_agent_token :: "string \<Rightarrow> ('w, u64) go"
  aa_exists_by_id :: "u64 \<Rightarrow> ('w, bool) go"

definition check_server :: "'w agent_auth \<Rightarrow> u64 \<Rightarrow> ('w, unit) go" where
  "check_server a sid =
     call (aa_exists_by_id a sid)
       (\<lambda>_. fail (BizError 500 (AgentMsg M_agent_auth_unavailable)))
       (\<lambda>exists. if \<not> exists then fail (BizError 401 (AgentMsg M_agent_server_absent)) else ret ())"

definition agent_authenticate :: "'w agent_auth \<Rightarrow> string \<Rightarrow> ('w, u64) go" where
  "agent_authenticate a token =
     (if token = '''' then fail (BizError 401 (AgentMsg M_agent_token_empty))
      else
        call (aa_parse_agent_token a token)
          (\<lambda>_. fail (BizError 401 (AgentMsg M_agent_token_invalid)))
          (\<lambda>sid. call (check_server a sid) fail (\<lambda>_. ret sid)))"

section \<open>The bearer token\<close>

definition bearer_prefix :: string where
  "bearer_prefix = ''Bearer ''"

definition parse_bearer_token :: "string \<Rightarrow> go_err + string" where
  "parse_bearer_token authorization =
     (let a = trim_space authorization in
      if a = '''' then Inl (ErrorMsg (AgentMsg M_authorization_empty))
      else if \<not> has_prefix a bearer_prefix then Inl (ErrorMsg (AgentMsg M_authorization_malformed))
      else
        let token = trim_space (trim_prefix a bearer_prefix) in
        if token = '''' then Inl (ErrorMsg (AgentMsg M_agent_token_empty)) else Inr token)"

section \<open>The read loop\<close>

text \<open>
  What the connection yields: a read error, or a decoded JSON document together with what
  \<open>SetReadDeadline\<close> answers afterwards. The loop has stopped when it returned; it is
  still reading when the frames are used up.
\<close>

datatype frame =
    ReadFails go_err
  | Document json "go_err option"

fun read_loop ::
    "(u64 \<Rightarrow> string \<Rightarrow> 'h \<Rightarrow> bool \<times> 'h) \<Rightarrow> callbacks \<Rightarrow> u64 \<Rightarrow> frame list \<Rightarrow> 'h
      \<Rightarrow> bool \<times> service_event list \<times> 'h"
where
  "read_loop fin cb sid [] h = (False, [], h)"
| "read_loop fin cb sid (ReadFails e # fs) h = (True, [], h)"
| "read_loop fin cb sid (Document j deadline # fs) h =
     (case unmarshal_envelope j of
        Inl e \<Rightarrow> (True, [], h)
      | Inr env \<Rightarrow>
          (case deadline of
             Some e \<Rightarrow> (True, [], h)
           | None \<Rightarrow>
               (let continue = (\<lambda>(evs, h'). case read_loop fin cb sid fs h' of
                                  (stop, evs', h'') \<Rightarrow> (stop, evs @ evs', h''))
                in if env_type env = TypePing then continue ([], h)
                   else if env_type env = TypeAck then
                     (case unmarshal_raw unmarshal_ack (env_payload env) of
                        Inl e \<Rightarrow> (True, [], h)
                      | Inr a \<Rightarrow> continue (handle_ack fin cb sid (env_id env) a h))
                   else if env_type env = TypeLog then
                     (case unmarshal_raw unmarshal_log (env_payload env) of
                        Inl e \<Rightarrow> (True, [], h)
                      | Inr l \<Rightarrow> continue (handle_log cb sid (env_id env) l h))
                   else if env_type env = TypeResult then
                     (case unmarshal_raw unmarshal_result (env_payload env) of
                        Inl e \<Rightarrow> (True, [], h)
                      | Inr r \<Rightarrow> continue (handle_result fin cb sid (env_id env) r h))
                   else continue ([], h))))"

section \<open>The endpoint\<close>

datatype serve_event =
    HttpAnswer "unit answer"
  | PolicyClose conn
  | HubEvent hub_event
  | ServiceEvent service_event
  | HandlerClosesConn conn

text \<open>
  \<open>ServeWS\<close> run without interference: \<open>Inl\<close> of the events when it has returned (the
  deferred \<open>Unregister\<close> and \<open>Close\<close> included), \<open>Inr\<close> when it is still reading.
\<close>

definition serve_ws ::
    "'w agent_auth \<Rightarrow> callbacks \<Rightarrow> string \<Rightarrow> string \<Rightarrow> go_err + conn \<Rightarrow> go_err option \<Rightarrow> frame list
      \<Rightarrow> 'w \<times> hub \<Rightarrow> (serve_event list + serve_event list) \<times> 'w \<times> hub"
where
  "serve_ws a cb trace authorization upgrade deadline frames = (\<lambda>(w, h).
     case parse_bearer_token authorization of
       Inl e \<Rightarrow> (Inl [HttpAnswer (fail_with_msg trace 401 (AgentMsg M_unauthorized))], w, h)
     | Inr token \<Rightarrow>
         (case agent_authenticate a token w of
            (Inl e, w1) \<Rightarrow> (Inl [HttpAnswer (fail_answer trace e)], w1, h)
          | (Inr sid, w1) \<Rightarrow>
              (case upgrade of
                 Inl e \<Rightarrow> (Inl [], w1, h)
               | Inr c \<Rightarrow>
                   (case deadline of
                      Some e \<Rightarrow> (Inl [HandlerClosesConn c], w1, h)
                    | None \<Rightarrow>
                        (let (evs1, h1) = register sid c h;
                             leave = (\<lambda>evs w' h'. case unregister sid c h' of
                               (evs', h'') \<Rightarrow>
                                 (Inl (map HubEvent evs1 @ evs @ map HubEvent evs' @ [HandlerClosesConn c]),
                                  w', h''))
                         in case check_server a sid w1 of
                              (Inl e, w2) \<Rightarrow> leave [PolicyClose c] w2 h1
                            | (Inr _, w2) \<Rightarrow>
                                (case read_loop finish cb sid frames h1 of
                                   (True, evs2, h2) \<Rightarrow> leave (map ServiceEvent evs2) w2 h2
                                 | (False, evs2, h2) \<Rightarrow>
                                     (Inr (map HubEvent evs1 @ map ServiceEvent evs2), w2, h2)))))))"

section \<open>Lemmas\<close>

lemma strip_empty:
  "strip rs s = [] \<Longrightarrow> s \<noteq> [] \<Longrightarrow>
   (\<exists>r\<in>set rs. r \<noteq> [] \<and> starts_with r s) \<and> (\<exists>r\<in>set rs. \<exists>t. r \<noteq> [] \<and> s = t @ r)"
proof (induction rs s rule: strip.induct)
  case (1 rs s)
  show ?case
  proof (cases "find (\<lambda>r. r \<noteq> [] \<and> starts_with r s) rs")
    case None
    with "1.prems" show ?thesis by (subst (asm) strip.simps) simp
  next
    case (Some r)
    then have r: "r \<in> set rs" "r \<noteq> []" "starts_with r s"
      by (auto simp: find_Some_iff)
    have rest: "strip rs (drop (length r) s) = []"
      using "1.prems"(1) Some by (subst (asm) strip.simps) simp
    have s: "s = r @ drop (length r) s"
      using r(3) by (metis append_take_drop_id starts_with_def)
    show ?thesis
    proof (cases "drop (length r) s = []")
      case True
      with s r show ?thesis by (metis append_Nil append_Nil2)
    next
      case False
      from "1.IH" [OF Some rest False] obtain r' t
        where "r' \<in> set rs" "r' \<noteq> []" "drop (length r) s = t @ r'" by blast
      with s r show ?thesis by (metis append_assoc)
    qed
  qed
qed

lemma starts_with_append [simp]: "starts_with p (p @ s)"
  by (simp add: starts_with_def)

lemma trim_space_empty:
  assumes "trim_space s = []" and "s \<noteq> []"
  shows "\<not> space_free (map rev space_runes) (rev s)"
proof (cases "trim_left s = []")
  case True
  then obtain r t where "r \<in> set space_runes" "r \<noteq> []" "s = t @ r"
    using strip_empty [of space_runes s] assms(2) by (auto simp: trim_left_def)
  then show ?thesis by (auto simp: space_free_def intro!: bexI [of _ r])
next
  case False
  have "strip (map rev space_runes) (rev (trim_left s)) = []"
    using assms(1) by (simp add: trim_space_def trim_right_def)
  from strip_empty [OF this] False obtain r t
    where r: "r \<in> set space_runes" "r \<noteq> []" "rev (trim_left s) = t @ rev r" by auto
  then have "trim_left s = r @ rev t" by (metis rev_append rev_rev_ident)
  with r have "\<not> space_free space_runes (trim_left s)"
    by (auto simp: space_free_def)
  then show ?thesis by (simp add: trim_left_def strip_space_free)
qed

lemma space_free_rev_suffix:
  "space_free rs (rev (p @ s)) \<Longrightarrow> space_free rs (rev s)"
  by (auto dest: space_free_prefix)

text \<open>
  The authorization header has been trimmed when its prefix is cut off, so what remains is
  never blank: the last check of \<open>parseBearerToken\<close> cannot fail.
\<close>

lemma bearer_rest_not_blank:
  assumes "has_prefix (trim_space a) bearer_prefix"
  shows "trim_space (trim_prefix (trim_space a) bearer_prefix) \<noteq> []"
proof
  let ?t = "trim_space a" and ?r = "trim_prefix (trim_space a) bearer_prefix"
  assume blank: "trim_space ?r = []"
  have t: "?t = bearer_prefix @ ?r"
    using assms by (simp add: trim_prefix_def has_prefix_def starts_with_def)
      (metis append_take_drop_id)
  have "?r \<noteq> []"
  proof
    assume "?r = []"
    with t have "last ?t = CHR 0x20" and "?t \<noteq> []" by (simp_all add: bearer_prefix_def)
    then show False using trim_space_last_not_blank by blast
  qed
  with blank have "\<not> space_free (map rev space_runes) (rev ?r)" by (rule trim_space_empty)
  moreover have "space_free (map rev space_runes) (rev (bearer_prefix @ ?r))"
    using trim_space_back [of a] t by simp
  ultimately show False by (blast dest: space_free_rev_suffix)
qed

section \<open>The read loop as decoding followed by delivery\<close>

text \<open>The answers a sequence of frames carries, up to the frame that ends the loop.\<close>

fun decode_frames :: "frame list \<Rightarrow> bool \<times> inbound list" where
  "decode_frames [] = (False, [])"
| "decode_frames (ReadFails e # fs) = (True, [])"
| "decode_frames (Document j deadline # fs) =
     (let add = (\<lambda>m. (fst (decode_frames fs), m @ snd (decode_frames fs))) in
      case (unmarshal_envelope j, deadline) of
        (Inr env, None) \<Rightarrow>
          if env_type env = TypeAck then
            (case unmarshal_raw unmarshal_ack (env_payload env) of
               Inl _ \<Rightarrow> (True, []) | Inr a \<Rightarrow> add [InAck (env_id env) a])
          else if env_type env = TypeLog then
            (case unmarshal_raw unmarshal_log (env_payload env) of
               Inl _ \<Rightarrow> (True, []) | Inr l \<Rightarrow> add [InLog (env_id env) l])
          else if env_type env = TypeResult then
            (case unmarshal_raw unmarshal_result (env_payload env) of
               Inl _ \<Rightarrow> (True, []) | Inr r \<Rightarrow> add [InResult (env_id env) r])
          else add []
      | _ \<Rightarrow> (True, []))"

lemma read_loop_deliver:
  "read_loop fin cb sid fs h =
     (fst (decode_frames fs),
      fst (deliver_all fin cb (map (Pair sid) (snd (decode_frames fs))) h),
      snd (deliver_all fin cb (map (Pair sid) (snd (decode_frames fs))) h))"
proof (induction fs arbitrary: h rule: decode_frames.induct)
  case (3 j deadline fs)
  then show ?case
    by (simp add: message_types Let_def split: sum.split option.split prod.split)
qed simp_all

text \<open>Only the pending ids of agent objects change in the read loop.\<close>

definition same_conns :: "hub \<Rightarrow> hub \<Rightarrow> bool" where
  "same_conns h h' \<longleftrightarrow>
     h_conns h' = h_conns h \<and> (\<forall>r. ac_conn (h_heap h' r) = ac_conn (h_heap h r)) \<and>
     h_next h' = h_next h"

lemma same_conns_refl [simp]: "same_conns h h"
  by (simp add: same_conns_def)

lemma same_conns_trans: "same_conns h h' \<Longrightarrow> same_conns h' h'' \<Longrightarrow> same_conns h h''"
  by (simp add: same_conns_def)

lemma same_conns_finish: "same_conns h (snd (finish sid i h))"
  by (auto simp: same_conns_def finish_def finish_locked_def set_agent_def Let_def split: option.split)

lemma same_conns_deliver_all: "same_conns h (snd (deliver_all finish cb ms h))"
  by (rule deliver_all_keeps [where P = "same_conns h"])
    (auto intro: same_conns_trans same_conns_finish)

lemma hub_wf_deliver_all: "hub_wf h \<Longrightarrow> hub_wf (snd (deliver_all finish cb ms h))"
  by (rule deliver_all_keeps [where P = hub_wf]) (auto intro: hub_wf_finish)

section \<open>No registration outlives the handler\<close>

definition registered :: "conn \<Rightarrow> hub \<Rightarrow> bool" where
  "registered c h \<longleftrightarrow> (\<exists>r\<in>refs_of h. ac_conn (h_heap h r) = c)"

lemma registered_same_conns: "same_conns h h' \<Longrightarrow> registered c h' \<longleftrightarrow> registered c h"
  by (simp add: registered_def same_conns_def refs_of_def)

lemma lookup_same_conns: "same_conns h h' \<Longrightarrow> lookup_agent sid h' = lookup_agent sid h"
  by (simp add: lookup_agent_def same_conns_def)

lemma conn_close_agent [simp]: "ac_conn (h_heap (snd (close_agent sid r h)) t) = ac_conn (h_heap h t)"
  by (simp add: close_agent_set heap_set_agent)

lemma conns_close_agent [simp]: "h_conns (snd (close_agent sid r h)) = h_conns h"
  by (simp add: close_agent_set set_agent_def)

lemma register_state:
  "h_conns (snd (register sid c h)) = AList.update sid (h_next h) (h_conns h)"
  "ac_conn (h_heap (snd (register sid c h)) r) = (if r = h_next h then c else ac_conn (h_heap h r))"
  by (simp_all add: register_def close_old_def register_lock_def split: option.split)

text \<open>A new connection is registered under its server only.\<close>

lemma registered_register:
  assumes "hub_wf h" and "\<not> registered c h"
    and "lookup_agent t (snd (register sid c h)) = Some r"
    and "ac_conn (h_heap (snd (register sid c h)) r) = c"
  shows "t = sid"
proof (rule ccontr)
  assume "t \<noteq> sid"
  with assms(3) have l: "lookup_agent t h = Some r"
    by (simp add: lookup_agent_def register_state map_of_update_iff)
  then have "r \<in> refs_of h" by (rule refs_of_lookup)
  moreover from this have "r < h_next h" using assms(1) by (simp add: hub_wf_def)
  ultimately show False using assms(2,4) by (auto simp: registered_def register_state)
qed

text \<open>
  \<open>Unregister\<close> removes the connection, or leaves a hub in which the server's current
  connection is another one.
\<close>

lemma unregister_not_registered:
  assumes "hub_wf h" and only: "\<And>t r. lookup_agent t h = Some r \<Longrightarrow> ac_conn (h_heap h r) = c \<Longrightarrow> t = sid"
  shows "\<not> registered c (snd (unregister sid c h))"
proof
  assume "registered c (snd (unregister sid c h))"
  then obtain t r where t: "(t, r) \<in> set (h_conns (snd (unregister sid c h)))"
    and c: "ac_conn (h_heap (snd (unregister sid c h)) r) = c"
    by (auto simp: registered_def refs_of_def)
  have "distinct (map fst (h_conns (snd (unregister sid c h))))"
    using hub_wf_unregister [OF assms(1)] by (simp add: hub_wf_def)
  with t have l: "lookup_agent t (snd (unregister sid c h)) = Some r"
    by (simp add: lookup_agent_def)
  show False
    using l c only [of t r]
    by (auto simp: unregister_def close_old_def unregister_lock_def lookup_agent_def
        map_of_delete_iff split: option.splits if_splits)
qed

section \<open>Properties\<close>

text \<open>An authorization header yields an agent token exactly when, with the surrounding white space cut
  off, it begins with "Bearer " and more follows; the token is the rest with its white space cut off, it is
  never empty, and a header that is refused is refused as empty or as malformed: the third error of
  \<open>parseBearerToken\<close> (a token that is empty after trimming) cannot arise.\<close>

theorem parse_bearer_token_spec:
  "parse_bearer_token a =
     (if trim_space a = [] then Inl (ErrorMsg (AgentMsg M_authorization_empty))
      else if \<not> has_prefix (trim_space a) ''Bearer '' then Inl (ErrorMsg (AgentMsg M_authorization_malformed))
      else Inr (trim_space (drop 7 (trim_space a)))) \<and>
   (\<forall>t. parse_bearer_token a = Inr t \<longrightarrow> t \<noteq> [] \<and> trim_space t = t)"
  using bearer_rest_not_blank [of a]
  by (auto simp: parse_bearer_token_def Let_def bearer_prefix_def trim_prefix_def numeral_eq_Suc split: if_splits)

theorem parse_bearer_token_spec_witness:
  "parse_bearer_token ''Bearer x'' = Inr ''x'' \<and> ''x'' \<noteq> ''''"
proof -
  have "parse_bearer_token ''Bearer x'' = Inr ''x''" by code_simp
  with parse_bearer_token_spec [of "''Bearer x''"] show ?thesis by simp
qed

text \<open>An agent is let in exactly when its token is not empty, the token parser accepts it and the server
  it names exists; a token that is refused costs no database query, a missing server is answered 401 and a
  failing query 500, never the other way round.\<close>

theorem agent_authenticate_spec:
  "agent_authenticate a token w =
     (if token = [] then (Inl (BizError 401 (AgentMsg M_agent_token_empty)), w)
      else case aa_parse_agent_token a token w of
        (Inl e, w1) \<Rightarrow> (Inl (BizError 401 (AgentMsg M_agent_token_invalid)), w1)
      | (Inr sid, w1) \<Rightarrow>
          (case aa_exists_by_id a sid w1 of
             (Inl e, w2) \<Rightarrow> (Inl (BizError 500 (AgentMsg M_agent_auth_unavailable)), w2)
           | (Inr exists, w2) \<Rightarrow>
               (if exists then Inr sid else Inl (BizError 401 (AgentMsg M_agent_server_absent)), w2)))"
  by (auto simp: agent_authenticate_def check_server_def go_op call_def split: prod.split sum.split)

text \<open>The read loop refines a decoder followed by the delivery of what was decoded: the callbacks made
  and the final state are those of handling, in order, the answers the frames carry up to the first frame
  that does not decode, pings and unknown types skipped; and the loop returns exactly when such a frame, or a
  failing read or deadline, was met.\<close>

theorem read_loop_refines_delivery:
  "read_loop finish cb sid fs h =
     (fst (decode_frames fs), deliver_all finish cb (map (Pair sid) (snd (decode_frames fs))) h)"
  using read_loop_deliver [of finish cb sid fs h] by simp

lemma unregister_after_reads:
  assumes wf: "hub_wf h" and new: "\<not> registered c h" and same: "same_conns (snd (register sid c h)) h'"
    and wf': "hub_wf h'"
  shows "\<not> registered c (snd (unregister sid c h'))"
proof (rule unregister_not_registered [OF wf'])
  fix t r assume "lookup_agent t h' = Some r" "ac_conn (h_heap h' r) = c"
  with same lookup_same_conns [OF same] have "lookup_agent t (snd (register sid c h)) = Some r"
    "ac_conn (h_heap (snd (register sid c h)) r) = c"
    by (simp, simp add: same_conns_def)
  then show "t = sid" by (rule registered_register [OF wf new])
qed

definition after_reads :: "callbacks \<Rightarrow> u64 \<Rightarrow> conn \<Rightarrow> hub \<Rightarrow> hub \<Rightarrow> bool" where
  "after_reads cb sid c h h' \<longleftrightarrow> same_conns (snd (register sid c h)) h' \<and> hub_wf h'"

lemma after_reads_register: "hub_wf h \<Longrightarrow> after_reads cb sid c h (snd (register sid c h))"
  by (simp add: after_reads_def hub_wf_register)

lemma after_reads_loop:
  "after_reads cb sid c h h' \<Longrightarrow> read_loop finish cb sid fs h' = (b, evs, h'') \<Longrightarrow>
   after_reads cb sid c h h''"
  using same_conns_deliver_all [of h' cb "map (Pair sid) (snd (decode_frames fs))"]
    hub_wf_deliver_all [of h' cb "map (Pair sid) (snd (decode_frames fs))"]
  by (auto simp: after_reads_def read_loop_deliver intro: same_conns_trans)


definition sample_auth :: "unit agent_auth" where
  "sample_auth = \<lparr>aa_parse_agent_token = (\<lambda>t. ret 7), aa_exists_by_id = (\<lambda>i. ret True)\<rparr>"

definition sample_serve :: "(serve_event list + serve_event list) \<times> unit \<times> hub" where
  "sample_serve =
     serve_ws sample_auth all_callbacks [] ''Bearer x'' (Inr 71) None [ReadFails (LibError [])] ((), sample_hub)"


end
