(* ===== verification/Runtime.thy ===== *)
theory Runtime
  imports GoBase
begin

text \<open>
  What the program takes from the process it runs in: the clock (\<open>time.Now\<close>, in
  nanoseconds since 1970) and random identifiers (\<open>uuid.NewString\<close>). Both are a parameter,
  a record of functions of the world.
\<close>

record 'w runtime =
  rt_now :: "'w \<Rightarrow> int \<times> 'w"
  rt_uuid :: "'w \<Rightarrow> string \<times> 'w"

definition unix_milli :: "'w runtime \<Rightarrow> 'w \<Rightarrow> int \<times> 'w" where
  "unix_milli rt w = (case rt_now rt w of (ns, w') \<Rightarrow> (ns div 1000000, w'))"

text \<open>\<open>time.Duration\<close> is a number of nanoseconds; \<open>Milliseconds\<close> truncates toward zero.\<close>

definition milliseconds :: "int \<Rightarrow> int" where
  "milliseconds d = (if d < 0 then - (- d div 1000000) else d div 1000000)"

definition seconds :: "int \<Rightarrow> int" where
  "seconds n = n * 1000000000"

definition minutes :: "int \<Rightarrow> int" where
  "minutes n = n * 60000000000"

section \<open>Calls to external services\<close>

text \<open>
  A service (Redis, the database) has a state, a view \<open>V\<close> of the world, and commands on that state with a
  documented meaning. A call of the program is \<open>exact\<close> when it does just what the command does, and
  \<open>served\<close> when it does so or fails with an error of the connection, the command then executed or not.
  \<open>leaves\<close> says that a call does not touch a view.
\<close>

definition exact :: "('w \<Rightarrow> 's) \<Rightarrow> ('s, 'a) go \<Rightarrow> ('w, 'a) go \<Rightarrow> bool" where
  "exact V c f \<longleftrightarrow> (\<forall>w. fst (f w) = fst (c (V w)) \<and> V (snd (f w)) = snd (c (V w)))"

definition served :: "('w \<Rightarrow> 's) \<Rightarrow> ('s, 'a) go \<Rightarrow> ('w, 'a) go \<Rightarrow> bool" where
  "served V c f \<longleftrightarrow>
     (\<forall>w. fst (f w) = fst (c (V w)) \<and> V (snd (f w)) = snd (c (V w)) \<or>
          (\<exists>m. fst (f w) = Inl (LibError m)) \<and> (V (snd (f w)) = V w \<or> V (snd (f w)) = snd (c (V w))))"

definition leaves :: "('w \<Rightarrow> 'v) \<Rightarrow> ('w, 'a) go \<Rightarrow> bool" where
  "leaves V f \<longleftrightarrow> (\<forall>w. V (snd (f w)) = V w)"

lemma exact_self [simp]: "exact (\<lambda>s. s) c c"
  by (simp add: exact_def)

lemma exact_served: "exact V c f \<Longrightarrow> served V c f"
  by (simp add: exact_def served_def)

lemma exactD: "exact V c f \<Longrightarrow> f w = (r, w') \<Longrightarrow> c (V w) = (r, V w')"
  unfolding exact_def by (metis fst_conv prod.collapse snd_conv)

lemma leavesD: "leaves V f \<Longrightarrow> f w = (r, w') \<Longrightarrow> V w' = V w"
  unfolding leaves_def by (metis snd_conv)

text \<open>The cases of a call.\<close>

lemma served_cases:
  assumes "served V c f" and "f w = (r, w')"
  obtains (reply) "c (V w) = (r, V w')"
  | (lost) m where "r = Inl (LibError m)" "V w' = V w \<or> V w' = snd (c (V w))"
  using assms unfolding served_def
  by (metis fst_conv prod.collapse snd_conv)

text \<open>What a composed call leaves alone.\<close>

named_theorems leaves_intros "the views an operation leaves alone"

lemma leaves_ret [leaves_intros]: "leaves V (ret a)"
  by (simp add: leaves_def ret_def)

lemma leaves_fail [leaves_intros]: "leaves V (fail e)"
  by (simp add: leaves_def fail_def)

lemma leaves_call [leaves_intros]:
  assumes "leaves V m" and "\<And>e. leaves V (h e)" and "\<And>a. leaves V (k a)"
  shows "leaves V (call m h k)"
  unfolding leaves_def
proof
  fix w
  obtain r w' where m: "m w = (r, w')" by fastforce
  show "V (snd (call m h k w)) = V w"
    using assms m leavesD [OF assms(1) m] by (cases r) (simp_all add: leaves_def)
qed

lemma leaves_ignoring [leaves_intros]: "leaves V m \<Longrightarrow> leaves V k \<Longrightarrow> leaves V (ignoring m k)"
  by (simp add: leaves_def ignoring_def)

lemma leaves_if [leaves_intros]: "(b \<Longrightarrow> leaves V f) \<Longrightarrow> (\<not> b \<Longrightarrow> leaves V g) \<Longrightarrow> leaves V (if b then f else g)"
  by simp

lemma leaves_case_option [leaves_intros]:
  "leaves V f \<Longrightarrow> (\<And>a. leaves V (g a)) \<Longrightarrow> leaves V (case x of None \<Rightarrow> f | Some a \<Rightarrow> g a)"
  by (simp split: option.split)

lemma leaves_case_sum [leaves_intros]:
  "(\<And>a. leaves V (f a)) \<Longrightarrow> (\<And>a. leaves V (g a)) \<Longrightarrow> leaves V (case x of Inl a \<Rightarrow> f a | Inr a \<Rightarrow> g a)"
  by (simp split: sum.split)

lemma leaves_case_prod [leaves_intros]:
  "(\<And>a b. leaves V (f a b)) \<Longrightarrow> leaves V (case x of (a, b) \<Rightarrow> f a b)"
  by (simp split: prod.split)

end
