(* ===== verification/Redis.thy ===== *)
theory Redis
  imports GoStrings Runtime
begin

text \<open>
  The Redis server and its client as the program uses them. Neither is code of this repository,
  so both are a parameter: a record of the client methods and of the commands a Lua script may
  call, over the world. What the program relies on is the documented meaning of each command,
  stated on an abstract store (\<open>rstore\<close>: a clock and one keyspace of typed values with
  expiry) that is a view of the world; \<open>redis_law\<close> is the hypothesis that the record
  behaves like that. A client call may also fail, before or after the server has executed the
  command. \<open>ref_redis\<close>, the store operated on directly, shows that the hypothesis can hold.
\<close>

section \<open>The abstract store\<close>

text \<open>
  Sorted sets hold integer scores: the program's scores are times in milliseconds, which Lua
  and Redis represent exactly. The clock counts microseconds; expiry times are in milliseconds.
\<close>

datatype rval =
    RStr string
  | RHash "(string \<times> string) list"
  | RZSet "(string \<times> int) list"

type_synonym entry = "rval \<times> int option"

record rstore =
  rs_us :: int
  rs_data :: "string \<Rightarrow> entry option"

definition now_ms :: "rstore \<Rightarrow> int" where
  "now_ms s = rs_us s div 1000"

text \<open>A key whose expiry time has passed does not exist.\<close>

definition alive :: "rstore \<Rightarrow> entry \<Rightarrow> bool" where
  "alive s e = (case snd e of None \<Rightarrow> True | Some t \<Rightarrow> now_ms s \<le> t)"

definition live :: "rstore \<Rightarrow> string \<Rightarrow> entry option" where
  "live s k = (case rs_data s k of None \<Rightarrow> None | Some e \<Rightarrow> if alive s e then Some e else None)"

definition put :: "string \<Rightarrow> entry option \<Rightarrow> rstore \<Rightarrow> rstore" where
  "put k e s = s\<lparr>rs_data := (rs_data s)(k := e)\<rparr>"

definition wrong_type :: go_err where
  "wrong_type = LibError ''WRONGTYPE''"

definition not_integer :: go_err where
  "not_integer = LibError ''ERR hash value is not an integer''"

section \<open>The commands\<close>

type_synonym 'a cmd = "rstore \<Rightarrow> (go_err + 'a) \<times> rstore"

definition as_zset :: "entry option \<Rightarrow> go_err + (string \<times> int) list" where
  "as_zset e = (case e of None \<Rightarrow> Inr [] | Some (RZSet z, t) \<Rightarrow> Inr z | _ \<Rightarrow> Inl wrong_type)"

definition as_hash :: "entry option \<Rightarrow> go_err + (string \<times> string) list" where
  "as_hash e = (case e of None \<Rightarrow> Inr [] | Some (RHash h, t) \<Rightarrow> Inr h | _ \<Rightarrow> Inl wrong_type)"

definition ttl_of :: "entry option \<Rightarrow> int option" where
  "ttl_of e = (case e of None \<Rightarrow> None | Some (v, t) \<Rightarrow> t)"

text \<open>An empty sorted set or hash is a missing key.\<close>

definition put_zset :: "string \<Rightarrow> (string \<times> int) list \<Rightarrow> rstore \<Rightarrow> rstore" where
  "put_zset k z s = put k (if z = [] then None else Some (RZSet z, ttl_of (live s k))) s"

definition put_hash :: "string \<Rightarrow> (string \<times> string) list \<Rightarrow> rstore \<Rightarrow> rstore" where
  "put_hash k h s = put k (if h = [] then None else Some (RHash h, ttl_of (live s k))) s"

text \<open>The integer a hash field holds, in the canonical decimal form \<open>HINCRBY\<close> accepts.\<close>

definition read_int :: "string \<Rightarrow> int option" where
  "read_int s =
     (let v = (case s of [] \<Rightarrow> 0 | c # cs \<Rightarrow> if c = CHR ''-'' then - int (dec_value 0 cs) else int (dec_value 0 s))
      in if s = show_int v then Some v else None)"

text \<open>The same on integers, for evaluation.\<close>

fun read_dec :: "int \<Rightarrow> string \<Rightarrow> int" where
  "read_dec a [] = a"
| "read_dec a (c # cs) = read_dec (10 * a + int (digit_val c)) cs"

lemma dec_int_value: "int (dec_value a s) = read_dec (int a) s"
proof (induction s arbitrary: a)
  case (Cons c s)
  from Cons.IH [of "10 * a + digit_val c"] show ?case by simp
qed simp

lemma read_int_code [code]:
  "read_int s =
     (let v = (case s of [] \<Rightarrow> 0 | c # cs \<Rightarrow> if c = CHR ''-'' then - read_dec 0 cs else read_dec 0 s)
      in if s = show_int v then Some v else None)"
  unfolding read_int_def dec_int_value by (simp split: list.split)

datatype bound = AtMost int | Below int

fun within :: "bound \<Rightarrow> int \<Rightarrow> bool" where
  "within (AtMost b) x \<longleftrightarrow> x \<le> b"
| "within (Below b) x \<longleftrightarrow> x < b"

definition cmd_time :: "(int \<times> int) cmd" where
  "cmd_time s = (Inr (rs_us s div 1000000, rs_us s mod 1000000), s)"

definition cmd_hget :: "string \<Rightarrow> string \<Rightarrow> string option cmd" where
  "cmd_hget k f s = (case as_hash (live s k) of Inl e \<Rightarrow> (Inl e, s) | Inr h \<Rightarrow> (Inr (map_of h f), s))"

definition cmd_hset :: "string \<Rightarrow> (string \<times> string) list \<Rightarrow> unit cmd" where
  "cmd_hset k fs s =
     (case as_hash (live s k) of
        Inl e \<Rightarrow> (Inl e, s)
      | Inr h \<Rightarrow> (Inr (), put_hash k (fold (\<lambda>(f, v). AList.update f v) fs h) s))"

definition cmd_hincrby :: "string \<Rightarrow> string \<Rightarrow> int \<Rightarrow> int cmd" where
  "cmd_hincrby k f n s =
     (case as_hash (live s k) of
        Inl e \<Rightarrow> (Inl e, s)
      | Inr h \<Rightarrow>
          (case (case map_of h f of None \<Rightarrow> Some 0 | Some v \<Rightarrow> read_int v) of
             None \<Rightarrow> (Inl not_integer, s)
           | Some v \<Rightarrow> (Inr (v + n), put_hash k (AList.update f (show_int (v + n)) h) s)))"

definition cmd_pexpireat :: "string \<Rightarrow> int \<Rightarrow> unit cmd" where
  "cmd_pexpireat k t s =
     (case live s k of
        None \<Rightarrow> (Inr (), s)
      | Some (v, _) \<Rightarrow> (Inr (), put k (if t \<le> now_ms s then None else Some (v, Some t)) s))"

definition cmd_pexpire :: "string \<Rightarrow> int \<Rightarrow> unit cmd" where
  "cmd_pexpire k d s = cmd_pexpireat k (now_ms s + d) s"

definition cmd_expire :: "string \<Rightarrow> int \<Rightarrow> unit cmd" where
  "cmd_expire k d s = cmd_pexpireat k (now_ms s + 1000 * d) s"

definition cmd_del :: "string \<Rightarrow> unit cmd" where
  "cmd_del k s = (Inr (), put k None s)"

definition cmd_zremrangebyscore :: "string \<Rightarrow> bound \<Rightarrow> unit cmd" where
  "cmd_zremrangebyscore k b s =
     (case as_zset (live s k) of
        Inl e \<Rightarrow> (Inl e, s)
      | Inr z \<Rightarrow> (Inr (), put_zset k (filter (\<lambda>p. \<not> within b (snd p)) z) s))"

definition cmd_zcard :: "string \<Rightarrow> int cmd" where
  "cmd_zcard k s =
     (case as_zset (live s k) of Inl e \<Rightarrow> (Inl e, s) | Inr z \<Rightarrow> (Inr (int (length z)), s))"

definition cmd_zadd :: "string \<Rightarrow> int \<Rightarrow> string \<Rightarrow> unit cmd" where
  "cmd_zadd k score m s =
     (case as_zset (live s k) of
        Inl e \<Rightarrow> (Inl e, s)
      | Inr z \<Rightarrow> (Inr (), put_zset k (AList.update m score z) s))"

definition cmd_zrem :: "string \<Rightarrow> string \<Rightarrow> unit cmd" where
  "cmd_zrem k m s =
     (case as_zset (live s k) of
        Inl e \<Rightarrow> (Inl e, s)
      | Inr z \<Rightarrow> (Inr (), put_zset k (AList.delete m z) s))"

text \<open>
  The client's string commands. A duration is a number of nanoseconds; \<open>Set\<close> stores without
  expiry when it is not positive, and a positive duration of less than a millisecond counts as one.
\<close>

definition expiry :: "int \<Rightarrow> rstore \<Rightarrow> int option" where
  "expiry ttl s = (if ttl \<le> 0 then None else Some (now_ms s + max 1 (ttl div 1000000)))"

definition cmd_set :: "string \<Rightarrow> string \<Rightarrow> int \<Rightarrow> unit cmd" where
  "cmd_set k v ttl s = (Inr (), put k (Some (RStr v, expiry ttl s)) s)"

definition cmd_setnx :: "string \<Rightarrow> string \<Rightarrow> int \<Rightarrow> bool cmd" where
  "cmd_setnx k v ttl s =
     (if live s k = None then (Inr True, put k (Some (RStr v, expiry ttl s)) s) else (Inr False, s))"

definition cmd_get :: "string \<Rightarrow> string cmd" where
  "cmd_get k s =
     (case live s k of
        None \<Rightarrow> (Inl RedisNil, s)
      | Some (RStr v, _) \<Rightarrow> (Inr v, s)
      | Some _ \<Rightarrow> (Inl wrong_type, s))"

definition cmd_getdel :: "string \<Rightarrow> string cmd" where
  "cmd_getdel k s =
     (case cmd_get k s of (Inr v, s') \<Rightarrow> (Inr v, put k None s') | (Inl e, s') \<Rightarrow> (Inl e, s'))"

definition cmd_exists :: "string \<Rightarrow> int cmd" where
  "cmd_exists k s = (Inr (if live s k = None then 0 else 1), s)"

section \<open>The client\<close>

text \<open>
  \<open>rd_run\<close> is \<open>Script.Run\<close>: it takes the body of the script, a sequence of
  \<open>redis.call\<close>s on the fields \<open>lua_*\<close>, and the integer it returns is the reply.
\<close>

record 'w redis =
  rd_run :: "('w, int) go \<Rightarrow> ('w, int) go"
  rd_set :: "string \<Rightarrow> string \<Rightarrow> int \<Rightarrow> ('w, unit) go"
  rd_setnx :: "string \<Rightarrow> string \<Rightarrow> int \<Rightarrow> ('w, bool) go"
  rd_get :: "string \<Rightarrow> ('w, string) go"
  rd_getdel :: "string \<Rightarrow> ('w, string) go"
  rd_del :: "string \<Rightarrow> ('w, unit) go"
  rd_exists :: "string \<Rightarrow> ('w, int) go"
  lua_time :: "('w, int \<times> int) go"
  lua_hget :: "string \<Rightarrow> string \<Rightarrow> ('w, string option) go"
  lua_hset :: "string \<Rightarrow> (string \<times> string) list \<Rightarrow> ('w, unit) go"
  lua_hincrby :: "string \<Rightarrow> string \<Rightarrow> int \<Rightarrow> ('w, int) go"
  lua_pexpire :: "string \<Rightarrow> int \<Rightarrow> ('w, unit) go"
  lua_pexpireat :: "string \<Rightarrow> int \<Rightarrow> ('w, unit) go"
  lua_expire :: "string \<Rightarrow> int \<Rightarrow> ('w, unit) go"
  lua_del :: "string \<Rightarrow> ('w, unit) go"
  lua_zremrangebyscore :: "string \<Rightarrow> bound \<Rightarrow> ('w, unit) go"
  lua_zcard :: "string \<Rightarrow> ('w, int) go"
  lua_zadd :: "string \<Rightarrow> int \<Rightarrow> string \<Rightarrow> ('w, unit) go"
  lua_zrem :: "string \<Rightarrow> string \<Rightarrow> ('w, unit) go"

text \<open>
  Inside a script a command does what it is documented to do (\<open>exact\<close>). From the client it does so too,
  or the call fails (\<open>served\<close>).
\<close>

definition lua_law :: "'w redis \<Rightarrow> ('w \<Rightarrow> rstore) \<Rightarrow> bool" where
  "lua_law R V \<longleftrightarrow>
     exact V cmd_time (lua_time R) \<and>
     (\<forall>k f. exact V (cmd_hget k f) (lua_hget R k f)) \<and>
     (\<forall>k fs. exact V (cmd_hset k fs) (lua_hset R k fs)) \<and>
     (\<forall>k f n. exact V (cmd_hincrby k f n) (lua_hincrby R k f n)) \<and>
     (\<forall>k d. exact V (cmd_pexpire k d) (lua_pexpire R k d)) \<and>
     (\<forall>k t. exact V (cmd_pexpireat k t) (lua_pexpireat R k t)) \<and>
     (\<forall>k d. exact V (cmd_expire k d) (lua_expire R k d)) \<and>
     (\<forall>k. exact V (cmd_del k) (lua_del R k)) \<and>
     (\<forall>k b. exact V (cmd_zremrangebyscore k b) (lua_zremrangebyscore R k b)) \<and>
     (\<forall>k. exact V (cmd_zcard k) (lua_zcard R k)) \<and>
     (\<forall>k n m. exact V (cmd_zadd k n m) (lua_zadd R k n m)) \<and>
     (\<forall>k m. exact V (cmd_zrem k m) (lua_zrem R k m))"

definition client_law :: "'w redis \<Rightarrow> ('w \<Rightarrow> rstore) \<Rightarrow> bool" where
  "client_law R V \<longleftrightarrow>
     (\<forall>body c. exact V c body \<longrightarrow> served V c (rd_run R body)) \<and>
     (\<forall>k v ttl. served V (cmd_set k v ttl) (rd_set R k v ttl)) \<and>
     (\<forall>k v ttl. served V (cmd_setnx k v ttl) (rd_setnx R k v ttl)) \<and>
     (\<forall>k. served V (cmd_get k) (rd_get R k)) \<and>
     (\<forall>k. served V (cmd_getdel k) (rd_getdel R k)) \<and>
     (\<forall>k. served V (cmd_del k) (rd_del R k)) \<and>
     (\<forall>k. served V (cmd_exists k) (rd_exists R k))"

definition redis_law :: "'w redis \<Rightarrow> ('w \<Rightarrow> rstore) \<Rightarrow> bool" where
  "redis_law R V \<longleftrightarrow> lua_law R V \<and> client_law R V"

definition ref_redis :: "rstore redis" where
  "ref_redis =
     \<lparr>rd_run = id, rd_set = cmd_set, rd_setnx = cmd_setnx, rd_get = cmd_get, rd_getdel = cmd_getdel,
      rd_del = cmd_del, rd_exists = cmd_exists, lua_time = cmd_time, lua_hget = cmd_hget,
      lua_hset = cmd_hset, lua_hincrby = cmd_hincrby, lua_pexpire = cmd_pexpire,
      lua_pexpireat = cmd_pexpireat, lua_expire = cmd_expire, lua_del = cmd_del,
      lua_zremrangebyscore = cmd_zremrangebyscore, lua_zcard = cmd_zcard, lua_zadd = cmd_zadd,
      lua_zrem = cmd_zrem\<rparr>"

lemma ref_redis_simps [simp]:
  "rd_run ref_redis = id" "rd_set ref_redis = cmd_set" "rd_setnx ref_redis = cmd_setnx"
  "rd_get ref_redis = cmd_get" "rd_getdel ref_redis = cmd_getdel" "rd_del ref_redis = cmd_del"
  "rd_exists ref_redis = cmd_exists" "lua_time ref_redis = cmd_time" "lua_hget ref_redis = cmd_hget"
  "lua_hset ref_redis = cmd_hset" "lua_hincrby ref_redis = cmd_hincrby"
  "lua_pexpire ref_redis = cmd_pexpire" "lua_pexpireat ref_redis = cmd_pexpireat"
  "lua_expire ref_redis = cmd_expire" "lua_del ref_redis = cmd_del"
  "lua_zremrangebyscore ref_redis = cmd_zremrangebyscore" "lua_zcard ref_redis = cmd_zcard"
  "lua_zadd ref_redis = cmd_zadd" "lua_zrem ref_redis = cmd_zrem"
  by (simp_all add: ref_redis_def)

lemma ref_redis_law: "redis_law ref_redis (\<lambda>s. s)"
  by (simp add: redis_law_def lua_law_def client_law_def exact_served)

section \<open>Scripts\<close>

text \<open>
  A script body is checked against a body over the reference store, command by command.
\<close>

named_theorems script_intros "a script body does on the world what its reference does on the store"

lemma exact_ret [script_intros]: "exact V (ret a) (ret a)"
  by (simp add: exact_def ret_def)

lemma exact_fail [script_intros]: "exact V (fail e) (fail e)"
  by (simp add: exact_def fail_def)

lemma exact_call [script_intros]:
  assumes m: "exact V c f" and h: "\<And>e. exact V (ch e) (fh e)" and k: "\<And>a. exact V (ck a) (fk a)"
  shows "exact V (call c ch ck) (call f fh fk)"
proof -
  have "fst (call f fh fk w) = fst (call c ch ck (V w)) \<and>
      V (snd (call f fh fk w)) = snd (call c ch ck (V w))" for w
  proof -
    obtain r w' where f: "f w = (r, w')" by fastforce
    show ?thesis
    proof (cases r)
      case (Inl e)
      with f exactD [OF m f] h [of e] show ?thesis by (simp add: exact_def)
    next
      case (Inr a)
      with f exactD [OF m f] k [of a] show ?thesis by (simp add: exact_def)
    qed
  qed
  then show ?thesis by (simp add: exact_def)
qed

lemma exact_if [script_intros]:
  "(b \<Longrightarrow> exact V c f) \<Longrightarrow> (\<not> b \<Longrightarrow> exact V c' f') \<Longrightarrow>
   exact V (if b then c else c') (if b then f else f')"
  by simp

lemma exact_case_option [script_intros]:
  "exact V c f \<Longrightarrow> (\<And>a. exact V (ck a) (fk a)) \<Longrightarrow>
   exact V (case x of None \<Rightarrow> c | Some a \<Rightarrow> ck a) (case x of None \<Rightarrow> f | Some a \<Rightarrow> fk a)"
  by (simp split: option.split)

lemma exact_case_prod [script_intros]:
  "(\<And>a b. exact V (ck a b) (fk a b)) \<Longrightarrow> exact V (case p of (a, b) \<Rightarrow> ck a b) (case p of (a, b) \<Rightarrow> fk a b)"
  by (simp split: prod.split)

lemma lua_exact [script_intros]:
  assumes "redis_law R V"
  shows "exact V cmd_time (lua_time R)"
    and "exact V (cmd_hget k f) (lua_hget R k f)"
    and "exact V (cmd_hset k fs) (lua_hset R k fs)"
    and "exact V (cmd_hincrby k f n) (lua_hincrby R k f n)"
    and "exact V (cmd_pexpire k d) (lua_pexpire R k d)"
    and "exact V (cmd_pexpireat k d) (lua_pexpireat R k d)"
    and "exact V (cmd_expire k d) (lua_expire R k d)"
    and "exact V (cmd_del k) (lua_del R k)"
    and "exact V (cmd_zremrangebyscore k b) (lua_zremrangebyscore R k b)"
    and "exact V (cmd_zcard k) (lua_zcard R k)"
    and "exact V (cmd_zadd k n m) (lua_zadd R k n m)"
    and "exact V (cmd_zrem k m) (lua_zrem R k m)"
  using assms by (simp_all add: redis_law_def lua_law_def)

lemma run_served: "redis_law R V \<Longrightarrow> exact V c body \<Longrightarrow> served V c (rd_run R body)"
  by (simp add: redis_law_def client_law_def)

lemma client_served:
  assumes "redis_law R V"
  shows "served V (cmd_set k v ttl) (rd_set R k v ttl)"
    and "served V (cmd_setnx k v ttl) (rd_setnx R k v ttl)"
    and "served V (cmd_get k) (rd_get R k)"
    and "served V (cmd_getdel k) (rd_getdel R k)"
    and "served V (cmd_del k) (rd_del R k)"
    and "served V (cmd_exists k) (rd_exists R k)"
  using assms by (simp_all add: redis_law_def client_law_def)

section \<open>Facts on the store\<close>

lemma cmd_zset_simps:
  assumes "as_zset (live s k) = Inr z"
  shows "cmd_zremrangebyscore k b s = (Inr (), put_zset k (filter (\<lambda>p. \<not> within b (snd p)) z) s)"
    and "cmd_zcard k s = (Inr (int (length z)), s)"
    and "cmd_zadd k n m s = (Inr (), put_zset k (AList.update m n z) s)"
    and "cmd_zrem k m s = (Inr (), put_zset k (AList.delete m z) s)"
  using assms by (simp_all add: cmd_zremrangebyscore_def cmd_zcard_def cmd_zadd_def cmd_zrem_def)

lemma cmd_pexpireat_reply: "cmd_pexpireat k t s = (Inr (), snd (cmd_pexpireat k t s))"
  by (simp add: cmd_pexpireat_def split: option.split prod.split)

lemma live_put [simp]: "live (put k e s) k' = (if k' = k then (case e of None \<Rightarrow> None | Some x \<Rightarrow> if alive s x then Some x else None) else live s k')"
  by (simp add: live_def put_def alive_def now_ms_def split: option.split)

lemma now_put [simp]: "now_ms (put k e s) = now_ms s" and rs_us_put [simp]: "rs_us (put k e s) = rs_us s"
  by (simp_all add: now_ms_def put_def)

lemma alive_put [simp]: "alive (put k e s) x = alive s x"
  by (simp add: alive_def split: option.split)

lemma live_alive: "live s k = Some e \<Longrightarrow> alive s e"
  by (simp add: live_def split: option.splits if_splits)

lemma now_pexpireat [simp]: "now_ms (snd (cmd_pexpireat k t s)) = now_ms s"
  by (simp add: cmd_pexpireat_def split: option.split prod.split)

lemma live_pexpireat_other [simp]: "k' \<noteq> k \<Longrightarrow> live (snd (cmd_pexpireat k t s)) k' = live s k'"
  by (simp add: cmd_pexpireat_def split: option.split prod.split)

lemma alive_simps [simp]:
  "alive s (v, None)" "alive s (v, Some t) \<longleftrightarrow> now_ms s \<le> t"
  by (simp_all add: alive_def)

lemma now_put_zset [simp]: "now_ms (put_zset k z s) = now_ms s" "rs_us (put_zset k z s) = rs_us s"
  by (simp_all add: put_zset_def)

lemma now_put_hash [simp]: "now_ms (put_hash k z s) = now_ms s" "rs_us (put_hash k z s) = rs_us s"
  by (simp_all add: put_hash_def)

lemma ttl_alive: "alive s (v, ttl_of (live s k))"
  using live_alive [of s k] by (auto simp: ttl_of_def alive_def split: option.splits)

lemma live_put_zset [simp]:
  "live (put_zset k z s) k' =
     (if k' = k then if z = [] then None else Some (RZSet z, ttl_of (live s k)) else live s k')"
  by (simp add: put_zset_def ttl_alive)

lemma live_put_hash [simp]:
  "live (put_hash k h s) k' =
     (if k' = k then if h = [] then None else Some (RHash h, ttl_of (live s k)) else live s k')"
  by (simp add: put_hash_def ttl_alive)

lemma as_zset_put_zset [simp]: "as_zset (live (put_zset k z s) k) = Inr z"
  by (simp add: as_zset_def)

text \<open>A command in a sequence, when its reply is known.\<close>

lemmas cmd_zset_put [simp] = cmd_zset_simps [OF as_zset_put_zset]

lemma cmd_expire_reply:
  "cmd_expire k d s = (Inr (), snd (cmd_pexpireat k (now_ms s + 1000 * d) s))"
  "cmd_pexpire k d s = (Inr (), snd (cmd_pexpireat k (now_ms s + d) s))"
  by (simp_all add: cmd_expire_def cmd_pexpire_def flip: cmd_pexpireat_reply)

lemmas call_expire [simp] =
  call_Inr [OF cmd_expire_reply(1)] call_Inr [OF cmd_expire_reply(2)] call_Inr [OF cmd_pexpireat_reply]

lemma call_zset_put [simp]:
  "call (cmd_zremrangebyscore k b) h f (put_zset k z s) =
     f () (put_zset k (filter (\<lambda>p. \<not> within b (snd p)) z) (put_zset k z s))"
  "call (cmd_zcard k) h g (put_zset k z s) = g (int (length z)) (put_zset k z s)"
  "call (cmd_zadd k n m) h f (put_zset k z s) = f () (put_zset k (AList.update m n z) (put_zset k z s))"
  "call (cmd_zrem k m) h f (put_zset k z s) = f () (put_zset k (AList.delete m z) (put_zset k z s))"
  by (simp_all add: call_def)

text \<open>Time passes between two calls, and the entries are the same until they expire.\<close>

definition later :: "('w \<Rightarrow> rstore) \<Rightarrow> 'w \<Rightarrow> 'w \<Rightarrow> bool" where
  "later V w w' \<longleftrightarrow> rs_data (V w') = rs_data (V w) \<and> rs_us (V w) \<le> rs_us (V w')"

lemma read_show_int [simp]: "read_int (show_int n) = Some n"
proof -
  have digits: "show_nat m \<noteq> [] \<and> dec_value 0 (show_nat m) = m \<and> hd (show_nat m) \<noteq> CHR ''-''" for m
  proof -
    have d: "list_all is_digit (show_nat m)" "show_nat m \<noteq> []" "dec_value 0 (show_nat m) = m"
      using show_nat_digits by blast+
    then have "is_digit (hd (show_nat m))" by (cases "show_nat m") auto
    moreover have "\<not> is_digit (CHR ''-'')" by code_simp
    ultimately show ?thesis using d by metis
  qed
  show ?thesis
  proof (cases "n < 0")
    case True
    then show ?thesis using digits [of "nat (- n)"] by (simp add: read_int_def show_int_def Let_def)
  next
    case False
    then show ?thesis using digits [of "nat n"]
      by (cases "show_nat (nat n)") (auto simp: read_int_def show_int_def Let_def)
  qed
qed

end
