(* ===== verification/Window.thy ===== *)
theory Window
  imports Redis Runtime
begin

text \<open>
  Counting in a window, as the rate limiter and the four SMS quotas do it: the events of a key
  are the members of a sorted set, scored by their time; old members are removed, the rest
  counted, a new one added if there are few enough, and the key given an expiry time. The
  locale takes which scores a window keeps at a given time; its lemmas say that no admitted
  event that is still in the window is ever lost, so the count is a true upper bound.
\<close>

definition keeps_key :: "('w \<Rightarrow> rstore) \<Rightarrow> string \<Rightarrow> ('w \<Rightarrow> 'w) \<Rightarrow> bool" where
  "keeps_key V k env \<longleftrightarrow>
     (\<forall>w. now_ms (V w) \<le> now_ms (V (env w)) \<and>
          live (V (env w)) k =
            (case live (V w) k of None \<Rightarrow> None | Some e \<Rightarrow> if alive (V (env w)) e then Some e else None))"

lemma keeps_key_id: "keeps_key V k (\<lambda>w. w)"
  using live_alive by (fastforce simp: keeps_key_def split: option.split)

text \<open>Members of a sorted set that are admitted events, with distinct names, are at most as many.\<close>

lemma admitted_le_members:
  assumes "set A \<subseteq> set z" and "distinct (map fst A)"
  shows "length A \<le> length z"
proof -
  have "length A = card (set A)"
    using assms(2) by (metis distinct_card distinct_map)
  also have "\<dots> \<le> card (set z)" using assms(1) by (intro card_mono) simp_all
  also have "\<dots> \<le> length z" by (rule card_length)
  finally show ?thesis .
qed

locale event_window =
  fixes keep :: "int \<Rightarrow> int \<Rightarrow> bool"
  assumes keep_mono: "keep n' t \<Longrightarrow> n \<le> n' \<Longrightarrow> keep n t"
begin

text \<open>Every admitted event that is still in the window is in the sorted set, and the key will
  not expire before the event leaves the window.\<close>

definition covers :: "rstore \<Rightarrow> string \<Rightarrow> (string \<times> int) list \<Rightarrow> bool" where
  "covers s k A \<longleftrightarrow>
     (\<forall>m t. (m, t) \<in> set A \<longrightarrow> keep (now_ms s) t \<longrightarrow>
        (\<exists>z x. live s k = Some (RZSet z, Some x) \<and> (m, t) \<in> set z \<and> (\<forall>n. keep n t \<longrightarrow> n \<le> x)))"

lemma coversI:
  "(\<And>m t. (m, t) \<in> set A \<Longrightarrow> keep (now_ms s) t \<Longrightarrow>
     \<exists>z x. live s k = Some (RZSet z, Some x) \<and> (m, t) \<in> set z \<and> (\<forall>n. keep n t \<longrightarrow> n \<le> x)) \<Longrightarrow>
   covers s k A"
  by (simp add: covers_def)

lemma coversE:
  assumes "covers s k A" "(m, t) \<in> set A" "keep (now_ms s) t"
  obtains z x where "live s k = Some (RZSet z, Some x)" "(m, t) \<in> set z" "\<And>n. keep n t \<Longrightarrow> n \<le> x"
  using assms unfolding covers_def by blast

lemma covers_Nil [simp]: "covers s k []"
  by (simp add: covers_def)

lemma covers_subset: "covers s k A \<Longrightarrow> set B \<subseteq> set A \<Longrightarrow> covers s k B"
  unfolding covers_def by blast

lemma covers_cong: "live s' k = live s k \<Longrightarrow> now_ms s' = now_ms s \<Longrightarrow> covers s' k A = covers s k A"
  by (simp add: covers_def)

lemma covers_env:
  assumes "keeps_key V k env" and "covers (V w) k A"
  shows "covers (V (env w)) k A"
  unfolding covers_def
proof (intro allI impI)
  fix m t assume A: "(m, t) \<in> set A" and keep: "keep (now_ms (V (env w))) t"
  have le: "now_ms (V w) \<le> now_ms (V (env w))" and
    env: "live (V (env w)) k =
      (case live (V w) k of None \<Rightarrow> None | Some e \<Rightarrow> if alive (V (env w)) e then Some e else None)"
    using assms(1) unfolding keeps_key_def by blast+
  from keep le have "keep (now_ms (V w)) t" by (rule keep_mono)
  with A assms(2) obtain z x where
    "live (V w) k = Some (RZSet z, Some x)" "(m, t) \<in> set z" "\<forall>n. keep n t \<longrightarrow> n \<le> x"
    unfolding covers_def by blast
  with keep env show "\<exists>z x. live (V (env w)) k = Some (RZSet z, Some x) \<and> (m, t) \<in> set z \<and>
      (\<forall>n. keep n t \<longrightarrow> n \<le> x)"
    by simp
qed

text \<open>Removing what is not kept.\<close>

definition purged :: "rstore \<Rightarrow> (string \<times> int) list \<Rightarrow> (string \<times> int) list" where
  "purged s z = filter (\<lambda>p. keep (now_ms s) (snd p)) z"

lemma covers_purge:
  assumes "covers s k A" and "as_zset (live s k) = Inr z"
  shows "covers (put_zset k (purged s z) s) k A"
proof (rule coversI)
  fix m t assume "(m, t) \<in> set A" and "keep (now_ms (put_zset k (purged s z) s)) t"
  then have A: "(m, t) \<in> set A" and keep: "keep (now_ms s) t" by simp_all
  from coversE [OF assms(1) A keep] obtain z' x where
    z': "live s k = Some (RZSet z', Some x)" "(m, t) \<in> set z'" "\<And>n. keep n t \<Longrightarrow> n \<le> x" by blast
  with assms(2) keep have "(m, t) \<in> set (purged s z)" by (simp add: as_zset_def purged_def)
  moreover from this have "purged s z \<noteq> []" by auto
  ultimately show "\<exists>za x. live (put_zset k (purged s z) s) k = Some (RZSet za, Some x) \<and> (m, t) \<in> set za \<and>
      (\<forall>n. keep n t \<longrightarrow> n \<le> x)"
    using z' by (auto simp: ttl_of_def)
qed

lemma covers_other: "k' \<noteq> k \<Longrightarrow> covers (put_zset k z s) k' A = covers s k' A"
  by (intro covers_cong) simp_all

text \<open>A full window: the admitted events in it are at most as many as the members left.\<close>

lemma covers_count:
  assumes "covers s k A" and "as_zset (live s k) = Inr z" and "distinct (map fst A)"
  shows "length (filter (\<lambda>p. keep (now_ms s) (snd p)) A) \<le> length (purged s z)"
proof (rule admitted_le_members)
  show "set (filter (\<lambda>p. keep (now_ms s) (snd p)) A) \<subseteq> set (purged s z)"
  proof
    fix p assume "p \<in> set (filter (\<lambda>p. keep (now_ms s) (snd p)) A)"
    then have "(fst p, snd p) \<in> set A" and k: "keep (now_ms s) (snd p)" by simp_all
    with assms(1) obtain z' x where "live s k = Some (RZSet z', Some x)" "p \<in> set z'"
      unfolding covers_def by fastforce
    with assms(2) k show "p \<in> set (purged s z)" by (simp add: as_zset_def purged_def)
  qed
  show "distinct (map fst (filter (\<lambda>p. keep (now_ms s) (snd p)) A))"
    using assms(3) by (rule distinct_map_filter)
qed

text \<open>Adding an event and setting an expiry time that outlasts everything in the window.\<close>

lemma covers_add:
  assumes "covers s k A" and "as_zset (live s k) = Inr z" and "m \<notin> fst ` set A"
    and "now_ms s < x"
    and outlasts: "\<And>q n t. (q, t) \<in> set ((m, t0) # A) \<Longrightarrow> keep n t \<Longrightarrow> n \<le> x"
  shows "covers (snd (cmd_pexpireat k x (put_zset k (AList.update m t0 z) s))) k ((m, t0) # A)"
proof -
  let ?z = "AList.update m t0 z"
  have nonempty: "?z \<noteq> []" by simp
  have live: "live (snd (cmd_pexpireat k x (put_zset k ?z s))) k = Some (RZSet ?z, Some x)"
    and now: "now_ms (snd (cmd_pexpireat k x (put_zset k ?z s))) = now_ms s"
    using assms(4) nonempty by (simp_all add: cmd_pexpireat_def)
  have "(q, t) \<in> set ?z" if "(q, t) \<in> set A" "keep (now_ms s) t" for q t
  proof -
    from that assms(1) obtain z' y where "live s k = Some (RZSet z', Some y)" "(q, t) \<in> set z'"
      unfolding covers_def by blast
    with assms(2) have "(q, t) \<in> set z" by (simp add: as_zset_def)
    moreover have "q \<noteq> m" using that assms(3) by force
    ultimately show ?thesis by (induction z) (auto split: if_splits)
  qed
  moreover have "(m, t0) \<in> set ?z" by (induction z) auto
  ultimately show ?thesis
    using live now outlasts by (intro coversI) auto
qed

end

section \<open>A store that runs by itself\<close>

text \<open>For examples: the store at time 0, ids and a process clock that follow its clock, time that passes.\<close>

definition empty_store :: rstore where
  "empty_store = \<lparr>rs_us = 0, rs_data = (\<lambda>_. None)\<rparr>"

definition store_runtime :: "rstore runtime" where
  "store_runtime = \<lparr>rt_now = (\<lambda>s. (rs_us s * 1000, s)), rt_uuid = (\<lambda>s. ([char_of (now_ms s)], s))\<rparr>"

definition wait_us :: "int \<Rightarrow> rstore \<Rightarrow> rstore" where
  "wait_us us s = s\<lparr>rs_us := rs_us s + us\<rparr>"

lemma keeps_key_wait: "0 \<le> us \<Longrightarrow> keeps_key (\<lambda>s. s) k (wait_us us)"
proof -
  assume us: "0 \<le> us"
  have le: "now_ms s \<le> now_ms (wait_us us s)" for s
    using us by (simp add: now_ms_def wait_us_def zdiv_mono1)
  have data: "rs_data (wait_us us s) = rs_data s" for s by (simp add: wait_us_def)
  have "alive (wait_us us s) e \<Longrightarrow> alive s e" for s e
    using le [of s] by (auto simp: alive_def split: option.splits)
  with le show ?thesis
    by (auto simp: keeps_key_def live_def data split: option.split)
qed

end
