(* ===== verification/RateLimiter.thy ===== *)
theory RateLimiter
  imports Window
begin

text \<open>
  The request limiter, \<open>src/internal/platform/redis/limiter.go\<close>: a Lua script keeps the
  times of the admitted requests in a sorted set and admits a request when fewer than the limit
  are younger than the window. The times are the application's, the expiry of the key is
  Redis's.
\<close>

section \<open>Operations\<close>

text \<open>\<open>math.ceil(window / 1000)\<close>.\<close>

definition ceil_seconds :: "int \<Rightarrow> int" where
  "ceil_seconds ms = - (- ms div 1000)"

definition rate_limit_lua :: "'w redis \<Rightarrow> string \<Rightarrow> int \<Rightarrow> int \<Rightarrow> int \<Rightarrow> string \<Rightarrow> ('w, int) go" where
  "rate_limit_lua R key now window limit member =
     call (lua_zremrangebyscore R key (AtMost (now - window))) fail (\<lambda>_.
     call (lua_zcard R key) fail (\<lambda>current.
       if limit \<le> current then ret 0
       else
         call (lua_zadd R key now member) fail (\<lambda>_.
         call (lua_expire R key (ceil_seconds window)) fail (\<lambda>_. ret 1))))"

definition allow :: "'w redis \<Rightarrow> 'w runtime \<Rightarrow> string \<Rightarrow> int \<Rightarrow> int \<Rightarrow> ('w, bool) go" where
  "allow R rt key limit window =
     effect (unix_milli rt) (\<lambda>now.
     effect (rt_uuid rt) (\<lambda>member.
     call (rd_run R (rate_limit_lua R key now (milliseconds window) limit member)) fail
       (\<lambda>result. ret (result = 1))))"

section \<open>The script on the store\<close>

definition rate_keep :: "int \<Rightarrow> int \<Rightarrow> int \<Rightarrow> bool" where
  "rate_keep d n t \<longleftrightarrow> n < t + d"

interpretation rate_window: event_window "rate_keep d" for d
  by unfold_locales (simp add: rate_keep_def)

lemma rate_limit_lua_exact:
  "redis_law R V \<Longrightarrow>
   exact V (rate_limit_lua ref_redis k now win lim m) (rate_limit_lua R k now win lim m)"
  unfolding rate_limit_lua_def by (intro script_intros) (auto intro: script_intros)

text \<open>
  The script when the application's clock is \<open>d\<close> milliseconds behind the clock of Redis.
\<close>

lemma rate_limit_lua_eq:
  assumes now: "now + d = now_ms s" and z: "as_zset (live s k) = Inr z"
  shows "rate_limit_lua ref_redis k now win lim m s =
    (let p = rate_window.purged (d + win) s z; s1 = put_zset k p s in
     if lim \<le> int (length p) then (Inr 0, s1)
     else (Inr 1, snd (cmd_pexpireat k (now_ms s + 1000 * ceil_seconds win)
                         (put_zset k (AList.update m now p) s1))))"
proof -
  have p: "filter (\<lambda>p. \<not> snd p \<le> now - win) z = rate_window.purged (d + win) s z"
    unfolding rate_window.purged_def by (rule filter_cong) (auto simp: rate_keep_def now [symmetric])
  show ?thesis
    using z
    by (simp add: rate_limit_lua_def cmd_zset_simps p Let_def)
qed

lemma ceil_seconds_ge: "win \<le> 1000 * ceil_seconds win"
  using div_mult_mod_eq [of "- win" 1000] pos_mod_sign [of 1000 "- win"]
  by (simp add: ceil_seconds_def)

lemma rate_limit_lua_covers:
  assumes now: "now + d = now_ms s" and win: "0 < win"
    and A: "rate_window.covers (d + win) s k A" "distinct (map fst A)" "m \<notin> fst ` set A"
    and past: "\<forall>p\<in>set A. snd p \<le> now"
    and run: "rate_limit_lua ref_redis k now win lim m s = (r, s')"
  shows "rate_window.covers (d + win) s' k (if r = Inr 1 then (m, now) # A else A) \<and>
    now_ms s' = now_ms s \<and>
    (r = Inr 1 \<longrightarrow> int (length (filter (\<lambda>p. rate_keep (d + win) (now_ms s) (snd p)) A)) < lim)"
proof (cases "as_zset (live s k)")
  case (Inl e)
  with run A show ?thesis
    by (auto simp: rate_limit_lua_def cmd_zremrangebyscore_def call_def fail_def)
next
  case (Inr z)
  let ?p = "rate_window.purged (d + win) s z" and ?s1 = "put_zset k (rate_window.purged (d + win) s z) s"
  have s1: "rate_window.covers (d + win) ?s1 k A"
    using A(1) Inr by (rule rate_window.covers_purge)
  have len: "length (filter (\<lambda>p. rate_keep (d + win) (now_ms s) (snd p)) A) \<le> length ?p"
    using A(1) Inr A(2) by (rule rate_window.covers_count)
  show ?thesis
  proof (cases "lim \<le> int (length ?p)")
    case True
    with run s1 show ?thesis by (simp add: rate_limit_lua_eq [OF now Inr] Let_def split: if_splits) auto
  next
    case False
    have z1: "as_zset (live ?s1 k) = Inr ?p" by (simp add: as_zset_def)
    have "rate_window.covers (d + win)
        (snd (cmd_pexpireat k (now_ms s + 1000 * ceil_seconds win)
           (put_zset k (AList.update m now ?p) ?s1))) k ((m, now) # A)"
    proof (rule rate_window.covers_add [OF s1 z1 A(3)])
      show "now_ms ?s1 < now_ms s + 1000 * ceil_seconds win"
        using ceil_seconds_ge [of win] win by simp
      fix q n t assume "(q, t) \<in> set ((m, now) # A)" and keep: "rate_keep (d + win) n t"
      then have "t \<le> now" using past by auto
      with keep now ceil_seconds_ge [of win] show "n \<le> now_ms s + 1000 * ceil_seconds win"
        by (simp add: rate_keep_def)
    qed
    with False run len show ?thesis
      by (auto simp: rate_limit_lua_eq [OF now Inr] Let_def cmd_pexpireat_def split: option.split)
  qed
qed

section \<open>A sequence of requests\<close>

definition clock_law :: "'w runtime \<Rightarrow> ('w \<Rightarrow> rstore) \<Rightarrow> int \<Rightarrow> bool" where
  "clock_law rt V d \<longleftrightarrow>
     (\<forall>w. now_ms (V w) = fst (unix_milli rt w) + d \<and> V (snd (unix_milli rt w)) = V w \<and>
          V (snd (rt_uuid rt w)) = V w)"

text \<open>Each request is preceded by whatever else happens; its time, id and answer are recorded.\<close>

fun allow_run ::
    "'w redis \<Rightarrow> 'w runtime \<Rightarrow> string \<Rightarrow> int \<Rightarrow> int \<Rightarrow> ('w \<Rightarrow> 'w) list \<Rightarrow> 'w
      \<Rightarrow> (int \<times> string \<times> (go_err + bool)) list \<times> 'w"
where
  "allow_run R rt k lim window [] w = ([], w)"
| "allow_run R rt k lim window (env # envs) w =
     (let w0 = env w;
          now = fst (unix_milli rt w0);
          member = fst (rt_uuid rt (snd (unix_milli rt w0)));
          (r, w1) = allow R rt k lim window w0;
          (hs, w2) = allow_run R rt k lim window envs w1
      in ((now, member, r) # hs, w2))"

fun admitted :: "(int \<times> string \<times> (go_err + bool)) list \<Rightarrow> (string \<times> int) list" where
  "admitted [] = []"
| "admitted ((now, member, r) # hs) = (if r = Inr True then [(member, now)] else []) @ admitted hs"

lemma admitted_ids: "fst ` set (admitted hs) \<subseteq> set (map (\<lambda>(n, i, r). i) hs)"
  by (induction hs rule: admitted.induct) auto

lemma allow_step:
  assumes law: "redis_law R V" and clock: "clock_law rt V d" and win: "0 < milliseconds window"
    and A: "rate_window.covers (d + milliseconds window) (V w) k A" "distinct (map fst A)"
      "fst (rt_uuid rt (snd (unix_milli rt w))) \<notin> fst ` set A"
    and past: "\<forall>p\<in>set A. snd p + d \<le> now_ms (V w)"
    and run: "allow R rt k lim window w = (r, w')"
  defines "now \<equiv> fst (unix_milli rt w)" and "m \<equiv> fst (rt_uuid rt (snd (unix_milli rt w)))"
  shows "rate_window.covers (d + milliseconds window) (V w') k (if r = Inr True then (m, now) # A else A) \<and>
    now_ms (V w') = now_ms (V w) \<and>
    (r = Inr True \<longrightarrow> int (length (filter (\<lambda>p. now - milliseconds window < snd p) A)) < lim)"
proof -
  let ?win = "milliseconds window" and ?w2 = "snd (rt_uuid rt (snd (unix_milli rt w)))"
  have V2: "V ?w2 = V w" and now: "now + d = now_ms (V w)"
    using clock by (simp_all add: clock_law_def now_def)
  obtain r1 where r1: "rd_run R (rate_limit_lua R k now ?win lim m) ?w2 = (r1, w')"
    and r: "r = (case r1 of Inl e \<Rightarrow> Inl e | Inr n \<Rightarrow> Inr (n = 1))"
    using run by (auto simp: allow_def effect_def call_def fail_def ret_def now_def m_def
        split: prod.splits sum.splits)
  obtain rs s' where ref: "rate_limit_lua ref_redis k now ?win lim m (V w) = (rs, s')" by fastforce
  have past': "\<forall>p\<in>set A. snd p \<le> now" using past now by force
  have A3: "m \<notin> fst ` set A" using A(3) by (simp add: m_def)
  note script = rate_limit_lua_covers [OF now win A(1,2) A3 past' ref]
  then have sub: "rate_window.covers (d + ?win) s' k A"
    by (auto split: if_splits elim!: rate_window.covers_subset)
  have keep: "(\<lambda>p. rate_keep (d + ?win) (now_ms (V w)) (snd p)) = (\<lambda>p. now - ?win < snd p)"
    using now by (auto simp: rate_keep_def fun_eq_iff)
  from run_served [OF law rate_limit_lua_exact [OF law]] r1 show ?thesis
  proof (cases rule: served_cases)
    case reply
    with ref V2 have "rs = r1" "V w' = s'" by simp_all
    with script r show ?thesis by (cases r1) (simp_all add: keep)
  next
    case (lost msg)
    then have "V w' = V w \<or> V w' = s'" using ref V2 by simp
    with script sub A(1) r lost(1) show ?thesis by auto
  qed
qed

lemma allow_run_window:
  assumes law: "redis_law R V" and clock: "clock_law rt V d" and win: "0 < milliseconds window"
  shows "\<forall>env\<in>set envs. keeps_key V k env \<Longrightarrow>
    rate_window.covers (d + milliseconds window) (V w) k A \<Longrightarrow> distinct (map fst A) \<Longrightarrow>
    \<forall>p\<in>set A. snd p + d \<le> now_ms (V w) \<Longrightarrow>
    allow_run R rt k lim window envs w = (hs, w') \<Longrightarrow>
    distinct (map fst A @ map (\<lambda>(n, i, r). i) hs) \<Longrightarrow>
    i < length hs \<Longrightarrow> snd (snd (hs ! i)) = Inr True \<Longrightarrow>
    int (length (filter (\<lambda>p. fst (hs ! i) - milliseconds window < snd p)
      (A @ admitted (take (Suc i) hs)))) \<le> lim"
proof (induction envs arbitrary: w A hs i w')
  case (Cons env envs)
  let ?w0 = "env w"
  define now m where "now = fst (unix_milli rt ?w0)" and
    "m = fst (rt_uuid rt (snd (unix_milli rt ?w0)))"
  obtain r w1 where r: "allow R rt k lim window ?w0 = (r, w1)" by fastforce
  obtain hs1 w2 where hs1: "allow_run R rt k lim window envs w1 = (hs1, w2)" by fastforce
  have hs: "hs = (now, m, r) # hs1"
    using Cons.prems(5) by (auto simp: r hs1 now_def m_def Let_def)
  have env: "keeps_key V k env" and envs: "\<forall>e\<in>set envs. keeps_key V k e"
    using Cons.prems(1) by simp_all
  have le: "now_ms (V w) \<le> now_ms (V ?w0)" using env by (simp add: keeps_key_def)
  have now: "now + d = now_ms (V ?w0)" using clock by (simp add: clock_law_def now_def)
  have past: "\<forall>p\<in>set A. snd p + d \<le> now_ms (V ?w0)"
    using Cons.prems(4) le by fastforce
  have cov: "rate_window.covers (d + milliseconds window) (V ?w0) k A"
    by (rule rate_window.covers_env [OF env Cons.prems(2)])
  have fresh: "m \<notin> fst ` set A" using Cons.prems(6) by (auto simp: hs)
  note st = allow_step [OF law clock win cov Cons.prems(3) fresh [unfolded m_def] past r,
      folded now_def m_def]
  show ?case
  proof (cases i)
    case 0
    with st Cons.prems(8) win show ?thesis by (simp add: hs)
  next
    case (Suc j)
    define A' where "A' = (if r = Inr True then (m, now) # A else A)"
    have "int (length (filter (\<lambda>p. fst (hs1 ! j) - milliseconds window < snd p)
        (A' @ admitted (take (Suc j) hs1)))) \<le> lim"
    proof (rule Cons.IH [OF envs _ _ _ hs1])
      show "rate_window.covers (d + milliseconds window) (V w1) k A'" using st by (simp add: A'_def)
      show "distinct (map fst A')" using Cons.prems(3) fresh by (simp add: A'_def)
      show "\<forall>p\<in>set A'. snd p + d \<le> now_ms (V w1)"
        using st past now by (auto simp: A'_def)
      show "distinct (map fst A' @ map (\<lambda>(n, i, r). i) hs1)"
        using Cons.prems(6) by (auto simp: hs A'_def)
      show "j < length hs1" "snd (snd (hs1 ! j)) = Inr True"
        using Cons.prems(7,8) Suc by (simp_all add: hs)
    qed
    then show ?thesis by (cases "r = Inr True") (auto simp: hs Suc A'_def)
  qed
qed simp

section \<open>Properties\<close>


lemma ref_clock_law: "clock_law store_runtime (\<lambda>s. s) 0"
  by (simp add: clock_law_def store_runtime_def unix_milli_def now_ms_def)

definition sample_requests :: "(int \<times> string \<times> (go_err + bool)) list" where
  "sample_requests =
     fst (allow_run ref_redis store_runtime ''k'' 2 1500000000
       [wait_us 1000, wait_us 1000, wait_us 1000, wait_us 1500000]
       empty_store)"


end
