(* ===== verification/Entities.thy ===== *)
theory Entities
  imports GoStrings
begin

text \<open>
  The database entities, \<open>src/internal/model/entity\<close>: one record per struct, with the columns gorm derives
  from its fields, the defaults and the unique indexes of its tags. Times are nanoseconds; a \<open>[]string\<close> is
  \<open>None\<close> when it is nil.
\<close>

section \<open>Column values\<close>

datatype dbval = DNull | DUint u64 | DInt int | DText string | DStrings "string list" | DTime int

definition opt_text :: "string option \<Rightarrow> dbval" where
  "opt_text s = (case s of None \<Rightarrow> DNull | Some t \<Rightarrow> DText t)"

definition strings_val :: "string list option \<Rightarrow> dbval" where
  "strings_val s = (case s of None \<Rightarrow> DNull | Some t \<Rightarrow> DStrings t)"

definition opt_time :: "int option \<Rightarrow> dbval" where
  "opt_time s = (case s of None \<Rightarrow> DNull | Some t \<Rightarrow> DTime t)"

definition text_of :: "dbval \<Rightarrow> string \<Rightarrow> string" where
  "text_of v old = (case v of DText s \<Rightarrow> s | _ \<Rightarrow> old)"

definition int_of_val :: "dbval \<Rightarrow> int \<Rightarrow> int" where
  "int_of_val v old = (case v of DInt n \<Rightarrow> n | _ \<Rightarrow> old)"

definition uint_of :: "dbval \<Rightarrow> u64 \<Rightarrow> u64" where
  "uint_of v old = (case v of DUint n \<Rightarrow> n | _ \<Rightarrow> old)"

definition strings_of :: "dbval \<Rightarrow> string list option \<Rightarrow> string list option" where
  "strings_of v old = (case v of DStrings s \<Rightarrow> Some s | _ \<Rightarrow> old)"

lemma val_of_simps [simp]:
  "text_of (DText s) s' = s" "int_of_val (DInt n) n' = n" "uint_of (DUint u) u' = u"
  "strings_of (DStrings xs) l = Some xs"
  by (simp_all add: text_of_def int_of_val_def uint_of_def strings_of_def)

section \<open>Users\<close>

record user =
  us_id :: u64
  us_created_at :: int
  us_updated_at :: int
  us_username :: string
  us_password :: string
  us_phone :: string
  us_email :: "string option"
  us_role :: string
  us_status :: int
  us_token_version :: u64

definition user_column :: "user \<Rightarrow> string \<Rightarrow> dbval" where
  "user_column r c =
     (if c = ''id'' then DUint (us_id r)
      else if c = ''username'' then DText (us_username r)
      else if c = ''password'' then DText (us_password r)
      else if c = ''phone'' then DText (us_phone r)
      else if c = ''email'' then opt_text (us_email r)
      else if c = ''role'' then DText (us_role r)
      else if c = ''status'' then DInt (us_status r)
      else if c = ''token_version'' then DUint (us_token_version r)
      else if c = ''created_at'' then DTime (us_created_at r)
      else if c = ''updated_at'' then DTime (us_updated_at r)
      else DNull)"

definition user_set :: "string \<Rightarrow> dbval \<Rightarrow> user \<Rightarrow> user" where
  "user_set c v r =
     (if c = ''username'' then r\<lparr>us_username := text_of v (us_username r)\<rparr>
      else if c = ''password'' then r\<lparr>us_password := text_of v (us_password r)\<rparr>
      else if c = ''token_version'' then r\<lparr>us_token_version := uint_of v (us_token_version r)\<rparr>
      else r)"

section \<open>Servers\<close>

record server =
  sv_id :: u64
  sv_created_at :: int
  sv_updated_at :: int
  sv_name :: string
  sv_ip :: string
  sv_port :: int
  sv_username :: string
  sv_password :: string
  sv_cpu :: int
  sv_ram :: int
  sv_disk :: int
  sv_os_name :: string
  sv_game_env :: "string list option"
  sv_mods :: "string list option"
  sv_user_id :: u64

definition server_column :: "server \<Rightarrow> string \<Rightarrow> dbval" where
  "server_column r c =
     (if c = ''id'' then DUint (sv_id r)
      else if c = ''name'' then DText (sv_name r)
      else if c = ''ip'' then DText (sv_ip r)
      else if c = ''port'' then DInt (sv_port r)
      else if c = ''username'' then DText (sv_username r)
      else if c = ''password'' then DText (sv_password r)
      else if c = ''cpu'' then DInt (sv_cpu r)
      else if c = ''ram'' then DInt (sv_ram r)
      else if c = ''disk'' then DInt (sv_disk r)
      else if c = ''os_name'' then DText (sv_os_name r)
      else if c = ''game_env'' then strings_val (sv_game_env r)
      else if c = ''mods'' then strings_val (sv_mods r)
      else if c = ''user_id'' then DUint (sv_user_id r)
      else if c = ''created_at'' then DTime (sv_created_at r)
      else if c = ''updated_at'' then DTime (sv_updated_at r)
      else DNull)"

definition server_set :: "string \<Rightarrow> dbval \<Rightarrow> server \<Rightarrow> server" where
  "server_set c v r =
     (if c = ''name'' then r\<lparr>sv_name := text_of v (sv_name r)\<rparr>
      else if c = ''ip'' then r\<lparr>sv_ip := text_of v (sv_ip r)\<rparr>
      else if c = ''port'' then r\<lparr>sv_port := int_of_val v (sv_port r)\<rparr>
      else if c = ''username'' then r\<lparr>sv_username := text_of v (sv_username r)\<rparr>
      else if c = ''password'' then r\<lparr>sv_password := text_of v (sv_password r)\<rparr>
      else r)"

section \<open>Saved worlds\<close>

record dst =
  ds_id :: u64
  ds_created_at :: int
  ds_updated_at :: int
  ds_slot :: int
  ds_name :: string
  ds_description :: string
  ds_password :: string
  ds_max_players :: int
  ds_cluster_token :: string
  ds_status :: int
  ds_mods :: "string list option"
  ds_server_id :: u64
  ds_user_id :: u64

definition dst_column :: "dst \<Rightarrow> string \<Rightarrow> dbval" where
  "dst_column r c =
     (if c = ''id'' then DUint (ds_id r)
      else if c = ''slot'' then DInt (ds_slot r)
      else if c = ''name'' then DText (ds_name r)
      else if c = ''description'' then DText (ds_description r)
      else if c = ''password'' then DText (ds_password r)
      else if c = ''max_players'' then DInt (ds_max_players r)
      else if c = ''cluster_token'' then DText (ds_cluster_token r)
      else if c = ''status'' then DInt (ds_status r)
      else if c = ''mods'' then strings_val (ds_mods r)
      else if c = ''server_id'' then DUint (ds_server_id r)
      else if c = ''user_id'' then DUint (ds_user_id r)
      else if c = ''created_at'' then DTime (ds_created_at r)
      else if c = ''updated_at'' then DTime (ds_updated_at r)
      else DNull)"

definition dst_set :: "string \<Rightarrow> dbval \<Rightarrow> dst \<Rightarrow> dst" where
  "dst_set c v r =
     (if c = ''name'' then r\<lparr>ds_name := text_of v (ds_name r)\<rparr>
      else if c = ''description'' then r\<lparr>ds_description := text_of v (ds_description r)\<rparr>
      else if c = ''password'' then r\<lparr>ds_password := text_of v (ds_password r)\<rparr>
      else if c = ''max_players'' then r\<lparr>ds_max_players := int_of_val v (ds_max_players r)\<rparr>
      else if c = ''cluster_token'' then r\<lparr>ds_cluster_token := text_of v (ds_cluster_token r)\<rparr>
      else if c = ''mods'' then r\<lparr>ds_mods := strings_of v (ds_mods r)\<rparr>
      else r)"

section \<open>Tasks\<close>

record task =
  tk_id :: u64
  tk_created_at :: int
  tk_updated_at :: int
  tk_name :: string
  tk_type :: string
  tk_status :: string
  tk_stage :: string
  tk_resource_type :: string
  tk_resource_id :: u64
  tk_user_id :: u64
  tk_error_message :: string
  tk_started_at :: "int option"
  tk_finished_at :: "int option"

definition TaskTypeAgentDeploy :: string where "TaskTypeAgentDeploy = ''agent_deploy''"
definition TaskResourceServer :: string where "TaskResourceServer = ''server''"
definition TaskStatusPending :: string where "TaskStatusPending = ''pending''"
definition TaskStatusRunning :: string where "TaskStatusRunning = ''running''"
definition TaskStatusSucceeded :: string where "TaskStatusSucceeded = ''succeeded''"
definition TaskStatusFailed :: string where "TaskStatusFailed = ''failed''"

definition task_column :: "task \<Rightarrow> string \<Rightarrow> dbval" where
  "task_column r c =
     (if c = ''id'' then DUint (tk_id r)
      else if c = ''name'' then DText (tk_name r)
      else if c = ''type'' then DText (tk_type r)
      else if c = ''status'' then DText (tk_status r)
      else if c = ''stage'' then DText (tk_stage r)
      else if c = ''resource_type'' then DText (tk_resource_type r)
      else if c = ''resource_id'' then DUint (tk_resource_id r)
      else if c = ''user_id'' then DUint (tk_user_id r)
      else if c = ''error_message'' then DText (tk_error_message r)
      else if c = ''started_at'' then opt_time (tk_started_at r)
      else if c = ''finished_at'' then opt_time (tk_finished_at r)
      else if c = ''created_at'' then DTime (tk_created_at r)
      else if c = ''updated_at'' then DTime (tk_updated_at r)
      else DNull)"

section \<open>Schemas\<close>

text \<open>
  What gorm takes from a struct: its columns, how a row is given its id and times, the defaults that replace
  zero values, what of a row the columns keep (a JSON column keeps text as UTF-8), and the unique indexes.
\<close>

definition json_strings :: "string list option \<Rightarrow> string list option" where
  "json_strings xs = map_option (map utf8_coerce) xs"

record 'r schema =
  sc_column :: "'r \<Rightarrow> string \<Rightarrow> dbval"
  sc_set :: "string \<Rightarrow> dbval \<Rightarrow> 'r \<Rightarrow> 'r"
  sc_stamp :: "u64 \<Rightarrow> int \<Rightarrow> 'r \<Rightarrow> 'r"
  sc_touch :: "int \<Rightarrow> 'r \<Rightarrow> 'r"
  sc_default :: "'r \<Rightarrow> 'r"
  sc_stored :: "'r \<Rightarrow> 'r"
  sc_unique :: "string list list"

definition user_schema :: "user schema" where
  "user_schema =
     \<lparr>sc_column = user_column, sc_set = user_set,
      sc_stamp = (\<lambda>i t r. r\<lparr>us_id := i, us_created_at := t, us_updated_at := t\<rparr>),
      sc_touch = (\<lambda>t r. r\<lparr>us_updated_at := t\<rparr>),
      sc_default = (\<lambda>r. r\<lparr>us_role := if us_role r = [] then ''user'' else us_role r,
        us_status := if us_status r = 0 then 1 else us_status r,
        us_token_version := if us_token_version r = 0 then 1 else us_token_version r\<rparr>),
      sc_stored = id,
      sc_unique = [[''id''], [''username''], [''phone''], [''email'']]\<rparr>"

definition server_schema :: "server schema" where
  "server_schema =
     \<lparr>sc_column = server_column, sc_set = server_set,
      sc_stamp = (\<lambda>i t r. r\<lparr>sv_id := i, sv_created_at := t, sv_updated_at := t\<rparr>),
      sc_touch = (\<lambda>t r. r\<lparr>sv_updated_at := t\<rparr>),
      sc_default = (\<lambda>r. r\<lparr>sv_port := if sv_port r = 0 then 22 else sv_port r\<rparr>),
      sc_stored = (\<lambda>r. r\<lparr>sv_game_env := json_strings (sv_game_env r), sv_mods := json_strings (sv_mods r)\<rparr>),
      sc_unique = [[''id''], [''user_id'', ''ip'', ''port'']]\<rparr>"

definition dst_schema :: "dst schema" where
  "dst_schema =
     \<lparr>sc_column = dst_column, sc_set = dst_set,
      sc_stamp = (\<lambda>i t r. r\<lparr>ds_id := i, ds_created_at := t, ds_updated_at := t\<rparr>),
      sc_touch = (\<lambda>t r. r\<lparr>ds_updated_at := t\<rparr>),
      sc_default = (\<lambda>r. r\<lparr>ds_slot := if ds_slot r = 0 then 1 else ds_slot r,
        ds_max_players := if ds_max_players r = 0 then 6 else ds_max_players r\<rparr>),
      sc_stored = (\<lambda>r. r\<lparr>ds_mods := json_strings (ds_mods r)\<rparr>),
      sc_unique = [[''id''], [''slot'', ''server_id'']]\<rparr>"

definition task_schema :: "task schema" where
  "task_schema =
     \<lparr>sc_column = task_column, sc_set = (\<lambda>c v r. r),
      sc_stamp = (\<lambda>i t r. r\<lparr>tk_id := i, tk_created_at := t, tk_updated_at := t\<rparr>),
      sc_touch = (\<lambda>t r. r\<lparr>tk_updated_at := t\<rparr>),
      sc_default = (\<lambda>r. r\<lparr>tk_status := if tk_status r = [] then TaskStatusPending else tk_status r\<rparr>),
      sc_stored = id, sc_unique = [[''id'']]\<rparr>"

end
