(* ===== verification/Gorm.thy ===== *)
theory Gorm
  imports Entities Runtime
begin

text \<open>
  The database as the program uses it through gorm. Neither is code of this repository: the methods of a
  model are a parameter (\<open>model\<close>), and \<open>model_law\<close> states what is documented of them on an abstract
  database, four tables of rows in the order of their ids. How the server compares text (the collation) and
  whether an update counts the rows it matches or only those it changes are parameters too. A statement may
  also fail with an error of the connection, done or not. \<open>ref_model\<close>, the abstract database operated on
  directly, shows that the hypothesis can hold. \<open>src/internal/repository/transaction.go\<close> is at the end.
\<close>

section \<open>The abstract database\<close>

record 'r table =
  tb_rows :: "'r list"
  tb_next :: u64

record database =
  db_now :: int
  db_users :: "user table"
  db_servers :: "server table"
  db_dsts :: "dst table"
  db_tasks :: "task table"

text \<open>A model: its table in the database and its schema.\<close>

record 'r entity =
  en_get :: "database \<Rightarrow> 'r table"
  en_put :: "'r table \<Rightarrow> database \<Rightarrow> database"
  en_schema :: "'r schema"

definition users :: "user entity" where
  "users = \<lparr>en_get = db_users, en_put = (\<lambda>t d. d\<lparr>db_users := t\<rparr>), en_schema = user_schema\<rparr>"

definition servers :: "server entity" where
  "servers = \<lparr>en_get = db_servers, en_put = (\<lambda>t d. d\<lparr>db_servers := t\<rparr>), en_schema = server_schema\<rparr>"

definition dsts :: "dst entity" where
  "dsts = \<lparr>en_get = db_dsts, en_put = (\<lambda>t d. d\<lparr>db_dsts := t\<rparr>), en_schema = dst_schema\<rparr>"

definition tasks :: "task entity" where
  "tasks = \<lparr>en_get = db_tasks, en_put = (\<lambda>t d. d\<lparr>db_tasks := t\<rparr>), en_schema = task_schema\<rparr>"

definition rows :: "'r entity \<Rightarrow> database \<Rightarrow> 'r list" where
  "rows en d = tb_rows (en_get en d)"

definition put_rows :: "'r entity \<Rightarrow> 'r list \<Rightarrow> database \<Rightarrow> database" where
  "put_rows en rs d = en_put en ((en_get en d)\<lparr>tb_rows := rs\<rparr>) d"

section \<open>Conditions\<close>

text \<open>
  \<open>Where("a = ? AND b = ?", x, y)\<close> is the list \<open>[Eq a x, Eq b y]\<close>, and \<open>Where("NOT EXISTS (?)", q)\<close> with a
  query \<open>q\<close> on a table is \<open>NotExists\<close>.
\<close>

datatype cond = Eq string dbval | NotExists string "(string \<times> dbval) list"

record server_config =
  sq_text_eq :: "string \<Rightarrow> string \<Rightarrow> bool"
  sq_changed_only :: bool

fun sql_eq :: "server_config \<Rightarrow> dbval \<Rightarrow> dbval \<Rightarrow> bool" where
  "sql_eq q (DText a) (DText b) \<longleftrightarrow> sq_text_eq q a b"
| "sql_eq q DNull w \<longleftrightarrow> False"
| "sql_eq q v w \<longleftrightarrow> v = w"

definition matches_all :: "server_config \<Rightarrow> 'r entity \<Rightarrow> (string \<times> dbval) list \<Rightarrow> 'r \<Rightarrow> bool" where
  "matches_all q en cs r \<longleftrightarrow> list_all (\<lambda>(c, v). sql_eq q (sc_column (en_schema en) r c) v) cs"

definition row_exists :: "server_config \<Rightarrow> database \<Rightarrow> string \<Rightarrow> (string \<times> dbval) list \<Rightarrow> bool" where
  "row_exists q d table cs \<longleftrightarrow>
     (if table = ''users'' then list_ex (matches_all q users cs) (rows users d)
      else if table = ''server'' then list_ex (matches_all q servers cs) (rows servers d)
      else if table = ''dst'' then list_ex (matches_all q dsts cs) (rows dsts d)
      else if table = ''task'' then list_ex (matches_all q tasks cs) (rows tasks d)
      else False)"

fun holds :: "server_config \<Rightarrow> database \<Rightarrow> 'r entity \<Rightarrow> 'r \<Rightarrow> cond \<Rightarrow> bool" where
  "holds q d en r (Eq c v) \<longleftrightarrow> sql_eq q (sc_column (en_schema en) r c) v"
| "holds q d en r (NotExists table cs) \<longleftrightarrow> \<not> row_exists q d table cs"

definition matching :: "server_config \<Rightarrow> database \<Rightarrow> 'r entity \<Rightarrow> cond list \<Rightarrow> 'r \<Rightarrow> bool" where
  "matching q d en cs r \<longleftrightarrow> list_all (holds q d en r) cs"

text \<open>A unique index: no two rows agree in its columns.\<close>

definition clash :: "server_config \<Rightarrow> 'r entity \<Rightarrow> 'r \<Rightarrow> 'r \<Rightarrow> bool" where
  "clash q en r r' \<longleftrightarrow>
     list_ex (list_all (\<lambda>c. sql_eq q (sc_column (en_schema en) r c) (sc_column (en_schema en) r' c)))
       (sc_unique (en_schema en))"

fun unique_rows :: "server_config \<Rightarrow> 'r entity \<Rightarrow> 'r list \<Rightarrow> bool" where
  "unique_rows q en [] \<longleftrightarrow> True"
| "unique_rows q en (r # rs) \<longleftrightarrow> \<not> list_ex (clash q en r) rs \<and> unique_rows q en rs"

section \<open>Statements\<close>

type_synonym 'a stmt = "(database, 'a) go"

definition stmt_create :: "server_config \<Rightarrow> 'r entity \<Rightarrow> 'r \<Rightarrow> 'r stmt" where
  "stmt_create q en row d =
     (let t = en_get en d;
          r = sc_stamp (en_schema en) (tb_next t) (db_now d) (sc_default (en_schema en) row);
          rs = tb_rows t @ [sc_stored (en_schema en) r]
      in if unique_rows q en rs then (Inr r, en_put en \<lparr>tb_rows = rs, tb_next = tb_next t + 1\<rparr> d)
         else (Inl ErrDuplicatedKey, d))"

definition stmt_first :: "server_config \<Rightarrow> 'r entity \<Rightarrow> cond list \<Rightarrow> 'r stmt" where
  "stmt_first q en cs d =
     (case filter (matching q d en cs) (rows en d) of [] \<Rightarrow> (Inl ErrRecordNotFound, d) | r # _ \<Rightarrow> (Inr r, d))"

definition stmt_count :: "server_config \<Rightarrow> 'r entity \<Rightarrow> cond list \<Rightarrow> int stmt" where
  "stmt_count q en cs d = (Inr (int (length (filter (matching q d en cs) (rows en d)))), d)"

text \<open>\<open>Order("c ASC")\<close> and \<open>Order("c DESC")\<close>, by the number in the column.\<close>

definition sort_value :: "'r entity \<Rightarrow> string \<Rightarrow> 'r \<Rightarrow> int" where
  "sort_value en c r =
     (case sc_column (en_schema en) r c of DUint n \<Rightarrow> uint n | DInt n \<Rightarrow> n | DTime n \<Rightarrow> n | _ \<Rightarrow> 0)"

datatype order = Asc string | Desc string

fun in_order :: "'r entity \<Rightarrow> order \<Rightarrow> 'r list \<Rightarrow> 'r list" where
  "in_order en (Asc c) rs = sort_key (sort_value en c) rs"
| "in_order en (Desc c) rs = sort_key (\<lambda>r. - sort_value en c r) rs"

definition stmt_find :: "server_config \<Rightarrow> 'r entity \<Rightarrow> cond list \<Rightarrow> order \<Rightarrow> int \<Rightarrow> int \<Rightarrow> 'r list stmt" where
  "stmt_find q en cs ord offset limit d =
     (Inr (take (nat limit) (drop (nat offset) (in_order en ord (filter (matching q d en cs) (rows en d))))), d)"

text \<open>What an update assigns: a value, or the SQL expression \<open>c + 1\<close> of an unsigned column.\<close>

datatype assignment = Value dbval | PlusOne string

definition assign :: "'r entity \<Rightarrow> 'r \<Rightarrow> string \<times> assignment \<Rightarrow> 'r \<Rightarrow> 'r" where
  "assign en old = (\<lambda>(c, a) r.
     case a of
       Value v \<Rightarrow> sc_set (en_schema en) c v r
     | PlusOne c' \<Rightarrow>
         (case sc_column (en_schema en) old c' of
            DUint n \<Rightarrow> sc_set (en_schema en) c (DUint (n + 1)) r
          | _ \<Rightarrow> r))"

definition updated :: "'r entity \<Rightarrow> int \<Rightarrow> (string \<times> assignment) list \<Rightarrow> 'r \<Rightarrow> 'r" where
  "updated en now ups r = sc_touch (en_schema en) now (fold (assign en r) ups r)"

definition stmt_updates :: "server_config \<Rightarrow> 'r entity \<Rightarrow> cond list \<Rightarrow> (string \<times> assignment) list \<Rightarrow> int stmt" where
  "stmt_updates q en cs ups d =
     (let m = matching q d en cs;
          up = updated en (db_now d) ups;
          rs = map (\<lambda>r. if m r then up r else r) (rows en d);
          n = length (filter (\<lambda>r. m r \<and> (sq_changed_only q \<longrightarrow> up r \<noteq> r)) (rows en d))
      in if unique_rows q en rs then (Inr (int n), put_rows en rs d) else (Inl ErrDuplicatedKey, d))"

definition stmt_delete :: "server_config \<Rightarrow> 'r entity \<Rightarrow> cond list \<Rightarrow> int stmt" where
  "stmt_delete q en cs d =
     (let m = matching q d en cs
      in (Inr (int (length (filter m (rows en d)))), put_rows en (filter (\<lambda>r. \<not> m r) (rows en d)) d))"

section \<open>The model parameter\<close>

text \<open>The methods on one model, each through a handle: the pool or a transaction.\<close>

record ('w, 'h, 'r) model =
  gm_create :: "'h \<Rightarrow> 'r \<Rightarrow> ('w, 'r) go"
  gm_first :: "'h \<Rightarrow> cond list \<Rightarrow> ('w, 'r) go"
  gm_count :: "'h \<Rightarrow> cond list \<Rightarrow> ('w, int) go"
  gm_find :: "'h \<Rightarrow> cond list \<Rightarrow> order \<Rightarrow> int \<Rightarrow> int \<Rightarrow> ('w, 'r list) go"
  gm_updates :: "'h \<Rightarrow> cond list \<Rightarrow> (string \<times> assignment) list \<Rightarrow> ('w, int) go"
  gm_delete :: "'h \<Rightarrow> cond list \<Rightarrow> ('w, int) go"

text \<open>The law also says that the statements leave every other view \<open>V\<close> of the world alone.\<close>

definition statement :: "('w \<Rightarrow> database) \<Rightarrow> ('w \<Rightarrow> 'v) \<Rightarrow> 'a stmt \<Rightarrow> ('w, 'a) go \<Rightarrow> bool" where
  "statement D V c f \<longleftrightarrow> served D c f \<and> leaves V f"

definition model_law ::
    "server_config \<Rightarrow> 'r entity \<Rightarrow> ('w, 'h, 'r) model \<Rightarrow> ('w \<Rightarrow> database) \<Rightarrow> ('w \<Rightarrow> 'v) \<Rightarrow> bool" where
  "model_law q en M D V \<longleftrightarrow>
     (\<forall>h r. statement D V (stmt_create q en r) (gm_create M h r)) \<and>
     (\<forall>h cs. statement D V (stmt_first q en cs) (gm_first M h cs)) \<and>
     (\<forall>h cs. statement D V (stmt_count q en cs) (gm_count M h cs)) \<and>
     (\<forall>h cs ord off lim. statement D V (stmt_find q en cs ord off lim) (gm_find M h cs ord off lim)) \<and>
     (\<forall>h cs ups. statement D V (stmt_updates q en cs ups) (gm_updates M h cs ups)) \<and>
     (\<forall>h cs. statement D V (stmt_delete q en cs) (gm_delete M h cs))"

text \<open>The reference: the abstract database in a world that has one.\<close>

definition on_db :: "('w \<Rightarrow> database) \<Rightarrow> (database \<Rightarrow> 'w \<Rightarrow> 'w) \<Rightarrow> 'a stmt \<Rightarrow> ('w, 'a) go" where
  "on_db D put_db c w = (case c (D w) of (r, d) \<Rightarrow> (r, put_db d w))"

definition ref_model ::
    "('w \<Rightarrow> database) \<Rightarrow> (database \<Rightarrow> 'w \<Rightarrow> 'w) \<Rightarrow> server_config \<Rightarrow> 'r entity \<Rightarrow> ('w, unit, 'r) model" where
  "ref_model D put_db q en =
     \<lparr>gm_create = (\<lambda>_ r. on_db D put_db (stmt_create q en r)),
      gm_first = (\<lambda>_ cs. on_db D put_db (stmt_first q en cs)),
      gm_count = (\<lambda>_ cs. on_db D put_db (stmt_count q en cs)),
      gm_find = (\<lambda>_ cs ord off lim. on_db D put_db (stmt_find q en cs ord off lim)),
      gm_updates = (\<lambda>_ cs ups. on_db D put_db (stmt_updates q en cs ups)),
      gm_delete = (\<lambda>_ cs. on_db D put_db (stmt_delete q en cs))\<rparr>"

lemma statement_on_db:
  assumes "\<forall>d w. D (put_db d w) = d \<and> V (put_db d w) = V w"
  shows "statement D V c (on_db D put_db c)"
  using assms by (auto simp: statement_def served_def leaves_def on_db_def split: prod.split)

lemma ref_model_law:
  assumes "\<forall>d w. D (put_db d w) = d \<and> V (put_db d w) = V w"
  shows "model_law q en (ref_model D put_db q en) D V"
  by (simp add: model_law_def ref_model_def statement_on_db [OF assms])

section \<open>Replies\<close>

lemma statement_cases:
  assumes "statement D V c f" and "f w = (r, w')"
  obtains (reply) "c (D w) = (r, D w')" "V w' = V w"
  | (lost) m where "r = Inl (LibError m)" "D w' = D w \<or> D w' = snd (c (D w))" "V w' = V w"
proof -
  have s: "served D c f" and l: "leaves V f" using assms(1) by (simp_all add: statement_def)
  from l assms(2) have v: "V w' = V w" by (rule leavesD)
  from s assms(2) show thesis
  proof (cases rule: served_cases)
    case reply
    from that(1) [OF this v] show thesis .
  next
    case (lost m)
    from that(2) [OF this v] show thesis .
  qed
qed

text \<open>A statement that only reads leaves the database too.\<close>

definition reads :: "'a stmt \<Rightarrow> bool" where
  "reads c \<longleftrightarrow> (\<forall>d. snd (c d) = d)"

lemma reads_first [simp]: "reads (stmt_first q en cs)"
  by (simp add: reads_def stmt_first_def split: list.split)

lemma reads_count [simp]: "reads (stmt_count q en cs)"
  by (simp add: reads_def stmt_count_def)

lemma reads_find [simp]: "reads (stmt_find q en cs ord off lim)"
  by (simp add: reads_def stmt_find_def)

lemma read_reply:
  assumes "statement D V c f" and "reads c" and "f w = (r, w')"
  shows "D w' = D w \<and> V w' = V w \<and> (r = fst (c (D w)) \<or> (\<exists>m. r = Inl (LibError m)))"
proof -
  have same: "snd (c (D w)) = D w" using assms(2) by (simp add: reads_def)
  from assms(1,3) show ?thesis by (cases rule: statement_cases) (use same in auto)
qed

section \<open>Transactions\<close>

text \<open>
  A context may carry the handle of a transaction. \<open>db.Transaction(fn)\<close> is a parameter: it runs \<open>fn\<close> with a
  handle and rolls the database back when \<open>fn\<close> fails or when beginning or committing fails. \<open>tx_law\<close> states
  that, for a transaction that is isolated from others; the reply of a commit may be lost.
\<close>

type_synonym 'h ctx = "'h option"

definition get_db_from_ctx :: "'h ctx \<Rightarrow> 'h \<Rightarrow> 'h" where
  "get_db_from_ctx ctx pool = (case ctx of Some tx \<Rightarrow> tx | None \<Rightarrow> pool)"

type_synonym ('w, 'h, 'a) transaction = "('h \<Rightarrow> ('w, 'a) go) \<Rightarrow> ('w, 'a) go"

definition exec_tx :: "('w, 'h, 'a) transaction \<Rightarrow> 'h ctx \<Rightarrow> ('h ctx \<Rightarrow> ('w, 'a) go) \<Rightarrow> ('w, 'a) go" where
  "exec_tx transaction ctx fn = transaction (\<lambda>tx. fn (Some tx))"

definition tx_outcome ::
    "('w \<Rightarrow> database) \<Rightarrow> ('w \<Rightarrow> 'v) \<Rightarrow> ('h \<Rightarrow> ('w, 'a) go) \<Rightarrow> 'w \<Rightarrow> go_err + 'a \<Rightarrow> 'w \<Rightarrow> bool" where
  "tx_outcome D V fn w r w' \<longleftrightarrow>
     (\<exists>m. r = Inl (LibError m)) \<and> D w' = D w \<and> V w' = V w \<or>
     (\<exists>tx wb rb we. D wb = D w \<and> V wb = V w \<and> fn tx wb = (rb, we) \<and> V w' = V we \<and>
        (case rb of
           Inl e \<Rightarrow> r = Inl e \<and> D w' = D w
         | Inr a \<Rightarrow> r = Inr a \<and> D w' = D we \<or>
             (\<exists>m. r = Inl (LibError m)) \<and> (D w' = D w \<or> D w' = D we)))"

definition tx_law :: "('w \<Rightarrow> database) \<Rightarrow> ('w \<Rightarrow> 'v) \<Rightarrow> ('w, 'h, 'a) transaction \<Rightarrow> bool" where
  "tx_law D V transaction \<longleftrightarrow>
     (\<forall>fn w. tx_outcome D V fn w (fst (transaction fn w)) (snd (transaction fn w)))"

definition ref_tx :: "('w \<Rightarrow> database) \<Rightarrow> (database \<Rightarrow> 'w \<Rightarrow> 'w) \<Rightarrow> ('w, unit, 'a) transaction" where
  "ref_tx D put_db fn w =
     (case fn () w of (Inl e, w') \<Rightarrow> (Inl e, put_db (D w) w') | (Inr a, w') \<Rightarrow> (Inr a, w'))"

lemma ref_tx_law:
  assumes put: "\<forall>d w. D (put_db d w) = d \<and> V (put_db d w) = V w"
  shows "tx_law D V (ref_tx D put_db)"
  unfolding tx_law_def
proof (intro allI)
  fix fn :: "unit \<Rightarrow> 'a \<Rightarrow> (go_err + 'c) \<times> 'a" and w
  obtain rb we where fn: "fn () w = (rb, we)" by fastforce
  show "tx_outcome D V fn w (fst (ref_tx D put_db fn w)) (snd (ref_tx D put_db fn w))"
    unfolding tx_outcome_def
    by (rule disjI2, intro exI [of _ "()"] exI [of _ w] exI [of _ rb] exI [of _ we])
      (use put in \<open>auto simp: ref_tx_def fn split: sum.split\<close>)
qed

lemma tx_cases:
  assumes "tx_law D V transaction" and "transaction fn w = (r, w')"
  shows "tx_outcome D V fn w r w'"
  using assms(1) [unfolded tx_law_def, rule_format, of fn w] by (simp add: assms(2))

section \<open>Idioms of the repositories\<close>

text \<open>\<open>First\<close> where a missing row is not an error: \<open>nil, nil\<close>.\<close>

definition first_or_nil :: "('w, 'r) go \<Rightarrow> ('w, 'r option) go" where
  "first_or_nil first =
     call first (\<lambda>e. if errors_is e ErrRecordNotFound then ret None else fail e) (\<lambda>r. ret (Some r))"

text \<open>What the statements say of the rows.\<close>

definition select :: "server_config \<Rightarrow> database \<Rightarrow> 'r entity \<Rightarrow> cond list \<Rightarrow> 'r list" where
  "select q d en cs = filter (matching q d en cs) (rows en d)"

definition lookup :: "server_config \<Rightarrow> database \<Rightarrow> 'r entity \<Rightarrow> cond list \<Rightarrow> 'r option" where
  "lookup q d en cs = (case select q d en cs of [] \<Rightarrow> None | r # _ \<Rightarrow> Some r)"

lemma lookup_SomeD: "lookup q d en cs = Some r \<Longrightarrow> r \<in> set (rows en d) \<and> matching q d en cs r"
proof -
  assume "lookup q d en cs = Some r"
  then have "r \<in> set (select q d en cs)" by (auto simp: lookup_def split: list.splits)
  then show ?thesis by (simp add: select_def)
qed

lemma lookup_NoneD: "lookup q d en cs = None \<Longrightarrow> r \<in> set (rows en d) \<Longrightarrow> \<not> matching q d en cs r"
  by (auto simp: lookup_def select_def filter_empty_conv split: list.splits)

lemma first_or_nil_reply:
  assumes "statement D V (stmt_first q en cs) f" and "first_or_nil f w = (r, w')"
  shows "D w' = D w \<and> V w' = V w \<and> (r = Inr (lookup q (D w) en cs) \<or> (\<exists>m. r = Inl (LibError m)))"
proof -
  obtain r1 w1 where f: "f w = (r1, w1)" by fastforce
  then have "w' = w1" and r: "r = (case r1 of
      Inl e \<Rightarrow> if errors_is e ErrRecordNotFound then Inr None else Inl e | Inr a \<Rightarrow> Inr (Some a))"
    using assms(2) by (auto simp: first_or_nil_def call_def split: sum.splits if_splits)
  with read_reply [OF assms(1) reads_first f] show ?thesis
    by (auto simp: stmt_first_def lookup_def select_def split: list.splits)
qed

lemma model_lawD:
  assumes "model_law q en M D V"
  shows "statement D V (stmt_create q en r) (gm_create M h r)"
    and "statement D V (stmt_first q en cs) (gm_first M h cs)"
    and "statement D V (stmt_count q en cs) (gm_count M h cs)"
    and "statement D V (stmt_find q en cs ord off lim) (gm_find M h cs ord off lim)"
    and "statement D V (stmt_updates q en cs ups) (gm_updates M h cs ups)"
    and "statement D V (stmt_delete q en cs) (gm_delete M h cs)"
  using assms by (simp_all add: model_law_def)

text \<open>What an \<open>UPDATE\<close> did, of which it is known what the rows are after it and when it affects any.\<close>

lemma updates_cases:
  assumes law: "model_law q en M D V" and run: "gm_updates M h cs ups w = (r, w')"
    and stmt: "stmt_updates q en cs ups (D w) = (Inl ErrDuplicatedKey, D w) \<or>
      (\<exists>n. stmt_updates q en cs ups (D w) = (Inr (int n), d) \<and> (0 < n \<longrightarrow> found) \<and> (n = 0 \<longrightarrow> absent))"
  obtains (failed) e where "r = Inl e" "e = ErrDuplicatedKey \<and> D w' = D w \<or> (\<exists>m. e = LibError m)"
      "D w' = D w \<or> D w' = d" "V w' = V w"
    | (changed) n where "r = Inr n" "0 < n" found "D w' = d" "V w' = V w"
    | (missed) "r = Inr 0" absent "D w' = d" "V w' = V w"
  using model_lawD(5) [OF law] run
proof (cases rule: statement_cases)
  case (lost m)
  with stmt show thesis by (intro failed [of "LibError m"]) auto
next
  case reply
  from stmt show thesis
  proof
    assume "stmt_updates q en cs ups (D w) = (Inl ErrDuplicatedKey, D w)"
    with reply show thesis by (intro failed [of ErrDuplicatedKey]) auto
  next
    assume "\<exists>n. stmt_updates q en cs ups (D w) = (Inr (int n), d) \<and> (0 < n \<longrightarrow> found) \<and> (n = 0 \<longrightarrow> absent)"
    then obtain n where n: "r = Inr (int n)" "D w' = d" "0 < n \<longrightarrow> found" "n = 0 \<longrightarrow> absent" using reply(1) by auto
    with reply(2) show thesis by (cases "0 < n") (auto intro: changed missed)
  qed
qed

section \<open>The unique indexes\<close>

definition db_unique :: "server_config \<Rightarrow> database \<Rightarrow> bool" where
  "db_unique q d \<longleftrightarrow>
     unique_rows q users (rows users d) \<and> unique_rows q servers (rows servers d) \<and>
     unique_rows q dsts (rows dsts d) \<and> unique_rows q tasks (rows tasks d)"

lemma list_ex_filter: "list_ex P (filter Q xs) \<Longrightarrow> list_ex P xs"
  by (induction xs) (auto split: if_splits)

lemma unique_rows_filter: "unique_rows q en rs \<Longrightarrow> unique_rows q en (filter P rs)"
  by (induction rs) (auto dest: list_ex_filter)

lemma unique_rows_eq:
  assumes "unique_rows q en rs" and "x \<in> set rs" and "y \<in> set rs" and "clash q en x y" and "clash q en y x"
  shows "x = y"
  using assms by (induction rs) (auto simp: list_ex_iff)

lemma entity_simps [simp]:
  "en_get users d = db_users d" "en_put users t d = d\<lparr>db_users := t\<rparr>" "en_schema users = user_schema"
  "en_get servers d = db_servers d" "en_put servers t' d = d\<lparr>db_servers := t'\<rparr>" "en_schema servers = server_schema"
  "en_get dsts d = db_dsts d" "en_put dsts t'' d = d\<lparr>db_dsts := t''\<rparr>" "en_schema dsts = dst_schema"
  "en_get tasks d = db_tasks d" "en_put tasks t3 d = d\<lparr>db_tasks := t3\<rparr>" "en_schema tasks = task_schema"
  by (simp_all add: users_def servers_def dsts_def tasks_def)

lemma rows_put_rows [simp]:
  "rows users (put_rows users us d) = us" "rows servers (put_rows users us d) = rows servers d"
  "rows dsts (put_rows users us d) = rows dsts d" "rows tasks (put_rows users us d) = rows tasks d"
  "rows servers (put_rows servers ss d) = ss" "rows users (put_rows servers ss d) = rows users d"
  "rows dsts (put_rows servers ss d) = rows dsts d" "rows tasks (put_rows servers ss d) = rows tasks d"
  "rows dsts (put_rows dsts zs d) = zs" "rows users (put_rows dsts zs d) = rows users d"
  "rows servers (put_rows dsts zs d) = rows servers d" "rows tasks (put_rows dsts zs d) = rows tasks d"
  "db_now (put_rows users us d) = db_now d" "db_now (put_rows servers ss d) = db_now d"
  "db_now (put_rows dsts zs d) = db_now d"
  by (simp_all add: rows_def put_rows_def)

end
