(* ===== verification/UserRepo.thy ===== *)
theory UserRepo
  imports Gorm
begin

text \<open>
  The user repository, \<open>src/internal/repository/user/repository.go\<close>.
\<close>

section \<open>Operations\<close>

record ('w, 'h) user_repo =
  ur_create :: "'h ctx \<Rightarrow> user \<Rightarrow> ('w, user) go"
  ur_get_by_id :: "'h ctx \<Rightarrow> u64 \<Rightarrow> ('w, user option) go"
  ur_get_by_username :: "'h ctx \<Rightarrow> string \<Rightarrow> ('w, user option) go"
  ur_get_by_phone :: "'h ctx \<Rightarrow> string \<Rightarrow> ('w, user option) go"
  ur_get_by_email :: "'h ctx \<Rightarrow> string \<Rightarrow> ('w, user option) go"
  ur_update :: "'h ctx \<Rightarrow> u64 \<Rightarrow> string \<Rightarrow> ('w, unit) go"
  ur_update_password :: "'h ctx \<Rightarrow> u64 \<Rightarrow> string \<Rightarrow> u64 \<Rightarrow> ('w, unit) go"

text \<open>\<open>Create\<close> fills in the row it is given; the model returns it.\<close>

definition user_create :: "('w, 'h, user) model \<Rightarrow> 'h \<Rightarrow> 'h ctx \<Rightarrow> user \<Rightarrow> ('w, user) go" where
  "user_create M db ctx u = gm_create M (get_db_from_ctx ctx db) u"

definition user_get_by_id :: "('w, 'h, user) model \<Rightarrow> 'h \<Rightarrow> 'h ctx \<Rightarrow> u64 \<Rightarrow> ('w, user option) go" where
  "user_get_by_id M db ctx uid = first_or_nil (gm_first M (get_db_from_ctx ctx db) [Eq ''id'' (DUint uid)])"

definition user_get_by_username :: "('w, 'h, user) model \<Rightarrow> 'h \<Rightarrow> 'h ctx \<Rightarrow> string \<Rightarrow> ('w, user option) go" where
  "user_get_by_username M db ctx name =
     first_or_nil (gm_first M (get_db_from_ctx ctx db) [Eq ''username'' (DText name)])"

definition user_get_by_phone :: "('w, 'h, user) model \<Rightarrow> 'h \<Rightarrow> 'h ctx \<Rightarrow> string \<Rightarrow> ('w, user option) go" where
  "user_get_by_phone M db ctx phone =
     first_or_nil (gm_first M (get_db_from_ctx ctx db) [Eq ''phone'' (DText phone)])"

definition user_get_by_email :: "('w, 'h, user) model \<Rightarrow> 'h \<Rightarrow> 'h ctx \<Rightarrow> string \<Rightarrow> ('w, user option) go" where
  "user_get_by_email M db ctx email =
     first_or_nil (gm_first M (get_db_from_ctx ctx db) [Eq ''email'' (DText email)])"

definition user_update :: "('w, 'h, user) model \<Rightarrow> 'h \<Rightarrow> 'h ctx \<Rightarrow> u64 \<Rightarrow> string \<Rightarrow> ('w, unit) go" where
  "user_update M db ctx uid name =
     call (gm_updates M (get_db_from_ctx ctx db) [Eq ''id'' (DUint uid)] [(''username'', Value (DText name))])
       fail
       (\<lambda>affected.
         if 0 < affected then ret ()
         else
           call (user_get_by_id M db ctx uid) fail (\<lambda>user.
             case user of None \<Rightarrow> fail ErrRecordNotFound | Some _ \<Rightarrow> ret ()))"

definition user_update_password ::
    "('w, 'h, user) model \<Rightarrow> 'h \<Rightarrow> 'h ctx \<Rightarrow> u64 \<Rightarrow> string \<Rightarrow> u64 \<Rightarrow> ('w, unit) go" where
  "user_update_password M db ctx uid hash version =
     call (gm_updates M (get_db_from_ctx ctx db)
         [Eq ''id'' (DUint uid), Eq ''token_version'' (DUint version)]
         [(''password'', Value (DText hash)), (''token_version'', PlusOne ''token_version'')])
       fail
       (\<lambda>affected.
         if 0 < affected then ret ()
         else
           call (user_get_by_id M db ctx uid) fail (\<lambda>user.
             case user of None \<Rightarrow> fail ErrRecordNotFound | Some _ \<Rightarrow> fail ErrTokenVersionConflict))"

definition new_user_repo :: "('w, 'h, user) model \<Rightarrow> 'h \<Rightarrow> ('w, 'h) user_repo" where
  "new_user_repo M db =
     \<lparr>ur_create = user_create M db, ur_get_by_id = user_get_by_id M db,
      ur_get_by_username = user_get_by_username M db, ur_get_by_phone = user_get_by_phone M db,
      ur_get_by_email = user_get_by_email M db, ur_update = user_update M db,
      ur_update_password = user_update_password M db\<rparr>"

section \<open>Users on the abstract database\<close>

definition user_with_id :: "database \<Rightarrow> u64 \<Rightarrow> user option" where
  "user_with_id d uid = find (\<lambda>u. us_id u = uid) (rows users d)"

lemma matching_user [simp]:
  "matching q d users [Eq ''id'' (DUint uid)] = (\<lambda>u. us_id u = uid)"
  "matching q d users [Eq ''id'' (DUint uid), Eq ''token_version'' (DUint v)] =
     (\<lambda>u. us_id u = uid \<and> us_token_version u = v)"
  "matching q d users [Eq ''phone'' (DText p)] = (\<lambda>u. sq_text_eq q (us_phone u) p)"
  "matching q d users [Eq ''username'' (DText p)] = (\<lambda>u. sq_text_eq q (us_username u) p)"
  by (simp_all add: matching_def user_schema_def user_column_def fun_eq_iff)

lemma find_filter: "find P xs = (case filter P xs of [] \<Rightarrow> None | x # _ \<Rightarrow> Some x)"
  by (induction xs) simp_all

lemma lookup_user_id: "lookup q d users [Eq ''id'' (DUint uid)] = user_with_id d uid"
  by (simp add: lookup_def select_def user_with_id_def find_filter)

lemma user_get_by_id_reply:
  assumes "model_law q users M D V" and "user_get_by_id M db ctx uid w = (r, w')"
  shows "D w' = D w \<and> V w' = V w \<and> (r = Inr (user_with_id (D w) uid) \<or> (\<exists>m. r = Inl (LibError m)))"
  using first_or_nil_reply [OF model_lawD(2) [OF assms(1)] assms(2) [unfolded user_get_by_id_def]]
  by (simp add: lookup_user_id)

lemma user_get_by_phone_reply:
  assumes "model_law q users M D V" and "user_get_by_phone M db ctx phone w = (r, w')"
  shows "D w' = D w \<and> V w' = V w \<and>
    (r = Inr (lookup q (D w) users [Eq ''phone'' (DText phone)]) \<or> (\<exists>m. r = Inl (LibError m)))"
  by (rule first_or_nil_reply [OF model_lawD(2) [OF assms(1)] assms(2) [unfolded user_get_by_phone_def]])

lemma user_get_by_username_reply:
  assumes "model_law q users M D V" and "user_get_by_username M db ctx name w = (r, w')"
  shows "D w' = D w \<and> V w' = V w \<and>
    (r = Inr (lookup q (D w) users [Eq ''username'' (DText name)]) \<or> (\<exists>m. r = Inl (LibError m)))"
  by (rule first_or_nil_reply [OF model_lawD(2) [OF assms(1)] assms(2) [unfolded user_get_by_username_def]])

lemma user_with_id_Some: "user_with_id d uid = Some u \<Longrightarrow> us_id u = uid \<and> u \<in> set (rows users d)"
  unfolding user_with_id_def by (induction "rows users d") (auto simp: find_Some_iff)

text \<open>Ids are a primary key.\<close>

lemma user_id_unique:
  assumes "db_unique q d" and "u \<in> set (rows users d)"
  shows "user_with_id d (us_id u) = Some u"
proof -
  have clash: "clash q users a b" if "us_id a = us_id b" for a b
    using that by (simp add: clash_def user_schema_def user_column_def)
  have u: "unique_rows q users (rows users d)" using assms(1) by (simp add: db_unique_def)
  have "\<exists>u'. user_with_id d (us_id u) = Some u'"
    using assms(2) by (cases "user_with_id d (us_id u)") (auto simp: user_with_id_def find_None_iff)
  then obtain u' where u': "user_with_id d (us_id u) = Some u'" ..
  from user_with_id_Some [OF this] have "u' = u"
    by (intro unique_rows_eq [OF u _ assms(2)]) (simp_all add: clash)
  with u' show ?thesis by simp
qed

section \<open>The password update\<close>

definition new_password :: "int \<Rightarrow> string \<Rightarrow> user \<Rightarrow> user" where
  "new_password now hash u =
     u\<lparr>us_password := hash, us_token_version := us_token_version u + 1, us_updated_at := now\<rparr>"

lemma updated_password:
  "updated users now [(''password'', Value (DText hash)), (''token_version'', PlusOne ''token_version'')] =
     new_password now hash"
  by (simp add: updated_def assign_def user_schema_def user_set_def user_column_def new_password_def fun_eq_iff)

definition password_changed :: "int \<Rightarrow> u64 \<Rightarrow> u64 \<Rightarrow> string \<Rightarrow> user \<Rightarrow> user" where
  "password_changed now uid version hash u =
     (if us_id u = uid \<and> us_token_version u = version then new_password now hash u else u)"

lemma stmt_update_password:
  "stmt_updates q users [Eq ''id'' (DUint uid), Eq ''token_version'' (DUint version)]
      [(''password'', Value (DText hash)), (''token_version'', PlusOne ''token_version'')] d = (r, d') \<Longrightarrow>
   (r = Inl ErrDuplicatedKey \<and> d' = d) \<or>
   (d' = put_rows users (map (password_changed (db_now d) uid version hash) (rows users d)) d \<and>
    (\<exists>n. r = Inr (int n) \<and>
      (n = 0 \<longleftrightarrow> \<not> (\<exists>u\<in>set (rows users d). us_id u = uid \<and> us_token_version u = version))))"
proof -
  have changed: "new_password now hash u \<noteq> u" for now u
    by (cases u) (simp add: new_password_def)
  assume "stmt_updates q users [Eq ''id'' (DUint uid), Eq ''token_version'' (DUint version)]
      [(''password'', Value (DText hash)), (''token_version'', PlusOne ''token_version'')] d = (r, d')"
  then show ?thesis
    unfolding stmt_updates_def Let_def updated_password matching_user
    by (auto simp: changed filter_empty_conv password_changed_def [abs_def] split: if_splits)
qed

lemma put_rows_same: "put_rows users (rows users d) d = d"
  by (simp add: put_rows_def rows_def)

definition with_new_password :: "database \<Rightarrow> u64 \<Rightarrow> u64 \<Rightarrow> string \<Rightarrow> database" where
  "with_new_password d uid version hash =
     put_rows users (map (password_changed (db_now d) uid version hash) (rows users d)) d"

definition has_version :: "database \<Rightarrow> u64 \<Rightarrow> u64 \<Rightarrow> bool" where
  "has_version d uid version \<longleftrightarrow> (\<exists>u\<in>set (rows users d). us_id u = uid \<and> us_token_version u = version)"

lemma with_new_password_none: "\<not> has_version d uid version \<Longrightarrow> with_new_password d uid version hash = d"
proof -
  assume "\<not> has_version d uid version"
  then have "map (password_changed (db_now d) uid version hash) (rows users d) = rows users d"
    by (intro map_idI) (auto simp: has_version_def password_changed_def)
  then show ?thesis by (simp add: with_new_password_def put_rows_same)
qed

lemma new_version_differs: "(v :: u64) + 1 \<noteq> v"
  by simp

lemma password_changed_version: "us_id u = uid \<Longrightarrow> us_token_version (password_changed now uid version hash u) \<noteq> version"
  by (simp add: password_changed_def new_password_def)

lemma password_changed_id [simp]: "us_id (password_changed now uid version hash u) = us_id u"
  by (simp add: password_changed_def new_password_def)

lemma with_new_password_version: "\<not> has_version (with_new_password d uid version hash) uid version"
  using password_changed_version by (auto simp: has_version_def with_new_password_def)

lemma find_map: "find P (map f xs) = map_option f (find (P \<circ> f) xs)"
  by (induction xs) simp_all

lemma with_new_password_user:
  "user_with_id (with_new_password d uid version hash) i =
     map_option (password_changed (db_now d) uid version hash) (user_with_id d i)"
  by (simp add: user_with_id_def with_new_password_def find_map comp_def)

text \<open>The one statement that changes a password.\<close>

lemma update_password_rows:
  "stmt_updates q users [Eq ''id'' (DUint uid), Eq ''token_version'' (DUint version)]
      [(''password'', Value (DText hash)), (''token_version'', PlusOne ''token_version'')] d = (Inl ErrDuplicatedKey, d) \<or>
   (\<exists>n. stmt_updates q users [Eq ''id'' (DUint uid), Eq ''token_version'' (DUint version)]
      [(''password'', Value (DText hash)), (''token_version'', PlusOne ''token_version'')] d =
        (Inr (int n), with_new_password d uid version hash) \<and>
      (0 < n \<longrightarrow> has_version d uid version) \<and> (n = 0 \<longrightarrow> \<not> has_version d uid version))"
  using stmt_update_password [of q uid version hash d, OF prod.collapse [symmetric]]
  by (auto simp: with_new_password_def has_version_def prod_eq_iff)

lemma user_update_password_reply:
  assumes law: "model_law q users M D V" and run: "user_update_password M db ctx uid hash version w = (r, w')"
  shows "V w' = V w \<and> (D w' = D w \<or> D w' = with_new_password (D w) uid version hash) \<and>
    (r = Inr () \<longrightarrow> has_version (D w) uid version \<and> D w' = with_new_password (D w) uid version hash) \<and>
    (r = Inl ErrTokenVersionConflict \<longrightarrow> D w' = D w \<and> \<not> has_version (D w) uid version) \<and>
    (r = Inl ErrRecordNotFound \<longrightarrow> D w' = D w \<and> user_with_id (D w) uid = None)"
proof -
  obtain r1 w1 where up: "gm_updates M (get_db_from_ctx ctx db) [Eq ''id'' (DUint uid), Eq ''token_version'' (DUint version)]
    [(''password'', Value (DText hash)), (''token_version'', PlusOne ''token_version'')] w = (r1, w1)" by fastforce
  obtain r2 w2 where get: "user_get_by_id M db ctx uid w1 = (r2, w2)" by fastforce
  note gv = user_get_by_id_reply [OF law get]
  have body: "(r, w') = (case r1 of Inl e \<Rightarrow> (Inl e, w1) | Inr n \<Rightarrow> if 0 < n then (Inr (), w1)
      else (case r2 of Inl e \<Rightarrow> (Inl e, w2) | Inr None \<Rightarrow> (Inl ErrRecordNotFound, w2)
        | Inr (Some u) \<Rightarrow> (Inl ErrTokenVersionConflict, w2)))"
    using run up get
    by (cases r1; cases r2) (auto simp: user_update_password_def ret_def fail_def split: option.splits if_splits)
  from law up update_password_rows show ?thesis
  proof (cases rule: updates_cases)
    case (failed e)
    with body show ?thesis by auto
  next
    case (changed n)
    with body show ?thesis by auto
  next
    case missed
    with body gv show ?thesis by (auto simp: with_new_password_none split: sum.splits option.splits)
  qed
qed

section \<open>Properties\<close>

text \<open>\<open>UpdatePassword\<close> is a compare-and-set on the token version: it succeeds only when the user still has the
  version it is given, and then the password is the new hash and the version is one more, for that user alone;
  when it reports a version conflict the table is as before and no such user had the version, and when it reports
  that the record is not found there is no user with the id. Other users are never touched, even when the reply
  of the database is lost.\<close>

theorem update_password_compare_and_set:
  assumes law: "model_law q users M D V" and run: "user_update_password M db ctx uid hash version w = (r, w')"
  shows "(r = Inr () \<longrightarrow> has_version (D w) uid version \<and> D w' = with_new_password (D w) uid version hash) \<and>
    (r = Inl ErrTokenVersionConflict \<longrightarrow> D w' = D w \<and> \<not> has_version (D w) uid version) \<and>
    (r = Inl ErrRecordNotFound \<longrightarrow> D w' = D w \<and> user_with_id (D w) uid = None) \<and>
    (\<forall>i. i \<noteq> uid \<longrightarrow> user_with_id (D w') i = user_with_id (D w) i)"
proof -
  have "user_with_id (with_new_password (D w) uid version hash) i = user_with_id (D w) i" if "i \<noteq> uid" for i
    using that user_with_id_Some [of "D w" i]
    by (cases "user_with_id (D w) i") (auto simp: with_new_password_user password_changed_def)
  with user_update_password_reply [OF assms] show ?thesis by metis
qed

definition two_users :: database where
  "two_users =
     (let u = \<lparr>us_id = 1, us_created_at = 0, us_updated_at = 0, us_username = ''a'', us_password = ''x'',
        us_phone = ''1'', us_email = None, us_role = ''user'', us_status = 1, us_token_version = 5\<rparr>
      in \<lparr>db_now = 9, db_users = \<lparr>tb_rows = [u, u\<lparr>us_id := 2, us_username := ''b'', us_phone := ''2''\<rparr>], tb_next = 3\<rparr>,
        db_servers = \<lparr>tb_rows = [], tb_next = 1\<rparr>, db_dsts = \<lparr>tb_rows = [], tb_next = 1\<rparr>,
        db_tasks = \<lparr>tb_rows = [], tb_next = 1\<rparr>\<rparr>)"

abbreviation plain_server :: server_config where
  "plain_server \<equiv> \<lparr>sq_text_eq = (=), sq_changed_only = True\<rparr>"

theorem update_password_compare_and_set_witness:
  "let run = user_update_password (ref_model (\<lambda>d. d) (\<lambda>d _. d) plain_server users) () None 2 ''y'' 5 two_users
   in fst run = Inr () \<and> snd run = with_new_password two_users 2 5 ''y'' \<and>
      user_with_id (snd run) 1 = user_with_id two_users 1"
proof -
  let ?run = "user_update_password (ref_model (\<lambda>d. d) (\<lambda>d _. d) plain_server users) () None 2 ''y'' 5 two_users"
  have law: "model_law plain_server users (ref_model (\<lambda>d. d) (\<lambda>d _. d) plain_server users) (\<lambda>d. d) (\<lambda>_. ())"
    by (rule ref_model_law) simp
  have ok: "fst ?run = Inr ()" by code_simp
  then have "?run = (Inr (), snd ?run)" by (metis prod.collapse)
  note cas = update_password_compare_and_set [OF law this]
  have "snd ?run = with_new_password two_users 2 5 ''y''"
    using cas [THEN conjunct1, THEN mp, OF refl] ..
  moreover have "user_with_id (snd ?run) 1 = user_with_id two_users 1"
    using cas [THEN conjunct2, THEN conjunct2, THEN conjunct2, THEN spec, of 1] by simp
  ultimately show ?thesis using ok by (simp only: Let_def simp_thms)
qed

end
