(* ===== verification/Jwt.thy ===== *)
theory Jwt
  imports Runtime Redis
begin

text \<open>
  Login and agent tokens, \<open>src/internal/platform/jwt/jwt.go\<close>. The library \<open>golang-jwt\<close> is a
  parameter: signing a claim set, parsing a token, and \<open>NewNumericDate\<close>. What the program relies on is
  stated by \<open>jwt_law\<close>: what a token contains is a function of its text and the secret, a signed claim set
  is contained in its token, and the parser accepts a token exactly when it contains claims that pass the
  checks the program asks for. Times are nanoseconds since 1970.
\<close>

section \<open>Claims and the library\<close>

record registered_claims =
  rc_id :: string
  rc_issuer :: string
  rc_subject :: string
  rc_issued_at :: "int option"
  rc_not_before :: "int option"
  rc_expires_at :: "int option"

record custom_claims =
  cc_user_id :: u64
  cc_username :: string
  cc_role :: string
  cc_token_version :: u64
  cc_registered :: registered_claims

text \<open>
  \<open>jl_parse_custom token secret methods issuer expiration_required\<close> is \<open>ParseWithClaims\<close> into a
  \<open>CustomClaims\<close>: the claims and the flag \<open>Valid\<close>; likewise for \<open>RegisteredClaims\<close>.
\<close>

record 'w jwt_lib =
  jl_numeric_date :: "int \<Rightarrow> int"
  jl_sign_custom :: "string \<Rightarrow> custom_claims \<Rightarrow> string \<Rightarrow> ('w, string) go"
  jl_sign_registered :: "string \<Rightarrow> registered_claims \<Rightarrow> string \<Rightarrow> ('w, string) go"
  jl_parse_custom :: "string \<Rightarrow> string \<Rightarrow> string list \<Rightarrow> string \<Rightarrow> bool \<Rightarrow> ('w, custom_claims \<times> bool) go"
  jl_parse_registered :: "string \<Rightarrow> string \<Rightarrow> string list \<Rightarrow> string \<Rightarrow> bool \<Rightarrow> ('w, registered_claims \<times> bool) go"

section \<open>Operations\<close>

record jwt_config =
  jc_access_secret :: string
  jc_access_expire :: int
  jc_refresh_secret :: string
  jc_refresh_expire :: int
  jc_agent_secret :: string
  jc_issuer :: string

record 'w token_manager =
  tm_generate_access_token :: "u64 \<Rightarrow> string \<Rightarrow> string \<Rightarrow> u64 \<Rightarrow> ('w, string) go"
  tm_generate_refresh_token :: "u64 \<Rightarrow> string \<Rightarrow> string \<Rightarrow> u64 \<Rightarrow> ('w, string) go"
  tm_parse_token :: "string \<Rightarrow> bool \<Rightarrow> ('w, custom_claims) go"
  tm_generate_agent_token :: "u64 \<Rightarrow> ('w, string) go"
  tm_parse_agent_token :: "string \<Rightarrow> ('w, u64) go"

definition generate_token ::
    "'w jwt_lib \<Rightarrow> 'w runtime \<Rightarrow> jwt_config \<Rightarrow> u64 \<Rightarrow> string \<Rightarrow> string \<Rightarrow> u64 \<Rightarrow> string \<Rightarrow> int \<Rightarrow> ('w, string) go"
where
  "generate_token J rt cfg uid username role version secret expire =
     effect (rt_now rt) (\<lambda>now.
     effect (rt_uuid rt) (\<lambda>i.
       jl_sign_custom J ''HS256''
         \<lparr>cc_user_id = uid, cc_username = username, cc_role = role, cc_token_version = version,
          cc_registered = \<lparr>rc_id = i, rc_issuer = jc_issuer cfg, rc_subject = [],
            rc_issued_at = Some (jl_numeric_date J now), rc_not_before = Some (jl_numeric_date J now),
            rc_expires_at = Some (jl_numeric_date J (now + expire))\<rparr>\<rparr>
         secret))"

definition generate_access_token ::
    "'w jwt_lib \<Rightarrow> 'w runtime \<Rightarrow> jwt_config \<Rightarrow> u64 \<Rightarrow> string \<Rightarrow> string \<Rightarrow> u64 \<Rightarrow> ('w, string) go" where
  "generate_access_token J rt cfg uid username role version =
     generate_token J rt cfg uid username role version (jc_access_secret cfg) (jc_access_expire cfg)"

definition generate_refresh_token ::
    "'w jwt_lib \<Rightarrow> 'w runtime \<Rightarrow> jwt_config \<Rightarrow> u64 \<Rightarrow> string \<Rightarrow> string \<Rightarrow> u64 \<Rightarrow> ('w, string) go" where
  "generate_refresh_token J rt cfg uid username role version =
     generate_token J rt cfg uid username role version (jc_refresh_secret cfg) (jc_refresh_expire cfg)"

definition parse_token :: "'w jwt_lib \<Rightarrow> jwt_config \<Rightarrow> string \<Rightarrow> bool \<Rightarrow> ('w, custom_claims) go" where
  "parse_token J cfg token is_refresh =
     (let secret = (if is_refresh then jc_refresh_secret cfg else jc_access_secret cfg) in
      call (jl_parse_custom J token secret [''HS256''] (jc_issuer cfg) True) fail
        (\<lambda>(claims, valid).
          if valid then ret claims else fail (ErrorMsg (StoreMsg M_token_invalid_or_expired))))"

definition generate_agent_token :: "'w jwt_lib \<Rightarrow> jwt_config \<Rightarrow> u64 \<Rightarrow> ('w, string) go" where
  "generate_agent_token J cfg sid =
     (if sid = 0 then fail (ErrorMsg (StoreMsg M_server_id_invalid))
      else
        jl_sign_registered J ''HS256''
          \<lparr>rc_id = [], rc_issuer = jc_issuer cfg, rc_subject = format_uint sid, rc_issued_at = None,
           rc_not_before = None, rc_expires_at = None\<rparr>
          (jc_agent_secret cfg))"

definition parse_agent_token :: "'w jwt_lib \<Rightarrow> jwt_config \<Rightarrow> string \<Rightarrow> ('w, u64) go" where
  "parse_agent_token J cfg token =
     call (jl_parse_registered J token (jc_agent_secret cfg) [''HS256''] (jc_issuer cfg) False) fail
       (\<lambda>(claims, valid).
         if \<not> valid then fail (ErrorMsg (AgentMsg M_agent_token_invalid))
         else
           case parse_uint (rc_subject claims) 64 of
             Inl e \<Rightarrow> fail (ErrorMsg (StoreMsg M_agent_subject_invalid))
           | Inr sid \<Rightarrow>
               if sid = 0 then fail (ErrorMsg (StoreMsg M_agent_subject_invalid)) else ret sid)"

definition new_token_manager :: "'w jwt_lib \<Rightarrow> 'w runtime \<Rightarrow> jwt_config \<Rightarrow> 'w token_manager" where
  "new_token_manager J rt cfg =
     \<lparr>tm_generate_access_token = generate_access_token J rt cfg,
      tm_generate_refresh_token = generate_refresh_token J rt cfg,
      tm_parse_token = parse_token J cfg,
      tm_generate_agent_token = generate_agent_token J cfg,
      tm_parse_agent_token = parse_agent_token J cfg\<rparr>"

section \<open>What the program relies on\<close>

text \<open>
  \<open>cust token secret\<close> is the claim set in a token whose HS256 signature is right for the secret. JSON keeps
  text that is well-formed UTF-8. A date is truncated to the second, when it is made and when it is read. The view \<open>V\<close> is the state that signing
  and parsing leave alone.
\<close>

definition whole_second :: "int option \<Rightarrow> bool" where
  "whole_second t \<longleftrightarrow> (case t of None \<Rightarrow> True | Some n \<Rightarrow> n mod 1000000000 = 0)"

definition numeric_dates :: "registered_claims \<Rightarrow> bool" where
  "numeric_dates c \<longleftrightarrow>
     whole_second (rc_issued_at c) \<and> whole_second (rc_not_before c) \<and> whole_second (rc_expires_at c)"

definition registered_text :: "registered_claims \<Rightarrow> bool" where
  "registered_text c \<longleftrightarrow>
     valid_utf8 (rc_id c) \<and> valid_utf8 (rc_issuer c) \<and> valid_utf8 (rc_subject c) \<and> numeric_dates c"

definition custom_text :: "custom_claims \<Rightarrow> bool" where
  "custom_text c \<longleftrightarrow> valid_utf8 (cc_username c) \<and> valid_utf8 (cc_role c) \<and> registered_text (cc_registered c)"

definition passes :: "int \<Rightarrow> string \<Rightarrow> bool \<Rightarrow> registered_claims \<Rightarrow> bool" where
  "passes now issuer expiry_required c \<longleftrightarrow>
     rc_issuer c = issuer \<and>
     (case rc_expires_at c of None \<Rightarrow> \<not> expiry_required | Some t \<Rightarrow> now < t) \<and>
     (case rc_not_before c of None \<Rightarrow> True | Some t \<Rightarrow> t \<le> now)"

text \<open>The answer of the parser, and the answer of the signer.\<close>

definition parse_answer ::
    "'c option \<Rightarrow> ('c \<Rightarrow> registered_claims) \<Rightarrow> int \<Rightarrow> string \<Rightarrow> bool \<Rightarrow> go_err + 'c \<times> bool \<Rightarrow> bool" where
  "parse_answer content reg now issuer req r \<longleftrightarrow>
     (\<forall>p. r = Inr p \<longleftrightarrow> (\<exists>c. content = Some c \<and> passes now issuer req (reg c) \<and> p = (c, True))) \<and>
     (\<forall>e. r = Inl e \<longrightarrow> (\<exists>m. e = LibError m))"

definition parses :: "('w \<Rightarrow> 'v) \<Rightarrow> 'w runtime \<Rightarrow> ('c \<Rightarrow> registered_claims) \<Rightarrow> (string \<Rightarrow> string \<Rightarrow> 'c option) \<Rightarrow>
    (string \<Rightarrow> string \<Rightarrow> string list \<Rightarrow> string \<Rightarrow> bool \<Rightarrow> ('w, 'c \<times> bool) go) \<Rightarrow> bool" where
  "parses V rt reg content parse \<longleftrightarrow>
     (\<forall>token secret issuer req w.
        V (snd (parse token secret [''HS256''] issuer req w)) = V w \<and>
        parse_answer (content token secret) reg (fst (rt_now rt w)) issuer req
          (fst (parse token secret [''HS256''] issuer req w)))"

definition sign_answer :: "(string \<Rightarrow> 'c option) \<Rightarrow> bool \<Rightarrow> 'c \<Rightarrow> go_err + string \<Rightarrow> bool" where
  "sign_answer content utf8 c r \<longleftrightarrow>
     (\<forall>e. r = Inl e \<longrightarrow> (\<exists>m. e = LibError m)) \<and>
     (\<forall>token. r = Inr token \<longrightarrow> token \<noteq> [] \<and> (utf8 \<longrightarrow> content token = Some c))"

definition signs :: "('w \<Rightarrow> 'v) \<Rightarrow> ('c \<Rightarrow> bool) \<Rightarrow> (string \<Rightarrow> string \<Rightarrow> 'c option) \<Rightarrow>
    (string \<Rightarrow> 'c \<Rightarrow> string \<Rightarrow> ('w, string) go) \<Rightarrow> bool" where
  "signs V texts content sign \<longleftrightarrow>
     (\<forall>c secret w.
        V (snd (sign ''HS256'' c secret w)) = V w \<and>
        sign_answer (\<lambda>token. content token secret) (texts c) c (fst (sign ''HS256'' c secret w)))"

definition jwt_law ::
    "'w jwt_lib \<Rightarrow> 'w runtime \<Rightarrow> ('w \<Rightarrow> 'v) \<Rightarrow> (string \<Rightarrow> string \<Rightarrow> custom_claims option) \<Rightarrow>
      (string \<Rightarrow> string \<Rightarrow> registered_claims option) \<Rightarrow> bool"
where
  "jwt_law J rt V cust regd \<longleftrightarrow>
     (\<forall>t. jl_numeric_date J t = t div 1000000000 * 1000000000) \<and>
     (\<forall>token secret c. cust token secret = Some c \<longrightarrow> numeric_dates (cc_registered c)) \<and>
     (\<forall>w. V (snd (rt_now rt w)) = V w \<and> V (snd (rt_uuid rt w)) = V w \<and> valid_utf8 (fst (rt_uuid rt w))) \<and>
     signs V custom_text cust (jl_sign_custom J) \<and> signs V registered_text regd (jl_sign_registered J) \<and>
     parses V rt cc_registered cust (jl_parse_custom J) \<and> parses V rt id regd (jl_parse_registered J)"

section \<open>Facts\<close>

lemma jwt_lawD:
  assumes "jwt_law J rt V cust regd"
  shows "jl_numeric_date J t = t div 1000000000 * 1000000000"
    and "V (snd (rt_now rt w)) = V w" and "V (snd (rt_uuid rt w)) = V w" and "valid_utf8 (fst (rt_uuid rt w))"
    and "signs V custom_text cust (jl_sign_custom J)" and "signs V registered_text regd (jl_sign_registered J)"
    and "parses V rt cc_registered cust (jl_parse_custom J)" and "parses V rt id regd (jl_parse_registered J)"
    and "cust token secret = Some c \<Longrightarrow> numeric_dates (cc_registered c)"
  using assms by (simp_all add: jwt_law_def)

lemma parse_custom_reply:
  assumes law: "jwt_law J rt V cust regd" and "jl_parse_custom J token secret [''HS256''] issuer req w = (r, w')"
  shows "V w' = V w \<and> parse_answer (cust token secret) cc_registered (fst (rt_now rt w)) issuer req r"
  using jwt_lawD(7) [OF law, unfolded parses_def, rule_format, of token secret issuer req w] by (simp add: assms(2))

lemma parse_registered_reply:
  assumes law: "jwt_law J rt V cust regd" and "jl_parse_registered J token secret [''HS256''] issuer req w = (r, w')"
  shows "V w' = V w \<and> parse_answer (regd token secret) id (fst (rt_now rt w)) issuer req r"
  using jwt_lawD(8) [OF law, unfolded parses_def, rule_format, of token secret issuer req w] by (simp add: assms(2))

lemma sign_custom_reply:
  assumes law: "jwt_law J rt V cust regd" and "jl_sign_custom J ''HS256'' c secret w = (r, w')"
  shows "V w' = V w \<and> sign_answer (\<lambda>token. cust token secret) (custom_text c) c r"
  using jwt_lawD(5) [OF law, unfolded signs_def, rule_format, of c secret w] by (simp add: assms(2))

lemma sign_registered_reply:
  assumes law: "jwt_law J rt V cust regd" and "jl_sign_registered J ''HS256'' c secret w = (r, w')"
  shows "V w' = V w \<and> sign_answer (\<lambda>token. regd token secret) (registered_text c) c r"
  using jwt_lawD(6) [OF law, unfolded signs_def, rule_format, of c secret w] by (simp add: assms(2))

text \<open>When a login token is accepted, and with which claims.\<close>

definition secret_of :: "jwt_config \<Rightarrow> bool \<Rightarrow> string" where
  "secret_of cfg is_refresh = (if is_refresh then jc_refresh_secret cfg else jc_access_secret cfg)"

definition accepted ::
    "(string \<Rightarrow> string \<Rightarrow> custom_claims option) \<Rightarrow> jwt_config \<Rightarrow> bool \<Rightarrow> int \<Rightarrow> string \<Rightarrow> custom_claims \<Rightarrow> bool" where
  "accepted cust cfg is_refresh now token c \<longleftrightarrow>
     cust token (secret_of cfg is_refresh) = Some c \<and> passes now (jc_issuer cfg) True (cc_registered c)"

lemma accepted_fun: "accepted cust cfg b now token c \<Longrightarrow> accepted cust cfg b now' token c' \<Longrightarrow> c' = c"
  by (simp add: accepted_def)

lemma parse_token_reply:
  assumes law: "jwt_law J rt V cust regd" and run: "parse_token J cfg token is_refresh w = (r, w')"
  shows "V w' = V w \<and> (\<forall>c. r = Inr c \<longleftrightarrow> accepted cust cfg is_refresh (fst (rt_now rt w)) token c)"
proof -
  obtain r1 w1 where r1: "jl_parse_custom J token (secret_of cfg is_refresh) [''HS256''] (jc_issuer cfg) True w = (r1, w1)"
    by fastforce
  then have "r = (case r1 of Inl e \<Rightarrow> Inl e | Inr (c, v) \<Rightarrow> if v then Inr c
      else Inl (ErrorMsg (StoreMsg M_token_invalid_or_expired)))" and "w' = w1"
    using run by (auto simp: parse_token_def secret_of_def Let_def call_def split: prod.splits sum.splits if_splits)
  with parse_custom_reply [OF law r1] show ?thesis
    by (auto simp: parse_answer_def accepted_def split: sum.splits prod.splits if_splits)
qed

lemma accepted_expires:
  "accepted cust cfg is_refresh now token c \<Longrightarrow> \<exists>e. rc_expires_at (cc_registered c) = Some e \<and> now < e"
  by (auto simp: accepted_def passes_def split: option.splits)

text \<open>What a generated token contains.\<close>

definition issued_claims :: "jwt_config \<Rightarrow> int \<Rightarrow> int \<Rightarrow> string \<Rightarrow> u64 \<Rightarrow> string \<Rightarrow> string \<Rightarrow> u64 \<Rightarrow> custom_claims" where
  "issued_claims cfg now expire i uid name role version =
     \<lparr>cc_user_id = uid, cc_username = name, cc_role = role, cc_token_version = version,
      cc_registered = \<lparr>rc_id = i, rc_issuer = jc_issuer cfg, rc_subject = [],
        rc_issued_at = Some (now div 1000000000 * 1000000000),
        rc_not_before = Some (now div 1000000000 * 1000000000),
        rc_expires_at = Some ((now + expire) div 1000000000 * 1000000000)\<rparr>\<rparr>"

lemma generate_token_reply:
  assumes law: "jwt_law J rt V cust regd"
    and run: "generate_token J rt cfg uid name role version secret expire w = (r, w')"
  shows "V w' = V w \<and> (\<exists>i. valid_utf8 i \<and> sign_answer (\<lambda>token. cust token secret)
      (custom_text (issued_claims cfg (fst (rt_now rt w)) expire i uid name role version))
      (issued_claims cfg (fst (rt_now rt w)) expire i uid name role version) r)"
proof -
  let ?w1 = "snd (rt_now rt w)"
  let ?i = "fst (rt_uuid rt ?w1)" and ?w2 = "snd (rt_uuid rt ?w1)"
  let ?c = "issued_claims cfg (fst (rt_now rt w)) expire ?i uid name role version"
  have "jl_sign_custom J ''HS256'' ?c secret ?w2 = (r, w')"
    using run by (simp add: generate_token_def effect_def split_beta issued_claims_def jwt_lawD(1) [OF law])
  from sign_custom_reply [OF law this] jwt_lawD(2-4) [OF law] show ?thesis by auto
qed

text \<open>An agent token is accepted when its subject is a server id other than 0.\<close>

lemma parse_agent_token_reply:
  assumes law: "jwt_law J rt V cust regd" and run: "parse_agent_token J cfg token w = (r, w')"
  shows "V w' = V w \<and> (\<forall>sid. r = Inr sid \<longleftrightarrow>
    sid \<noteq> 0 \<and> (\<exists>c. regd token (jc_agent_secret cfg) = Some c \<and>
      passes (fst (rt_now rt w)) (jc_issuer cfg) False c \<and> parse_uint (rc_subject c) 64 = Inr sid))"
proof -
  obtain r1 w1 where r1: "jl_parse_registered J token (jc_agent_secret cfg) [''HS256''] (jc_issuer cfg) False w = (r1, w1)"
    by fastforce
  then have "r = (case r1 of Inl e \<Rightarrow> Inl e | Inr (c, v) \<Rightarrow>
      if \<not> v then Inl (ErrorMsg (AgentMsg M_agent_token_invalid))
      else (case parse_uint (rc_subject c) 64 of
          Inl e \<Rightarrow> Inl (ErrorMsg (StoreMsg M_agent_subject_invalid))
        | Inr sid \<Rightarrow> if sid = 0 then Inl (ErrorMsg (StoreMsg M_agent_subject_invalid)) else Inr sid))"
    and "w' = w1"
    using run by (auto simp: parse_agent_token_def call_def split: prod.splits sum.splits if_splits)
  with parse_registered_reply [OF law r1] show ?thesis
    by (auto simp: parse_answer_def split: sum.splits prod.splits if_splits)
qed

section \<open>A reference library\<close>

text \<open>
  A library that behaves as \<open>jwt_law\<close> says: a token is the secret and the fields of the claims, each
  written with an escape before every character and a terminator.
\<close>

fun enc_str :: "string \<Rightarrow> string" where
  "enc_str [] = [CHR 0x00]"
| "enc_str (c # cs) = CHR 0x01 # c # enc_str cs"

fun dec_str :: "string \<Rightarrow> (string \<times> string) option" where
  "dec_str [] = None"
| "dec_str (t # cs) =
     (if t = CHR 0x00 then Some ([], cs)
      else case cs of [] \<Rightarrow> None
        | c # cs' \<Rightarrow> (case dec_str cs' of None \<Rightarrow> None | Some (s, r) \<Rightarrow> Some (c # s, r)))"

fun dec_strs :: "nat \<Rightarrow> string \<Rightarrow> string list option" where
  "dec_strs 0 cs = Some []"
| "dec_strs (Suc n) cs =
     (case dec_str cs of None \<Rightarrow> None
      | Some (s, r) \<Rightarrow> (case dec_strs n r of None \<Rightarrow> None | Some ss \<Rightarrow> Some (s # ss)))"

definition enc_time :: "int option \<Rightarrow> string" where
  "enc_time t = (case t of None \<Rightarrow> [] | Some n \<Rightarrow> show_int n)"

lemma dec_enc_str [simp]: "dec_str (enc_str s @ r) = Some (s, r)"
  by (induction s) simp_all

lemma dec_enc_strs [simp]: "dec_strs (length ss) (concat (map enc_str ss)) = Some ss"
proof -
  have "dec_strs (length ss) (concat (map enc_str ss) @ r) = Some ss" for r
    by (induction ss) simp_all
  from this [of "[]"] show ?thesis by simp
qed

lemma read_enc_time [simp]: "read_int (enc_time t) = t"
proof (cases t)
  case None
  have "show_int 0 \<noteq> []" using show_nat_digits [of 0] by (simp add: show_int_def)
  then have "read_int [] = None" by (simp add: read_int_def Let_def)
  with None show ?thesis by (simp add: enc_time_def)
qed (simp add: enc_time_def)

lemma enc_str_nonempty [simp]: "enc_str s \<noteq> []"
  by (cases s) simp_all

definition registered_fields :: "registered_claims \<Rightarrow> string list" where
  "registered_fields c =
     [rc_id c, rc_issuer c, rc_subject c, enc_time (rc_issued_at c), enc_time (rc_not_before c),
      enc_time (rc_expires_at c)]"

fun to_registered :: "string list \<Rightarrow> registered_claims option" where
  "to_registered [i, iss, sub, iat, nbf, exp] =
     (let c = \<lparr>rc_id = i, rc_issuer = iss, rc_subject = sub, rc_issued_at = read_int iat,
        rc_not_before = read_int nbf, rc_expires_at = read_int exp\<rparr>
      in if numeric_dates c then Some c else None)"
| "to_registered _ = None"

definition custom_fields :: "custom_claims \<Rightarrow> string list" where
  "custom_fields c =
     [format_uint (cc_user_id c), cc_username c, cc_role c, format_uint (cc_token_version c)] @
     registered_fields (cc_registered c)"

fun to_custom :: "string list \<Rightarrow> custom_claims option" where
  "to_custom (uid # name # role # version # fs) =
     (case (parse_uint uid 64, parse_uint version 64, to_registered fs) of
        (Inr u, Inr v, Some c) \<Rightarrow>
          Some \<lparr>cc_user_id = u, cc_username = name, cc_role = role, cc_token_version = v, cc_registered = c\<rparr>
      | _ \<Rightarrow> None)"
| "to_custom _ = None"

lemma to_registered_fields [simp]:
  "to_registered (registered_fields c) = (if numeric_dates c then Some c else None)"
  by (cases c) (simp add: registered_fields_def Let_def)

lemma to_custom_fields [simp]:
  "to_custom (custom_fields c) = (if numeric_dates (cc_registered c) then Some c else None)"
  by (simp add: custom_fields_def parse_format_uint)

lemma to_registered_dates: "to_registered fs = Some c \<Longrightarrow> numeric_dates c"
  by (induction fs rule: to_registered.induct) (auto simp: Let_def split: if_splits)

lemma to_custom_dates: "to_custom fs = Some c \<Longrightarrow> numeric_dates (cc_registered c)"
  by (induction fs rule: to_custom.induct) (auto split: sum.splits option.splits intro: to_registered_dates)

definition ref_token :: "string \<Rightarrow> string list \<Rightarrow> string" where
  "ref_token secret fs = concat (map enc_str (secret # fs))"

definition ref_content :: "nat \<Rightarrow> (string list \<Rightarrow> 'c option) \<Rightarrow> string \<Rightarrow> string \<Rightarrow> 'c option" where
  "ref_content n of_fields token secret =
     (case dec_strs n token of Some (k # fs) \<Rightarrow> if k = secret then of_fields fs else None | _ \<Rightarrow> None)"

definition ref_custom :: "string \<Rightarrow> string \<Rightarrow> custom_claims option" where
  "ref_custom = ref_content 11 to_custom"

definition ref_registered :: "string \<Rightarrow> string \<Rightarrow> registered_claims option" where
  "ref_registered = ref_content 7 to_registered"

definition ref_parse :: "'w runtime \<Rightarrow> ('c \<Rightarrow> registered_claims) \<Rightarrow> (string \<Rightarrow> string \<Rightarrow> 'c option) \<Rightarrow>
    string \<Rightarrow> string \<Rightarrow> string list \<Rightarrow> string \<Rightarrow> bool \<Rightarrow> ('w, 'c \<times> bool) go" where
  "ref_parse rt reg content token secret methods issuer req w =
     (case content token secret of
        Some c \<Rightarrow>
          if passes (fst (rt_now rt w)) issuer req (reg c) then (Inr (c, True), w)
          else (Inl (LibError ''token has invalid claims''), w)
      | None \<Rightarrow> (Inl (LibError ''token signature is invalid''), w))"

definition ref_jwt :: "'w runtime \<Rightarrow> 'w jwt_lib" where
  "ref_jwt rt =
     \<lparr>jl_numeric_date = (\<lambda>t. t div 1000000000 * 1000000000),
      jl_sign_custom = (\<lambda>alg c secret. ret (ref_token secret (custom_fields c))),
      jl_sign_registered = (\<lambda>alg c secret. ret (ref_token secret (registered_fields c))),
      jl_parse_custom = ref_parse rt cc_registered ref_custom,
      jl_parse_registered = ref_parse rt id ref_registered\<rparr>"

lemma ref_parse_answer:
  "snd (ref_parse rt reg content token secret methods issuer req w) = w \<and>
   parse_answer (content token secret) reg (fst (rt_now rt w)) issuer req
     (fst (ref_parse rt reg content token secret methods issuer req w))"
  by (auto simp: ref_parse_def parse_answer_def split: option.split)

lemma ref_sign_answer:
  assumes "utf8 \<longrightarrow> of_strs (to_strs c) = Some c" and "Suc (length (to_strs c)) = n"
  shows "sign_answer (\<lambda>token. ref_content n of_strs token secret) utf8 c (Inr (ref_token secret (to_strs c)))"
  using dec_enc_strs [of "secret # to_strs c"] assms
  by (simp add: sign_answer_def ref_content_def ref_token_def)

lemma ref_jwt_law:
  assumes "\<forall>w. V (snd (rt_now rt w)) = V w \<and> V (snd (rt_uuid rt w)) = V w \<and> valid_utf8 (fst (rt_uuid rt w))"
  shows "jwt_law (ref_jwt rt) rt V ref_custom ref_registered"
proof -
  have "sign_answer (\<lambda>token. ref_custom token secret) (custom_text c) c (Inr (ref_token secret (custom_fields c)))"
    for secret c
    unfolding ref_custom_def
    by (rule ref_sign_answer)
      (simp add: custom_text_def registered_text_def, simp add: custom_fields_def registered_fields_def)
  moreover have "sign_answer (\<lambda>token. ref_registered token secret) (registered_text c) c
      (Inr (ref_token secret (registered_fields c)))" for secret c
    unfolding ref_registered_def
    by (rule ref_sign_answer) (simp add: registered_text_def, simp add: registered_fields_def)
  moreover have "numeric_dates (cc_registered c)" if "ref_custom token secret = Some c" for token secret c
    using that to_custom_dates
    by (auto simp: ref_custom_def ref_content_def split: option.splits list.splits if_splits)
  ultimately show ?thesis
    using assms by (simp add: jwt_law_def ref_jwt_def parses_def signs_def ref_parse_answer ret_def)
qed

lemma valid_utf8_digits: "list_all is_digit s \<Longrightarrow> valid_utf8 s"
  by (rule ascii_valid_utf8, induction s) (simp_all add: is_digit_def in_range_def)

section \<open>Properties\<close>

text \<open>C38 A login token and its reading fit together: what \<open>GenerateAccessToken\<close> or \<open>GenerateRefreshToken\<close> has
  issued, \<open>ParseToken\<close> of the same kind accepts at every time from its issue, cut to the second, to just
  before its expiry, cut to the second, and at no other time; and what it reads are the user id, the
  name, the role and the token version the token was issued for.\<close>

theorem login_token_roundtrip:
  assumes law: "jwt_law J rt V cust regd"
    and utf8: "valid_utf8 name" "valid_utf8 role" "valid_utf8 (jc_issuer cfg)"
    and issue: "(if is_refresh then generate_refresh_token J rt cfg uid name role version w
      else generate_access_token J rt cfg uid name role version w) = (Inr token, w1)"
    and expire: "expire = (if is_refresh then jc_refresh_expire cfg else jc_access_expire cfg)"
    and start: "start = fst (rt_now rt w) div 1000000000 * 1000000000"
    and finish: "finish = (fst (rt_now rt w) + expire) div 1000000000 * 1000000000"
    and now: "now = fst (rt_now rt w2)"
  shows "((\<exists>c. fst (parse_token J cfg token is_refresh w2) = Inr c) \<longleftrightarrow> start \<le> now \<and> now < finish) \<and>
    (\<forall>c. fst (parse_token J cfg token is_refresh w2) = Inr c \<longrightarrow>
      cc_user_id c = uid \<and> cc_username c = name \<and> cc_role c = role \<and> cc_token_version c = version)"
proof -
  have run: "generate_token J rt cfg uid name role version (secret_of cfg is_refresh) expire w = (Inr token, w1)"
    using issue expire
    by (simp add: generate_refresh_token_def generate_access_token_def secret_of_def split: if_splits)
  obtain i where i: "valid_utf8 i" and
    content: "custom_text (issued_claims cfg (fst (rt_now rt w)) expire i uid name role version) \<longrightarrow>
      cust token (secret_of cfg is_refresh) = Some (issued_claims cfg (fst (rt_now rt w)) expire i uid name role version)"
    using generate_token_reply [OF law run] by (auto simp: sign_answer_def)
  obtain r w3 where r: "parse_token J cfg token is_refresh w2 = (r, w3)" by fastforce
  show ?thesis
    using content i utf8 parse_token_reply [OF law r] start finish now
    by (auto simp: r accepted_def passes_def issued_claims_def custom_text_def registered_text_def numeric_dates_def whole_second_def)
qed

definition sample_runtime :: "rstore runtime" where
  "sample_runtime = \<lparr>rt_now = (\<lambda>s. (rs_us s * 1000, s)), rt_uuid = (\<lambda>s. (''u'', s))\<rparr>"

lemma sample_runtime_simps [simp]:
  "rt_now sample_runtime s = (rs_us s * 1000, s)" "rt_uuid sample_runtime s = (''u'', s)"
  by (simp_all add: sample_runtime_def)

definition sample_cfg :: jwt_config where
  "sample_cfg = \<lparr>jc_access_secret = ''a'', jc_access_expire = seconds 900, jc_refresh_secret = ''r'',
     jc_refresh_expire = seconds 3600, jc_agent_secret = ''g'', jc_issuer = ''p''\<rparr>"

lemma sample_jwt_law: "jwt_law (ref_jwt sample_runtime) sample_runtime (\<lambda>s. s) ref_custom ref_registered"
proof (rule ref_jwt_law)
  have "valid_utf8 ''u''" by code_simp
  then show "\<forall>w. snd (rt_now sample_runtime w) = w \<and> snd (rt_uuid sample_runtime w) = w \<and>
      valid_utf8 (fst (rt_uuid sample_runtime w))"
    by simp
qed

definition at_us :: "int \<Rightarrow> rstore" where
  "at_us t = \<lparr>rs_us = t, rs_data = (\<lambda>_. None)\<rparr>"

theorem login_token_roundtrip_witness:
  "\<exists>token. generate_access_token (ref_jwt sample_runtime) sample_runtime sample_cfg 7 ''n'' ''user'' 2 (at_us 0) =
      (Inr token, at_us 0) \<and>
    (\<exists>c. fst (parse_token (ref_jwt sample_runtime) sample_cfg token False (at_us 899999999)) = Inr c) \<and>
    \<not> (\<exists>c. fst (parse_token (ref_jwt sample_runtime) sample_cfg token False (at_us 900000000)) = Inr c)"
proof -
  obtain token where t: "generate_access_token (ref_jwt sample_runtime) sample_runtime sample_cfg 7 ''n'' ''user'' 2 (at_us 0) =
      (Inr token, at_us 0)"
    by (simp add: generate_access_token_def generate_token_def effect_def ref_jwt_def ret_def)
  have utf8: "valid_utf8 ''n''" "valid_utf8 ''user''" "valid_utf8 (jc_issuer sample_cfg)" by code_simp+
  note use = login_token_roundtrip [OF sample_jwt_law utf8, where is_refresh = False, simplified if_False, OF t refl refl refl refl]
  show ?thesis
    using t use [of "at_us 899999999"] use [of "at_us 900000000"]
    by (simp add: at_us_def sample_cfg_def seconds_def)
qed

lemma agent_token_reads:
  assumes law: "jwt_law J rt V cust regd" and utf8: "valid_utf8 (jc_issuer cfg)"
    and gen: "generate_agent_token J cfg sid w = (Inr token, w1)"
  shows "sid \<noteq> 0 \<and> fst (parse_agent_token J cfg token w2) = Inr sid"
proof -
  let ?c = "\<lparr>rc_id = [], rc_issuer = jc_issuer cfg, rc_subject = format_uint sid, rc_issued_at = None,
         rc_not_before = None, rc_expires_at = None\<rparr>"
  from gen have sid: "sid \<noteq> 0" and run: "jl_sign_registered J ''HS256'' ?c (jc_agent_secret cfg) w = (Inr token, w1)"
    by (auto simp: generate_agent_token_def split: if_splits)
  have ascii: "valid_utf8 (format_uint sid)"
    using show_nat_digits [of "unat sid"] by (simp add: format_uint_def valid_utf8_digits)
  obtain r w3 where r: "parse_agent_token J cfg token w2 = (r, w3)" by fastforce
  have "regd token (jc_agent_secret cfg) = Some ?c"
    using sign_registered_reply [OF law run] utf8 ascii by (simp add: sign_answer_def registered_text_def numeric_dates_def whole_second_def)
  with parse_agent_token_reply [OF law r] sid show "sid \<noteq> 0 \<and> fst (parse_agent_token J cfg token w2) = Inr sid"
    by (simp add: r passes_def parse_format_uint)
qed

text \<open>Agent tokens: the token \<open>GenerateAgentToken\<close> issues for a server is read back as that server's id at
  any later time, since it does not expire; id 0 gets no token, and no token whatever reads as id 0.\<close>

theorem agent_token_roundtrip:
  assumes law: "jwt_law J rt V cust regd" and utf8: "valid_utf8 (jc_issuer cfg)"
  shows "(generate_agent_token J cfg sid w = (Inr token, w1) \<longrightarrow>
      sid \<noteq> 0 \<and> fst (parse_agent_token J cfg token w2) = Inr sid) \<and>
    fst (parse_agent_token J cfg any w2) \<noteq> Inr 0"
proof
  obtain r w3 where r: "parse_agent_token J cfg any w2 = (r, w3)" by fastforce
  from parse_agent_token_reply [OF law r] show "fst (parse_agent_token J cfg any w2) \<noteq> Inr 0" by (simp add: r)
qed (use agent_token_reads [OF law utf8] in blast)

theorem agent_token_roundtrip_witness:
  "\<exists>token. generate_agent_token (ref_jwt sample_runtime) sample_cfg 7 (at_us 0) = (Inr token, at_us 0) \<and>
     fst (parse_agent_token (ref_jwt sample_runtime) sample_cfg token (at_us 99)) = Inr 7"
proof -
  obtain token where t: "generate_agent_token (ref_jwt sample_runtime) sample_cfg 7 (at_us 0) = (Inr token, at_us 0)"
    by (simp add: generate_agent_token_def ref_jwt_def ret_def)
  have "valid_utf8 (jc_issuer sample_cfg)" by code_simp
  from agent_token_roundtrip [OF sample_jwt_law this, of 7 "at_us 0" token "at_us 0" "at_us 99"] t show ?thesis
    by blast
qed

end
