(* ===== verification/JsonText.thy ===== *)
theory JsonText
  imports Protocol
begin

text \<open>
  JSON texts, as \<open>encoding/json\<close> reads and writes them: a scanner for the grammar of RFC 8259
  (white space, literals, numbers, strings with escapes, arrays, objects) that yields a
  document, and the texts of the documents the program stores. The program keeps JSON as text
  in Redis (the data of a reset token) and in a database column (the mods of a save).
\<close>

section \<open>Scanning\<close>

definition is_ws :: "char \<Rightarrow> bool" where
  "is_ws c \<longleftrightarrow> c = CHR '' '' \<or> c = CHR 0x09 \<or> c = CHR 0x0A \<or> c = CHR 0x0D"

definition skip_ws :: "string \<Rightarrow> string" where
  "skip_ws s = dropWhile is_ws s"

definition scan_int :: "string \<Rightarrow> (string \<times> string) option" where
  "scan_int s =
     (case s of
        [] \<Rightarrow> None
      | c # cs \<Rightarrow>
          if c = CHR ''0'' then Some ([c], cs)
          else if is_digit c then Some (takeWhile is_digit s, dropWhile is_digit s) else None)"

definition scan_frac :: "string \<Rightarrow> (string \<times> string) option" where
  "scan_frac s =
     (case s of
        [] \<Rightarrow> Some ([], s)
      | c # cs \<Rightarrow>
          if c \<noteq> CHR ''.'' then Some ([], s)
          else if takeWhile is_digit cs = [] then None
          else Some (c # takeWhile is_digit cs, dropWhile is_digit cs))"

definition scan_exp :: "string \<Rightarrow> (string \<times> string) option" where
  "scan_exp s =
     (case s of
        [] \<Rightarrow> Some ([], s)
      | c # cs \<Rightarrow>
          if c \<noteq> CHR ''e'' \<and> c \<noteq> CHR ''E'' then Some ([], s)
          else
            let sign = takeWhile (\<lambda>d. d = CHR ''+'' \<or> d = CHR ''-'') (take 1 cs);
                ds = drop (length sign) cs
            in if takeWhile is_digit ds = [] then None
               else Some (c # sign @ takeWhile is_digit ds, dropWhile is_digit ds))"

text \<open>A number without fraction and exponent is an integer literal.\<close>

definition scan_number :: "string \<Rightarrow> (json \<times> string) option" where
  "scan_number s =
     (let neg = (s \<noteq> [] \<and> hd s = CHR ''-''); s1 = (if neg then tl s else s) in
      case scan_int s1 of
        None \<Rightarrow> None
      | Some (i, s2) \<Rightarrow>
          (case scan_frac s2 of
             None \<Rightarrow> None
           | Some (f, s3) \<Rightarrow>
               (case scan_exp s3 of
                  None \<Rightarrow> None
                | Some (e, s4) \<Rightarrow>
                    Some (if f = [] \<and> e = []
                          then JInt (if neg then - int (dec_value 0 i) else int (dec_value 0 i))
                          else JNumber ((if neg then ''-'' else []) @ i @ f @ e), s4))))"

fun hex4 :: "string \<Rightarrow> nat option" where
  "hex4 (a # b # c # d # _) =
     (case (hex_val a, hex_val b, hex_val c, hex_val d) of
        (Some i, Some j, Some k, Some l) \<Rightarrow> Some (4096 * i + 256 * j + 16 * k + l)
      | _ \<Rightarrow> None)"
| "hex4 _ = None"

definition encode_rune :: "nat \<Rightarrow> string" where
  "encode_rune n =
     (if n < 0x80 then [char_of n]
      else if n < 0x800 then [char_of (0xC0 + n div 64), char_of (0x80 + n mod 64)]
      else if n < 0x10000 then
        [char_of (0xE0 + n div 4096), char_of (0x80 + n div 64 mod 64), char_of (0x80 + n mod 64)]
      else
        [char_of (0xF0 + n div 262144), char_of (0x80 + n div 4096 mod 64),
         char_of (0x80 + n div 64 mod 64), char_of (0x80 + n mod 64)])"

definition surrogate :: "nat \<Rightarrow> bool" where
  "surrogate n \<longleftrightarrow> 0xD800 \<le> n \<and> n < 0xE000"

text \<open>
  The code point of an escape at the head of \<open>s\<close> (after the backslash), and how many
  characters it takes. A surrogate that is not the first half of a pair stands for U+FFFD.
\<close>

definition scan_unicode :: "string \<Rightarrow> (string \<times> nat) option" where
  "scan_unicode s =
     (case hex4 s of
        None \<Rightarrow> None
      | Some n \<Rightarrow>
          if \<not> surrogate n then Some (encode_rune n, 4)
          else
            (case (take 2 (drop 4 s) = [CHR 0x5C, CHR ''u''], hex4 (drop 6 s)) of
               (True, Some m) \<Rightarrow>
                 if n < 0xDC00 \<and> 0xDC00 \<le> m \<and> m < 0xE000
                 then Some (encode_rune ((n - 0xD800) * 0x400 + (m - 0xDC00) + 0x10000), 10)
                 else Some (encode_rune 0xFFFD, 4)
             | _ \<Rightarrow> Some (encode_rune 0xFFFD, 4)))"

definition simple_escape :: "char \<Rightarrow> char option" where
  "simple_escape c =
     map_of [(CHR 0x22, CHR 0x22), (CHR 0x5C, CHR 0x5C), (CHR ''/'', CHR ''/''), (CHR ''b'', CHR 0x08),
             (CHR ''f'', CHR 0x0C), (CHR ''n'', CHR 0x0A), (CHR ''r'', CHR 0x0D), (CHR ''t'', CHR 0x09)] c"

text \<open>The rest of a string after its opening quote: its bytes, and what follows the closing one.\<close>

function scan_chars :: "string \<Rightarrow> (string \<times> string) option" where
  "scan_chars s =
     (case s of
        [] \<Rightarrow> None
      | c # cs \<Rightarrow>
          if c = CHR 0x22 then Some ([], cs)
          else if in_range 0 0x1F c then None
          else if c \<noteq> CHR 0x5C then
            (case scan_chars cs of None \<Rightarrow> None | Some (t, r) \<Rightarrow> Some (c # t, r))
          else
            (case cs of
               [] \<Rightarrow> None
             | e # es \<Rightarrow>
                 (case simple_escape e of
                    Some b \<Rightarrow> (case scan_chars es of None \<Rightarrow> None | Some (t, r) \<Rightarrow> Some (b # t, r))
                  | None \<Rightarrow>
                      if e \<noteq> CHR ''u'' then None
                      else
                        (case scan_unicode es of
                           None \<Rightarrow> None
                         | Some (u, n) \<Rightarrow>
                             (case scan_chars (drop n es) of
                                None \<Rightarrow> None | Some (t, r) \<Rightarrow> Some (u @ t, r))))))"
  by pat_completeness auto
termination
  by (relation "measure length") auto

declare scan_chars.simps [simp del]

definition scan_string :: "string \<Rightarrow> (string \<times> string) option" where
  "scan_string s = (case scan_chars s of None \<Rightarrow> None | Some (t, r) \<Rightarrow> Some (utf8_coerce t, r))"

definition scan_literal :: "string \<Rightarrow> (json \<times> string) option" where
  "scan_literal s =
     (if starts_with ''null'' s then Some (JNull, drop 4 s)
      else if starts_with ''true'' s then Some (JBool True, drop 4 s)
      else if starts_with ''false'' s then Some (JBool False, drop 5 s) else None)"

section \<open>Documents\<close>

text \<open>
  A value, the members of an object after its brace, the elements of an array after its
  bracket. The comparisons of lengths are always true, they make the recursion well founded.
\<close>

function scan_value :: "string \<Rightarrow> (json \<times> string) option"
  and scan_members :: "string \<Rightarrow> ((string \<times> json) list \<times> string) option"
  and scan_elements :: "string \<Rightarrow> (json list \<times> string) option"
where
  "scan_value s =
     (case skip_ws s of
        [] \<Rightarrow> None
      | c # cs \<Rightarrow>
          if c = CHR 0x22 then (case scan_string cs of None \<Rightarrow> None | Some (t, r) \<Rightarrow> Some (JStr t, r))
          else if c = CHR ''{'' then
            (if skip_ws cs \<noteq> [] \<and> hd (skip_ws cs) = CHR ''}'' then Some (JObj [], tl (skip_ws cs))
             else if length cs < length s then
               (case scan_members cs of None \<Rightarrow> None | Some (ms, r) \<Rightarrow> Some (JObj ms, r))
             else None)
          else if c = CHR ''['' then
            (if skip_ws cs \<noteq> [] \<and> hd (skip_ws cs) = CHR '']'' then Some (JArr [], tl (skip_ws cs))
             else if length cs < length s then
               (case scan_elements cs of None \<Rightarrow> None | Some (es, r) \<Rightarrow> Some (JArr es, r))
             else None)
          else if c = CHR ''-'' \<or> is_digit c then scan_number (c # cs)
          else scan_literal (c # cs))"
| "scan_members s =
     (case skip_ws s of
        [] \<Rightarrow> None
      | c # cs \<Rightarrow>
          if c \<noteq> CHR 0x22 then None
          else
            (case scan_string cs of
               None \<Rightarrow> None
             | Some (k, r1) \<Rightarrow>
                 (case skip_ws r1 of
                    [] \<Rightarrow> None
                  | d # ds \<Rightarrow>
                      if d \<noteq> CHR '':'' \<or> \<not> length ds < length s then None
                      else
                        (case scan_value ds of
                           None \<Rightarrow> None
                         | Some (v, r2) \<Rightarrow>
                             (case skip_ws r2 of
                                [] \<Rightarrow> None
                              | e # es \<Rightarrow>
                                  if e = CHR ''}'' then Some ([(k, v)], es)
                                  else if e = CHR '','' \<and> length es < length s then
                                    (case scan_members es of
                                       None \<Rightarrow> None | Some (ms, r) \<Rightarrow> Some ((k, v) # ms, r))
                                  else None)))))"
| "scan_elements s =
     (case scan_value s of
        None \<Rightarrow> None
      | Some (v, r1) \<Rightarrow>
          (case skip_ws r1 of
             [] \<Rightarrow> None
           | c # cs \<Rightarrow>
               if c = CHR '']'' then Some ([v], cs)
               else if c = CHR '','' \<and> length cs < length s then
                 (case scan_elements cs of None \<Rightarrow> None | Some (vs, r) \<Rightarrow> Some (v # vs, r))
               else None))"
  by pat_completeness auto
termination
  by (relation "measure (\<lambda>x. case x of
        Inl s \<Rightarrow> 2 * length s
      | Inr (Inl s) \<Rightarrow> 2 * length s + 1
      | Inr (Inr s) \<Rightarrow> 2 * length s + 1)") auto

declare scan_value.simps [simp del] scan_members.simps [simp del] scan_elements.simps [simp del]

text \<open>\<open>json.Unmarshal\<close> checks that the whole text is one document.\<close>

definition parse_json :: "string \<Rightarrow> go_err + json" where
  "parse_json s =
     (case scan_value s of
        None \<Rightarrow> Inl json_syntax_error
      | Some (j, r) \<Rightarrow> if skip_ws r = [] then Inr j else Inl json_syntax_error)"

text \<open>Decoding into a \<open>uint64\<close> field.\<close>

fun dec_uint :: "json \<Rightarrow> u64 \<Rightarrow> go_err + u64" where
  "dec_uint (JInt i) _ = (if 0 \<le> i \<and> i < 2 ^ 64 then Inr (of_int i) else Inl json_type_error)"
| "dec_uint JNull old = Inr old"
| "dec_uint _ _ = Inl json_type_error"

section \<open>Lemmas\<close>

lemma digits_run:
  assumes "list_all is_digit ds" and "r = [] \<or> \<not> is_digit (hd r)"
  shows "takeWhile is_digit (ds @ r) = ds" and "dropWhile is_digit (ds @ r) = r"
proof -
  have "takeWhile is_digit r = []" "dropWhile is_digit r = r"
    using assms(2) by (cases r; auto)+
  with assms(1) show "takeWhile is_digit (ds @ r) = ds" "dropWhile is_digit (ds @ r) = r"
    by (auto simp: list_all_iff takeWhile_append2 dropWhile_append2)
qed

lemma show_nat_hd: "show_nat n = CHR ''0'' # cs \<Longrightarrow> n = 0 \<and> cs = []"
proof (induction n arbitrary: cs rule: show_nat.induct)
  case (1 n)
  show ?case
  proof (cases "n < 10")
    case True
    with "1.prems" have "char_of (48 + n) = CHR ''0''" and cs: "cs = []"
      by (subst (asm) show_nat.simps; simp)+
    then have "(of_char (char_of (48 + n) :: char) :: nat) = of_char (CHR ''0'')" by simp
    then have "(48 + n) mod 256 = 48" by simp
    with True have "n = 0" by simp
    with cs show ?thesis by simp
  next
    case False
    obtain c ds where ds: "show_nat (n div 10) = c # ds"
      using show_nat_digits [of "n div 10"] by (cases "show_nat (n div 10)") auto
    with "1.prems" False have "c = CHR ''0''" by (subst (asm) show_nat.simps) simp
    with "1.IH" [OF False] ds have "n div 10 = 0" by blast
    with False show ?thesis by auto
  qed
qed

text \<open>A decimal numeral, followed by something that does not continue a number.\<close>

definition ends_number :: "string \<Rightarrow> bool" where
  "ends_number r \<longleftrightarrow>
     r = [] \<or> \<not> is_digit (hd r) \<and> hd r \<noteq> CHR ''.'' \<and> hd r \<noteq> CHR ''e'' \<and> hd r \<noteq> CHR ''E''"

lemma scan_show_nat:
  assumes "ends_number r"
  shows "scan_value (show_nat n @ r) = Some (JInt (int n), r)"
proof -
  obtain c ds where n: "show_nat n = c # ds" and digits: "list_all is_digit (c # ds)"
    and val: "dec_value 0 (c # ds) = n"
    using show_nat_digits [of n] by (cases "show_nat n") auto
  have c: "is_digit c" using digits by simp
  have no: "\<not> is_digit (CHR 0x22)" "\<not> is_digit (CHR ''{'')" "\<not> is_digit (CHR ''['')" "\<not> is_digit (CHR ''-'')"
    "\<not> is_ws c"
    using c by (auto simp: is_digit_def is_ws_def)
  have run: "scan_int (c # ds @ r) = Some (c # ds, r)"
  proof (cases "c = CHR ''0''")
    case True
    then have "ds = []" using n show_nat_hd by blast
    with True show ?thesis by (simp add: scan_int_def)
  next
    case False
    with c digits_run [OF digits, of r] assms show ?thesis
      by (auto simp: scan_int_def ends_number_def)
  qed
  have frac: "scan_frac r = Some ([], r)" "scan_exp r = Some ([], r)"
    using assms by (cases r; auto simp: scan_frac_def scan_exp_def ends_number_def)+
  have neg: "c \<noteq> CHR ''-''" "c \<noteq> CHR 0x22" "c \<noteq> CHR ''{''" "c \<noteq> CHR ''[''" using c no by metis+
  have "skip_ws (c # ds @ r) = c # ds @ r" using no(5) by (simp add: skip_ws_def)
  then show ?thesis
    unfolding n using c neg run frac val
    by (subst scan_value.simps) (simp add: scan_number_def)
qed

text \<open>A string without quotes, escapes and control characters.\<close>

definition plain_char :: "char \<Rightarrow> bool" where
  "plain_char c \<longleftrightarrow> c \<noteq> CHR 0x22 \<and> c \<noteq> CHR 0x5C \<and> in_range 0x20 0x7F c"

lemma scan_plain_chars: "list_all plain_char t \<Longrightarrow> scan_chars (t @ CHR 0x22 # r) = Some (t, r)"
proof (induction t)
  case Nil
  then show ?case by (subst scan_chars.simps) simp
next
  case (Cons c t)
  then have "c \<noteq> CHR 0x22" "c \<noteq> CHR 0x5C" "\<not> in_range 0 0x1F c"
    by (auto simp: plain_char_def in_range_def)
  with Cons show ?case by (subst scan_chars.simps) simp
qed

lemma scan_plain_string:
  assumes "list_all plain_char t" shows "scan_string (t @ CHR 0x22 # r) = Some (t, r)"
proof -
  have "list_all (in_range 0 0x7F) t"
    using assms by (auto simp: list_all_iff plain_char_def in_range_def)
  then show ?thesis
    using ascii_valid_utf8 scan_plain_chars [OF assms] by (simp add: scan_string_def valid_utf8_def)
qed

end
