(* ===== verification/AuthCache.thy ===== *)
theory AuthCache
  imports Window JsonText
begin

text \<open>
  The token blacklist and the password reset tokens in Redis,
  \<open>src/internal/repository/cache/auth_cache.go\<close>. A refresh token is consumed by the same
  key that marks a token as revoked.
\<close>

section \<open>Operations\<close>

definition token_blacklist_prefix :: string where
  "token_blacklist_prefix = ''token_blacklist:''"

definition reset_token_prefix :: string where
  "reset_token_prefix = ''reset_token:''"

record reset_token_data =
  rd_user_id :: u64
  rd_token_version :: u64

record 'w auth_cache =
  tc_add_token_to_blacklist :: "string \<Rightarrow> int \<Rightarrow> ('w, unit) go"
  tc_is_token_in_blacklist :: "string \<Rightarrow> ('w, bool) go"
  tc_consume_refresh_token :: "string \<Rightarrow> int \<Rightarrow> ('w, bool) go"
  tc_set_reset_token :: "string \<Rightarrow> u64 \<Rightarrow> u64 \<Rightarrow> int \<Rightarrow> ('w, unit) go"
  tc_get_reset_token :: "string \<Rightarrow> ('w, reset_token_data option) go"
  tc_del_reset_token :: "string \<Rightarrow> ('w, unit) go"

definition add_token_to_blacklist :: "'w redis \<Rightarrow> string \<Rightarrow> int \<Rightarrow> ('w, unit) go" where
  "add_token_to_blacklist R token ttl = rd_set R (token_blacklist_prefix @ token) ''1'' ttl"

definition is_token_in_blacklist :: "'w redis \<Rightarrow> string \<Rightarrow> ('w, bool) go" where
  "is_token_in_blacklist R token =
     call (rd_exists R (token_blacklist_prefix @ token)) fail (\<lambda>n. ret (0 < n))"

definition consume_refresh_token :: "'w redis \<Rightarrow> string \<Rightarrow> int \<Rightarrow> ('w, bool) go" where
  "consume_refresh_token R token ttl =
     (if token = [] then fail (ErrorMsg (StoreMsg M_refresh_cache_empty))
      else if ttl \<le> 0 then fail (ErrorMsg (StoreMsg M_refresh_cache_expired))
      else
        call (rd_setnx R (token_blacklist_prefix @ token) ''1'' ttl)
          (\<lambda>e. fail (Wrapped (StoreMsg M_refresh_consume_failed) e))
          ret)"

text \<open>The text of a \<open>ResetTokenData\<close>, by its field tags.\<close>

definition marshal_reset_data :: "reset_token_data \<Rightarrow> string" where
  "marshal_reset_data d =
     [CHR ''{'', CHR 0x22] @ ''userID'' @ [CHR 0x22, CHR '':''] @ format_uint (rd_user_id d) @
     [CHR '','', CHR 0x22] @ ''tokenVersion'' @ [CHR 0x22, CHR '':''] @ format_uint (rd_token_version d) @
     ''}''"

definition unmarshal_reset_data :: "json \<Rightarrow> go_err + reset_token_data" where
  "unmarshal_reset_data =
     dec_struct [''userID'', ''tokenVersion'']
       (\<lambda>n v d.
          if n = ''userID'' then upd_field (\<lambda>i. d\<lparr>rd_user_id := i\<rparr>) (dec_uint v (rd_user_id d))
          else upd_field (\<lambda>i. d\<lparr>rd_token_version := i\<rparr>) (dec_uint v (rd_token_version d)))
       \<lparr>rd_user_id = 0, rd_token_version = 0\<rparr>"

definition set_reset_token :: "'w redis \<Rightarrow> string \<Rightarrow> u64 \<Rightarrow> u64 \<Rightarrow> int \<Rightarrow> ('w, unit) go" where
  "set_reset_token R token uid version ttl =
     rd_set R (reset_token_prefix @ token)
       (marshal_reset_data \<lparr>rd_user_id = uid, rd_token_version = version\<rparr>) ttl"

definition get_reset_token :: "'w redis \<Rightarrow> string \<Rightarrow> ('w, reset_token_data option) go" where
  "get_reset_token R token =
     call (rd_get R (reset_token_prefix @ token))
       (\<lambda>e. if errors_is e RedisNil then ret None else fail (Wrapped (StoreMsg M_reset_read_failed) e))
       (\<lambda>val.
          case parse_json val of
            Inl e \<Rightarrow> fail e
          | Inr j \<Rightarrow> (case unmarshal_reset_data j of Inl e \<Rightarrow> fail e | Inr d \<Rightarrow> ret (Some d)))"

definition del_reset_token :: "'w redis \<Rightarrow> string \<Rightarrow> ('w, unit) go" where
  "del_reset_token R token = rd_del R (reset_token_prefix @ token)"

definition new_auth_cache :: "'w redis \<Rightarrow> 'w auth_cache" where
  "new_auth_cache R =
     \<lparr>tc_add_token_to_blacklist = add_token_to_blacklist R,
      tc_is_token_in_blacklist = is_token_in_blacklist R,
      tc_consume_refresh_token = consume_refresh_token R,
      tc_set_reset_token = set_reset_token R,
      tc_get_reset_token = get_reset_token R,
      tc_del_reset_token = del_reset_token R\<rparr>"

section \<open>Reset data\<close>

lemma scan_field:
  assumes "list_all plain_char k" and "ends_number r"
  shows "scan_string (k @ CHR 0x22 # CHR '':'' # show_nat n @ r) = Some (k, CHR '':'' # show_nat n @ r)"
    and "scan_value (show_nat n @ r) = Some (JInt (int n), r)"
  using scan_plain_string [OF assms(1)] scan_show_nat [OF assms(2)] by simp_all

lemma scan_reset_data:
  "scan_value (marshal_reset_data d) =
     Some (JObj [(''userID'', JInt (int (unat (rd_user_id d)))),
                 (''tokenVersion'', JInt (int (unat (rd_token_version d))))], [])"
proof -
  let ?u = "show_nat (unat (rd_user_id d))" and ?v = "show_nat (unat (rd_token_version d))"
  let ?tail = "CHR 0x22 # ''tokenVersion'' @ CHR 0x22 # CHR '':'' # ?v @ ''}''"
  have plain: "list_all plain_char ''userID''" "list_all plain_char ''tokenVersion''" by code_simp+
  have ends: "ends_number ''}''" "ends_number (CHR '','' # ?tail)"
    by (simp_all add: ends_number_def is_digit_def)
  have ws: "skip_ws (CHR 0x22 # s) = CHR 0x22 # s" "skip_ws (CHR '':'' # s) = CHR '':'' # s"
    "skip_ws (CHR '','' # s) = CHR '','' # s" "skip_ws (CHR ''}'' # s) = CHR ''}'' # s"
    "skip_ws (CHR ''{'' # s) = CHR ''{'' # s" for s
    by (simp_all add: skip_ws_def is_ws_def)
  have second: "scan_members ?tail = Some ([(''tokenVersion'', JInt (int (unat (rd_token_version d))))], [])"
    using scan_field [OF plain(2) ends(1), of "unat (rd_token_version d)"]
    by (subst scan_members.simps) (simp add: ws)
  have "scan_members (CHR 0x22 # ''userID'' @ CHR 0x22 # CHR '':'' # ?u @ CHR '','' # ?tail) =
      Some ([(''userID'', JInt (int (unat (rd_user_id d)))),
             (''tokenVersion'', JInt (int (unat (rd_token_version d))))], [])"
    using scan_field [OF plain(1) ends(2), of "unat (rd_user_id d)"] second
    by (subst scan_members.simps) (simp add: ws)
  then show ?thesis
    by (subst scan_value.simps) (simp add: marshal_reset_data_def format_uint_def ws)
qed

lemma reset_data_roundtrip_lib:
  "\<exists>j. parse_json (marshal_reset_data d) = Inr j \<and> unmarshal_reset_data j = Inr d"
proof -
  have "parse_json (marshal_reset_data d) =
      Inr (JObj [(''userID'', JInt (int (unat (rd_user_id d)))),
                 (''tokenVersion'', JInt (int (unat (rd_token_version d))))])"
    by (simp add: parse_json_def scan_reset_data skip_ws_def)
  moreover have "int (unat w) < 2 ^ 64" for w :: u64
    using unsigned_less [of w] by simp
  ultimately show ?thesis
    by (cases d) (auto simp: unmarshal_reset_data_def dec_struct_def match_key_def)
qed

section \<open>The blacklist on the store\<close>

definition blacklisted :: "rstore \<Rightarrow> string \<Rightarrow> bool" where
  "blacklisted s token \<longleftrightarrow> live s (token_blacklist_prefix @ token) \<noteq> None"

text \<open>The last millisecond at which an entry that is stored now for \<open>ttl\<close> nanoseconds exists.\<close>

definition lasts_until :: "rstore \<Rightarrow> int \<Rightarrow> int" where
  "lasts_until s ttl = now_ms s + max 1 (ttl div 1000000)"

lemma add_token_stores:
  assumes law: "redis_law R V" and ttl: "0 < ttl" and run: "add_token_to_blacklist R token ttl w = (Inr (), w')"
  shows "live (V w') (token_blacklist_prefix @ token) = Some (RStr ''1'', Some (lasts_until (V w) ttl)) \<and>
    now_ms (V w') = now_ms (V w)"
  using client_served(1) [OF law] run unfolding add_token_to_blacklist_def
  by (cases rule: served_cases)
    (use ttl in \<open>auto simp: cmd_set_def expiry_def lasts_until_def dest!: sym [of _ "V w'"]\<close>)

lemma is_blacklisted_reply:
  assumes law: "redis_law R V" and run: "is_token_in_blacklist R token w = (r, w')"
  shows "V w' = V w \<and> (r = Inr (blacklisted (V w) token) \<or> (\<exists>m. r = Inl (LibError m)))"
proof -
  obtain r1 where r1: "rd_exists R (token_blacklist_prefix @ token) w = (r1, w')"
    and r: "r = (case r1 of Inl e \<Rightarrow> Inl e | Inr n \<Rightarrow> Inr (0 < n))"
    using run by (auto simp: is_token_in_blacklist_def call_def fail_def ret_def split: prod.splits sum.splits)
  from client_served(6) [OF law] r1 show ?thesis
    by (cases rule: served_cases) (auto simp: cmd_exists_def r blacklisted_def)
qed

lemma consume_refresh_reply:
  assumes law: "redis_law R V" and run: "consume_refresh_token R token ttl w = (r, w')"
  shows "now_ms (V w') = now_ms (V w) \<and> (blacklisted (V w) token \<longrightarrow> r \<noteq> Inr True \<and> V w' = V w) \<and>
    (r = Inr True \<longrightarrow>
       live (V w') (token_blacklist_prefix @ token) = Some (RStr ''1'', Some (lasts_until (V w) ttl)))"
proof (cases "token = [] \<or> ttl \<le> 0")
  case True
  with run show ?thesis by (auto simp: consume_refresh_token_def split: if_splits)
next
  case False
  obtain r1 where r1: "rd_setnx R (token_blacklist_prefix @ token) ''1'' ttl w = (r1, w')"
    and r: "r = (case r1 of Inl e \<Rightarrow> Inl (Wrapped (StoreMsg M_refresh_consume_failed) e) | Inr b \<Rightarrow> Inr b)"
    using run False
    by (auto simp: consume_refresh_token_def call_def fail_def ret_def split: prod.splits sum.splits)
  from client_served(2) [OF law] r1 show ?thesis
  proof (cases rule: served_cases)
    case reply
    then show ?thesis
      using False
      by (auto simp: cmd_setnx_def r blacklisted_def expiry_def lasts_until_def split: if_splits
          dest!: sym [of _ "V w'"])
  next
    case (lost m)
    then show ?thesis by (auto simp: r cmd_setnx_def blacklisted_def split: if_splits)
  qed
qed

lemma keeps_key_live:
  assumes "keeps_key V k env" and "live (V w) k = Some (v, Some t)" and "now_ms (V (env w)) \<le> t"
  shows "live (V (env w)) k = Some (v, Some t)"
  using assms unfolding keeps_key_def by simp

section \<open>Reset tokens on the store\<close>

lemma set_reset_stores:
  assumes law: "redis_law R V" and ttl: "0 < ttl"
    and run: "set_reset_token R token uid version ttl w = (Inr (), w')"
  shows "live (V w') (reset_token_prefix @ token) =
      Some (RStr (marshal_reset_data \<lparr>rd_user_id = uid, rd_token_version = version\<rparr>),
            Some (lasts_until (V w) ttl)) \<and>
    now_ms (V w') = now_ms (V w)"
  using client_served(1) [OF law] run unfolding set_reset_token_def
  by (cases rule: served_cases)
    (use ttl in \<open>auto simp: cmd_set_def expiry_def lasts_until_def dest!: sym [of _ "V w'"]\<close>)

lemma get_reset_reply:
  assumes law: "redis_law R V" and run: "get_reset_token R token w = (r, w')"
  shows "V w' = V w \<and>
    (live (V w) (reset_token_prefix @ token) = None \<longrightarrow> r = Inr None \<or> (\<exists>e. r = Inl e)) \<and>
    (\<forall>d t. live (V w) (reset_token_prefix @ token) = Some (RStr (marshal_reset_data d), t) \<longrightarrow>
       r = Inr (Some d) \<or> (\<exists>e. r = Inl e))"
proof -
  obtain r1 where r1: "rd_get R (reset_token_prefix @ token) w = (r1, w')"
    and r: "r = (case r1 of
        Inl e \<Rightarrow> if errors_is e RedisNil then Inr None else Inl (Wrapped (StoreMsg M_reset_read_failed) e)
      | Inr val \<Rightarrow> (case parse_json val of Inl e \<Rightarrow> Inl e
          | Inr j \<Rightarrow> (case unmarshal_reset_data j of Inl e \<Rightarrow> Inl e | Inr d \<Rightarrow> Inr (Some d))))"
    using run
    by (auto simp: get_reset_token_def call_def fail_def ret_def split: prod.splits sum.splits if_splits)
  from client_served(3) [OF law] r1 show ?thesis
  proof (cases rule: served_cases)
    case reply
    have "r = Inr (Some d)" if "r1 = Inr (marshal_reset_data d)" for d
      using that reset_data_roundtrip_lib [of d] by (auto simp: r)
    moreover have "V w' = V w" using reply by (auto simp: cmd_get_def split: option.splits prod.splits rval.splits)
    ultimately show ?thesis using reply by (auto simp: cmd_get_def r)
  next
    case (lost m)
    then show ?thesis
      by (auto simp: r cmd_get_def split: option.splits prod.splits rval.splits)
  qed
qed

lemma del_reset_reply:
  assumes law: "redis_law R V" and run: "del_reset_token R token w = (r, w')"
  shows "V w' = V w \<or> V w' = put (reset_token_prefix @ token) None (V w)"
    and "r = Inr () \<Longrightarrow> V w' = put (reset_token_prefix @ token) None (V w)"
  using client_served(5) [OF law] run unfolding del_reset_token_def
  by (cases rule: served_cases; auto simp: cmd_del_def)+

section \<open>Properties\<close>

text \<open>The data of a password reset token survives being stored: what \<open>SetResetToken\<close> has written for
  a user and a token version, for any 64-bit values, \<open>GetResetToken\<close> reads back as the same data for as
  long as the token lives, unless Redis fails; the JSON text in between is the one \<open>encoding/json\<close> writes.\<close>

theorem reset_token_roundtrip:
  assumes "redis_law R V" and "0 < ttl"
    and "set_reset_token R token uid version ttl w = (Inr (), w1)"
    and "keeps_key V (reset_token_prefix @ token) env" and "now_ms (V (env w1)) \<le> lasts_until (V w) ttl"
    and "get_reset_token R token (env w1) = (r, w2)"
  shows "r = Inr (Some \<lparr>rd_user_id = uid, rd_token_version = version\<rparr>) \<or> (\<exists>e. r = Inl e)"
proof -
  have "live (V (env w1)) (reset_token_prefix @ token) =
      Some (RStr (marshal_reset_data \<lparr>rd_user_id = uid, rd_token_version = version\<rparr>),
        Some (lasts_until (V w) ttl))"
    using set_reset_stores [OF assms(1-3)] keeps_key_live [OF assms(4) _ assms(5)] by blast
  with get_reset_reply [OF assms(1,6)] show ?thesis by blast
qed

theorem reset_token_roundtrip_witness:
  "fst (get_reset_token ref_redis ''t'' (wait_us 1000
      (snd (set_reset_token ref_redis ''t'' 7 3 600000000000 empty_store)))) =
    Inr (Some \<lparr>rd_user_id = 7, rd_token_version = 3\<rparr>)"
proof -
  let ?s = "snd (set_reset_token ref_redis ''t'' 7 3 600000000000 empty_store)"
  have set: "set_reset_token ref_redis ''t'' 7 3 600000000000 empty_store = (Inr (), ?s)"
    by (simp add: set_reset_token_def cmd_set_def)
  have now: "now_ms (wait_us 1000 ?s) \<le> lasts_until empty_store 600000000000"
    by (simp add: set_reset_token_def cmd_set_def wait_us_def now_ms_def put_def lasts_until_def empty_store_def)
  have keeps: "keeps_key (\<lambda>s. s) (reset_token_prefix @ ''t'') (wait_us 1000)" by (simp add: keeps_key_wait)
  have "\<not> (\<exists>e. fst (get_reset_token ref_redis ''t'' (wait_us 1000 ?s)) = Inl e)"
  proof -
    have stored: "live ?s (reset_token_prefix @ ''t'') =
        Some (RStr (marshal_reset_data \<lparr>rd_user_id = 7, rd_token_version = 3\<rparr>),
          Some (lasts_until empty_store 600000000000))"
      using set_reset_stores [OF ref_redis_law _ set] by simp
    note keeps_key_live [OF keeps this now]
    then show ?thesis
      using reset_data_roundtrip_lib [of "\<lparr>rd_user_id = 7, rd_token_version = 3\<rparr>"]
      by (auto simp: get_reset_token_def call_def cmd_get_def ret_def)
  qed
  with reset_token_roundtrip [OF ref_redis_law _ set keeps now prod.collapse [symmetric]] show ?thesis
    by auto
qed

end
