(* ===== verification/SingleUse.thy ===== *)
theory SingleUse
  imports GoBase
begin

text \<open>
  The contract of everything in the program that may be used once: a captcha, a refresh token,
  a reset token. A use either succeeds or not; a success leaves the thing used up, and what is
  used up stays so and is refused. The client's lemma: in any sequence of uses, with anything
  in between that does not bring the thing back, at most one succeeds. The providers are the
  theories Captcha and AuthService.
\<close>

text \<open>A sequence of uses, each preceded by whatever else happens; the answers.\<close>

fun use_run :: "('p \<Rightarrow> ('w, 'a) go) \<Rightarrow> (('w \<Rightarrow> 'w) \<times> 'p) list \<Rightarrow> 'w \<Rightarrow> (go_err + 'a) list" where
  "use_run use [] w = []"
| "use_run use ((env, p) # xs) w = (case use p (env w) of (r, w') \<Rightarrow> r # use_run use xs w')"

text \<open>\<open>lawful\<close>: the services the provider rests on behave as documented.\<close>

locale single_use =
  fixes lawful :: bool
    and use :: "'p \<Rightarrow> 'w \<Rightarrow> (go_err + 'a) \<times> 'w"
    and success :: "go_err + 'a \<Rightarrow> bool"
    and used_up :: "'w \<Rightarrow> bool"
  assumes success_uses_up: "lawful \<Longrightarrow> use p w = (r, w') \<Longrightarrow> success r \<Longrightarrow> used_up w'"
    and used_up_refused: "lawful \<Longrightarrow> used_up w \<Longrightarrow> use p w = (r, w') \<Longrightarrow> \<not> success r \<and> used_up w'"
begin

definition keeps_used_up :: "('w \<Rightarrow> 'w) \<Rightarrow> bool" where
  "keeps_used_up env \<longleftrightarrow> (\<forall>w. used_up w \<longrightarrow> used_up (env w))"

lemma none_after_used_up:
  assumes lawful
  shows "used_up w \<Longrightarrow> \<forall>x\<in>set xs. keeps_used_up (fst x) \<Longrightarrow> \<forall>r\<in>set (use_run use xs w). \<not> success r"
proof (induction xs arbitrary: w)
  case (Cons x xs)
  obtain env p where x: "x = (env, p)" by fastforce
  obtain r w' where r: "use p (env w) = (r, w')" by fastforce
  have "used_up (env w)" using Cons.prems by (simp add: x keeps_used_up_def)
  from used_up_refused [OF assms this r] Cons.IH [of w'] Cons.prems(2) show ?case
    by (simp add: x r)
qed simp

lemma at_most_once:
  assumes lawful
  shows "\<forall>x\<in>set xs. keeps_used_up (fst x) \<Longrightarrow> length (filter success (use_run use xs w)) \<le> 1"
proof (induction xs arbitrary: w)
  case (Cons x xs)
  obtain env p where x: "x = (env, p)" by fastforce
  obtain r w' where r: "use p (env w) = (r, w')" by fastforce
  have envs: "\<forall>x\<in>set xs. keeps_used_up (fst x)" using Cons.prems by simp
  show ?case
  proof (cases "success r")
    case True
    with none_after_used_up [OF assms success_uses_up [OF assms r] envs]
    have "filter success (use_run use xs w') = []" by (simp add: filter_empty_conv)
    then show ?thesis by (simp add: x r)
  next
    case False
    with Cons.IH [OF envs, of w'] show ?thesis by (simp add: x r)
  qed
qed simp

end

end
