(* ===== verification/Captcha.thy ===== *)
theory Captcha
  imports Window SingleUse
begin

text \<open>
  The image captcha: its store in Redis (\<open>src/internal/platform/captcha/redis_store.go\<close>),
  the wrapper of the captcha library (\<open>src/internal/platform/captcha/captcha.go\<close>) and the
  service (\<open>src/internal/service/captcha/service.go\<close>). The library draws the image and
  calls the store's \<open>Set\<close>; it is a parameter that is given that method.
\<close>

section \<open>The store\<close>

definition store_set :: "'w redis \<Rightarrow> string \<Rightarrow> int \<Rightarrow> string \<Rightarrow> string \<Rightarrow> ('w, unit) go" where
  "store_set R prefix expire i value = rd_set R (prefix @ i) value expire"

definition get_with_context :: "'w redis \<Rightarrow> string \<Rightarrow> string \<Rightarrow> bool \<Rightarrow> ('w, string) go" where
  "get_with_context R prefix i clear =
     call (if clear then rd_getdel R (prefix @ i) else rd_get R (prefix @ i))
       (\<lambda>e. if errors_is e RedisNil then ret [] else fail e)
       ret"

text \<open>\<open>Get\<close> and \<open>Verify\<close>, the methods the library's interface asks for, drop the error.\<close>

definition store_get :: "'w redis \<Rightarrow> string \<Rightarrow> string \<Rightarrow> bool \<Rightarrow> 'w \<Rightarrow> string \<times> 'w" where
  "store_get R prefix i clear w =
     (case get_with_context R prefix i clear w of (Inl e, w') \<Rightarrow> ([], w') | (Inr v, w') \<Rightarrow> (v, w'))"

definition store_verify :: "'w redis \<Rightarrow> string \<Rightarrow> string \<Rightarrow> string \<Rightarrow> bool \<Rightarrow> 'w \<Rightarrow> bool \<times> 'w" where
  "store_verify R prefix i answer clear w =
     (case store_get R prefix i clear w of (v, w') \<Rightarrow> (v \<noteq> [] \<and> v = answer, w'))"

section \<open>The captcha\<close>

record 'w captcha =
  cap_generate :: "('w, string \<times> string) go"
  cap_verify :: "string \<Rightarrow> string \<Rightarrow> bool \<Rightarrow> ('w, bool) go"

text \<open>\<open>lib set\<close> is \<open>base64Captcha.NewCaptcha(driver, store).Generate\<close>: id, image, answer.\<close>

type_synonym 'w captcha_lib = "(string \<Rightarrow> string \<Rightarrow> ('w, unit) go) \<Rightarrow> ('w, string \<times> string \<times> string) go"

definition captcha_prefix :: string where
  "captcha_prefix = ''captcha:''"

definition captcha_generate :: "'w redis \<Rightarrow> 'w captcha_lib \<Rightarrow> int \<Rightarrow> ('w, string \<times> string) go" where
  "captcha_generate R lib expire =
     call (lib (store_set R captcha_prefix expire)) fail (\<lambda>(i, b64s, _). ret (i, b64s))"

definition captcha_verify :: "'w redis \<Rightarrow> string \<Rightarrow> string \<Rightarrow> bool \<Rightarrow> ('w, bool) go" where
  "captcha_verify R i answer clear =
     call (get_with_context R captcha_prefix i clear) fail (\<lambda>v. ret (v \<noteq> [] \<and> v = answer))"

definition new_captcha :: "'w redis \<Rightarrow> 'w captcha_lib \<Rightarrow> int \<Rightarrow> 'w captcha" where
  "new_captcha R lib expire =
     \<lparr>cap_generate = captcha_generate R lib expire, cap_verify = captcha_verify R\<rparr>"

section \<open>The service\<close>

record captcha_resp =
  gc_captcha_id :: string
  gc_captcha_img :: string

record 'w captcha_service =
  cs_generate_captcha :: "('w, captcha_resp) go"
  cs_verify :: "string \<Rightarrow> string \<Rightarrow> bool \<Rightarrow> ('w, bool) go"

definition svc_generate_captcha :: "'w captcha \<Rightarrow> ('w, captcha_resp) go" where
  "svc_generate_captcha cp =
     call (cap_generate cp)
       (\<lambda>e. fail (BizError 500 (SessionMsg M_captcha_generate_failed)))
       (\<lambda>(i, b64s). ret \<lparr>gc_captcha_id = i, gc_captcha_img = b64s\<rparr>)"

definition svc_captcha_verify :: "'w captcha \<Rightarrow> string \<Rightarrow> string \<Rightarrow> bool \<Rightarrow> ('w, bool) go" where
  "svc_captcha_verify cp i answer clear = cap_verify cp i answer clear"

definition new_captcha_service :: "'w captcha \<Rightarrow> 'w captcha_service" where
  "new_captcha_service cp =
     \<lparr>cs_generate_captcha = svc_generate_captcha cp, cs_verify = svc_captcha_verify cp\<rparr>"

section \<open>A captcha is used once\<close>

definition no_captcha :: "('w \<Rightarrow> rstore) \<Rightarrow> string \<Rightarrow> 'w \<Rightarrow> bool" where
  "no_captcha V i w \<longleftrightarrow> live (V w) (captcha_prefix @ i) = None"

lemma cmd_getdel_cases:
  obtains (none) "live s k = None" "cmd_getdel k s = (Inl RedisNil, s)"
  | (got) v t where "live s k = Some (RStr v, t)" "cmd_getdel k s = (Inr v, put k None s)"
  | (other) "live s k \<noteq> None" "cmd_getdel k s = (Inl wrong_type, s)"
proof (cases "live s k")
  case None
  with none show thesis by (simp add: cmd_getdel_def cmd_get_def)
next
  case (Some e)
  then show thesis
    using got other by (cases "fst e"; cases e) (simp_all add: cmd_getdel_def cmd_get_def)
qed

lemma captcha_verify_reply:
  assumes law: "redis_law R V" and run: "captcha_verify R i answer True w = (r, w')"
  shows "(no_captcha V i w \<longrightarrow> r \<noteq> Inr True \<and> no_captcha V i w') \<and>
    (r = Inr True \<longrightarrow> no_captcha V i w' \<and> (\<exists>t. live (V w) (captcha_prefix @ i) = Some (RStr answer, t)))"
proof -
  obtain r1 where r1: "rd_getdel R (captcha_prefix @ i) w = (r1, w')"
    and r: "r = (case r1 of Inl e \<Rightarrow> if errors_is e RedisNil then Inr False else Inl e
      | Inr v \<Rightarrow> Inr (v \<noteq> [] \<and> v = answer))"
    using run
    by (auto simp: captcha_verify_def get_with_context_def call_def fail_def ret_def
        split: prod.splits sum.splits if_splits)
  from client_served(4) [OF law] r1 show ?thesis
  proof (cases rule: served_cases)
    case reply
    then have eq: "r1 = fst (cmd_getdel (captcha_prefix @ i) (V w))"
      "V w' = snd (cmd_getdel (captcha_prefix @ i) (V w))" by simp_all
    show ?thesis
      by (cases rule: cmd_getdel_cases [of "V w" "captcha_prefix @ i"])
        (simp_all add: r eq no_captcha_def wrong_type_def)
  next
    case (lost m)
    have "no_captcha V i w \<longrightarrow> no_captcha V i w'"
      using lost(2)
    proof
      assume eq: "V w' = snd (cmd_getdel (captcha_prefix @ i) (V w))"
      show ?thesis
        by (cases rule: cmd_getdel_cases [of "V w" "captcha_prefix @ i"]) (simp_all add: eq no_captcha_def)
    qed (simp add: no_captcha_def)
    then show ?thesis by (simp add: r lost(1))
  qed
qed

interpretation captcha_use: single_use "redis_law R V" "\<lambda>answer. captcha_verify R i answer True"
    "\<lambda>r. r = Inr True" "no_captcha V i" for R V i
  by unfold_locales (simp_all add: captcha_verify_reply)

section \<open>Properties\<close>

text \<open>An image captcha can be solved at most once, whatever is answered how often. In any sequence of
  verifications of one captcha id that clear it, as \<open>Login\<close> and \<open>SendCode\<close> do, with anything in between
  that does not store a new captcha under that id and with replies of Redis possibly lost, at most one
  verification succeeds.\<close>

theorem captcha_solved_at_most_once:
  assumes "redis_law R V" and "\<forall>x\<in>set xs. \<forall>w. no_captcha V i w \<longrightarrow> no_captcha V i (fst x w)"
  shows "length (filter (\<lambda>r. r = Inr True) (use_run (\<lambda>answer. captcha_verify R i answer True) xs w)) \<le> 1"
  using captcha_use.at_most_once [OF assms(1), of xs i w] assms(2)
  by (simp add: captcha_use.keeps_used_up_def)

definition sample_captcha :: rstore where
  "sample_captcha = snd (store_set ref_redis captcha_prefix 300000000000 ''i'' ''1234'' empty_store)"

theorem captcha_solved_at_most_once_witness:
  "use_run (\<lambda>answer. captcha_verify ref_redis ''i'' answer True)
     [(wait_us 1000, ''1234''), (wait_us 1000, ''1234'')] sample_captcha = [Inr True, Inr False] \<and>
   length (filter (\<lambda>r. r = Inr True) (use_run (\<lambda>answer. captcha_verify ref_redis ''i'' answer True)
     [(wait_us 1000, ''1234''), (wait_us 1000, ''1234'')] sample_captcha)) \<le> 1"
proof
  show "use_run (\<lambda>answer. captcha_verify ref_redis ''i'' answer True)
     [(wait_us 1000, ''1234''), (wait_us 1000, ''1234'')] sample_captcha = [Inr True, Inr False]"
    by code_simp
  have "no_captcha (\<lambda>s. s) ''i'' (wait_us 1000 w)" if "no_captcha (\<lambda>s. s) ''i'' w" for w
    using that keeps_key_wait [of 1000 "captcha_prefix @ ''i''"] by (simp add: no_captcha_def keeps_key_def)
  then show "length (filter (\<lambda>r. r = Inr True) (use_run (\<lambda>answer. captcha_verify ref_redis ''i'' answer True)
     [(wait_us 1000, ''1234''), (wait_us 1000, ''1234'')] sample_captcha)) \<le> 1"
    by (intro captcha_solved_at_most_once [OF ref_redis_law]) simp
qed

end
