(* ===== verification/SmsCache.thy ===== *)
theory SmsCache
  imports Redis Runtime
begin

text \<open>
  The SMS codes kept in Redis, \<open>src/internal/repository/cache/sms_cache.go\<close>: the two Lua
  scripts and the three methods of \<open>SMSCache\<close>. The lemmas follow one phone number's key
  through any sequence of guesses, with time and other clients' commands in between.
\<close>

section \<open>Operations\<close>

definition sms_code_prefix :: string where
  "sms_code_prefix = ''sms_code:''"

record 'w sms_cache =
  sc_set_code :: "string \<Rightarrow> string \<Rightarrow> int \<Rightarrow> ('w, unit) go"
  sc_consume_code :: "string \<Rightarrow> string \<Rightarrow> ('w, bool) go"
  sc_del_code :: "string \<Rightarrow> ('w, unit) go"

definition set_code_lua :: "'w redis \<Rightarrow> string \<Rightarrow> string \<Rightarrow> int \<Rightarrow> ('w, int) go" where
  "set_code_lua R key code ms =
     call (lua_hset R key [(''code'', code), (''attempts'', show_int 0)]) fail (\<lambda>_.
     call (lua_pexpire R key ms) fail (\<lambda>_. ret 1))"

definition consume_code_lua :: "'w redis \<Rightarrow> string \<Rightarrow> string \<Rightarrow> ('w, int) go" where
  "consume_code_lua R key code =
     call (lua_hget R key ''code'') fail (\<lambda>cached.
       case cached of
         None \<Rightarrow> ret 0
       | Some c \<Rightarrow>
           if c = code then call (lua_del R key) fail (\<lambda>_. ret 1)
           else
             call (lua_hincrby R key ''attempts'' 1) fail (\<lambda>attempts.
               if 3 \<le> attempts then call (lua_del R key) fail (\<lambda>_. ret (- 1))
               else ret 0))"

definition set_code :: "'w redis \<Rightarrow> string \<Rightarrow> string \<Rightarrow> int \<Rightarrow> ('w, unit) go" where
  "set_code R phone code ttl =
     (if milliseconds ttl \<le> 0 then fail (ErrorMsg (StoreMsg M_sms_ttl_too_small))
      else
        call (rd_run R (set_code_lua R (sms_code_prefix @ phone) code (milliseconds ttl)))
          (\<lambda>e. fail (Wrapped (StoreMsg M_sms_save_failed) e))
          (\<lambda>_. ret ()))"

definition consume_code :: "'w redis \<Rightarrow> string \<Rightarrow> string \<Rightarrow> ('w, bool) go" where
  "consume_code R phone code =
     call (rd_run R (consume_code_lua R (sms_code_prefix @ phone) code))
       (\<lambda>e. fail (Wrapped (StoreMsg M_sms_consume_failed) e))
       (\<lambda>result. if result = - 1 then fail ErrSMSCodeAttemptsExceeded else ret (result = 1))"

definition del_code :: "'w redis \<Rightarrow> string \<Rightarrow> ('w, unit) go" where
  "del_code R phone = rd_del R (sms_code_prefix @ phone)"

definition new_sms_cache :: "'w redis \<Rightarrow> 'w sms_cache" where
  "new_sms_cache R =
     \<lparr>sc_set_code = set_code R, sc_consume_code = consume_code R, sc_del_code = del_code R\<rparr>"

section \<open>The scripts on the store\<close>

text \<open>A code is held for a phone, with the number of wrong guesses so far.\<close>

definition holds_code :: "rstore \<Rightarrow> string \<Rightarrow> string \<Rightarrow> int \<Rightarrow> bool" where
  "holds_code s phone c n \<longleftrightarrow>
     (\<exists>h t. live s (sms_code_prefix @ phone) = Some (RHash h, t) \<and>
            map_of h ''code'' = Some c \<and> map_of h ''attempts'' = Some (show_int n))"

definition no_code :: "rstore \<Rightarrow> string \<Rightarrow> bool" where
  "no_code s phone \<longleftrightarrow> live s (sms_code_prefix @ phone) = None"

lemmas ref_cmds = cmd_hget_def cmd_hset_def cmd_hincrby_def cmd_pexpire_def
  cmd_pexpireat_def cmd_del_def as_hash_def

lemma set_code_lua_exact:
  "redis_law R V \<Longrightarrow> exact V (set_code_lua ref_redis k c ms) (set_code_lua R k c ms)"
  unfolding set_code_lua_def by (intro script_intros) (auto intro: script_intros)

lemma consume_code_lua_exact:
  "redis_law R V \<Longrightarrow> exact V (consume_code_lua ref_redis k c) (consume_code_lua R k c)"
  unfolding consume_code_lua_def by (intro script_intros) (auto intro: script_intros)

lemma consume_none:
  "no_code s phone \<Longrightarrow> consume_code_lua ref_redis (sms_code_prefix @ phone) g s = (Inr 0, s)"
  by (simp add: no_code_def consume_code_lua_def ref_cmds call_def)

lemma consume_right:
  "holds_code s phone c n \<Longrightarrow>
   \<exists>s'. consume_code_lua ref_redis (sms_code_prefix @ phone) c s = (Inr 1, s') \<and> no_code s' phone"
  by (auto simp: holds_code_def no_code_def consume_code_lua_def ref_cmds call_def)

lemma consume_wrong:
  assumes "holds_code s phone c n" and "g \<noteq> c"
  shows "\<exists>s'. consume_code_lua ref_redis (sms_code_prefix @ phone) g s =
      (Inr (if 3 \<le> n + 1 then - 1 else 0), s') \<and>
    (if 3 \<le> n + 1 then no_code s' phone else holds_code s' phone c (n + 1))"
  using assms
  by (auto simp: holds_code_def no_code_def consume_code_lua_def ref_cmds call_def map_of_update_iff
      AList.update_nonempty)

lemma set_code_lua_holds:
  assumes "live s (sms_code_prefix @ phone) = None \<or>
      (\<exists>h t. live s (sms_code_prefix @ phone) = Some (RHash h, t))" and "0 < ms"
  shows "\<exists>s'. set_code_lua ref_redis (sms_code_prefix @ phone) c ms s = (Inr 1, s') \<and>
    holds_code s' phone c 0"
  using assms
  by (auto simp: holds_code_def set_code_lua_def ref_cmds call_def map_of_update_iff
      AList.update_nonempty)

section \<open>The methods on the world\<close>

definition lost_reply :: "(go_err + 'a) \<Rightarrow> bool" where
  "lost_reply r \<longleftrightarrow> (\<exists>m. r = Inl (Wrapped (StoreMsg M_sms_consume_failed) (LibError m)))"

lemma consume_code_cases:
  assumes law: "redis_law R V" and run: "consume_code R phone g w = (r, w')"
  obtains (reply) n where "consume_code_lua ref_redis (sms_code_prefix @ phone) g (V w) = (Inr n, V w')"
      "r = (if n = - 1 then Inl ErrSMSCodeAttemptsExceeded else Inr (n = 1))"
  | (error) e where "consume_code_lua ref_redis (sms_code_prefix @ phone) g (V w) = (Inl e, V w')"
      "r = Inl (Wrapped (StoreMsg M_sms_consume_failed) e)"
  | (lost) "lost_reply r"
      "V w' = V w \<or> V w' = snd (consume_code_lua ref_redis (sms_code_prefix @ phone) g (V w))"
proof -
  let ?k = "sms_code_prefix @ phone"
  obtain r1 w1 where r1: "rd_run R (consume_code_lua R ?k g) w = (r1, w1)" by fastforce
  have w: "w' = w1" and r: "r = (case r1 of Inl e \<Rightarrow> Inl (Wrapped (StoreMsg M_sms_consume_failed) e)
      | Inr n \<Rightarrow> if n = - 1 then Inl ErrSMSCodeAttemptsExceeded else Inr (n = 1))"
    using run r1 by (auto simp: consume_code_def call_def ret_def fail_def split: sum.splits if_splits)
  from run_served [OF law consume_code_lua_exact [OF law]] r1 show ?thesis
  proof (cases rule: served_cases)
    case reply
    then show ?thesis using that(1,2) r w by (cases r1) simp_all
  next
    case (lost m)
    then show ?thesis using that(3) r w by (simp add: lost_reply_def)
  qed
qed

text \<open>One guess when no code is held, and when one is.\<close>

lemma guess_none:
  assumes "redis_law R V" "no_code (V w) phone" "consume_code R phone g w = (r, w')"
  shows "r \<noteq> Inr True \<and> no_code (V w') phone"
  using assms(1,3) consume_none [OF assms(2), of g] assms(2)
  by (cases rule: consume_code_cases) (auto simp: lost_reply_def)

lemma guess_held:
  assumes law: "redis_law R V" and held: "holds_code (V w) phone c n" and n: "n \<le> 2"
    and run: "consume_code R phone g w = (r, w')"
  shows "(r = Inr True \<longrightarrow> g = c \<and> no_code (V w') phone) \<and>
    (no_code (V w') phone \<or>
     (\<exists>m. n \<le> m \<and> m \<le> 2 \<and> holds_code (V w') phone c m \<and> (\<not> lost_reply r \<longrightarrow> m = n + 1)))"
  using law run
proof (cases rule: consume_code_cases)
  case (reply k)
  then show ?thesis
    using consume_right [OF held] consume_wrong [OF held, of g] n
    by (cases "g = c") (auto split: if_splits intro!: exI [of _ "n + 1"])
next
  case (error e)
  then show ?thesis
    using consume_right [OF held] consume_wrong [OF held, of g] by (cases "g = c") auto
next
  case lost
  then show ?thesis
    using consume_right [OF held] consume_wrong [OF held, of g] n held
    by (cases "g = c") (auto simp: lost_reply_def split: if_splits intro: exI [of _ "n + 1"] exI [of _ n])
qed

text \<open>
  Any number of guesses, each preceded by whatever else happens in the world. That may let the
  code expire, but does not store another one.
\<close>

fun guess_run :: "'w redis \<Rightarrow> string \<Rightarrow> (('w \<Rightarrow> 'w) \<times> string) list \<Rightarrow> 'w \<Rightarrow> (go_err + bool) list \<times> 'w" where
  "guess_run R phone [] w = ([], w)"
| "guess_run R phone ((env, g) # gs) w =
     (case consume_code R phone g (env w) of
        (r, w1) \<Rightarrow> (case guess_run R phone gs w1 of (rs, w2) \<Rightarrow> (r # rs, w2)))"

definition keeps_code :: "('w \<Rightarrow> rstore) \<Rightarrow> string \<Rightarrow> ('w \<Rightarrow> 'w) \<Rightarrow> bool" where
  "keeps_code V phone env \<longleftrightarrow>
     (\<forall>w. live (V (env w)) (sms_code_prefix @ phone) = live (V w) (sms_code_prefix @ phone) \<or>
          no_code (V (env w)) phone)"

definition answered :: "(go_err + bool) list \<Rightarrow> nat" where
  "answered rs = length (filter (\<lambda>r. \<not> lost_reply r) rs)"

lemma answered_simps [simp]:
  "answered [] = 0" "answered (r # rs) = (if lost_reply r then 0 else 1) + answered rs"
  by (simp_all add: answered_def)

lemma keeps_codeD:
  assumes "keeps_code V phone env"
  shows "no_code (V w) phone \<Longrightarrow> no_code (V (env w)) phone"
    and "holds_code (V w) phone c n \<Longrightarrow> holds_code (V (env w)) phone c n \<or> no_code (V (env w)) phone"
  using spec [OF assms [unfolded keeps_code_def], of w] by (auto simp: no_code_def holds_code_def)

lemma guess_run_none:
  assumes "redis_law R V"
  shows "no_code (V w) phone \<Longrightarrow> \<forall>p\<in>set gs. keeps_code V phone (fst p) \<Longrightarrow>
    Inr True \<notin> set (fst (guess_run R phone gs w))"
proof (induction gs arbitrary: w)
  case (Cons p gs)
  obtain env g where p: "p = (env, g)" by fastforce
  obtain r w1 where r: "consume_code R phone g (env w) = (r, w1)" by fastforce
  have "no_code (V (env w)) phone"
    using keeps_codeD(1) [of V phone env w] Cons.prems by (simp add: p)
  from guess_none [OF assms this r] have g: "r \<noteq> Inr True" "no_code (V w1) phone" by blast+
  have "Inr True \<notin> set (fst (guess_run R phone gs w1))"
    by (rule Cons.IH [OF g(2)]) (use Cons.prems(2) in simp)
  with g(1) show ?case by (cases "guess_run R phone gs w1") (simp add: p r)
qed simp

lemma guess_run_held:
  assumes law: "redis_law R V"
  shows "holds_code (V w) phone c n \<Longrightarrow> n \<le> 2 \<Longrightarrow> \<forall>p\<in>set gs. keeps_code V phone (fst p) \<Longrightarrow>
    guess_run R phone gs w = (rs, w') \<Longrightarrow>
    count_list rs (Inr True) \<le> 1 \<and>
    (\<forall>i<length rs. rs ! i = Inr True \<longrightarrow> snd (gs ! i) = c \<and> int (answered (take i rs)) \<le> 2 - n)"
proof (induction gs arbitrary: w n rs w')
  case (Cons p gs)
  obtain env g where p: "p = (env, g)" by fastforce
  obtain r w1 where r: "consume_code R phone g (env w) = (r, w1)" by fastforce
  obtain rs1 w2 where rs1: "guess_run R phone gs w1 = (rs1, w2)" by fastforce
  have rs: "rs = r # rs1" "w' = w2" using Cons.prems(4) by (auto simp: p r rs1)
  have env: "\<forall>p\<in>set gs. keeps_code V phone (fst p)" using Cons.prems(3) by simp
  have start: "holds_code (V (env w)) phone c n \<or> no_code (V (env w)) phone"
    using keeps_codeD(2) [of V phone env w c n] Cons.prems(1,3) by (simp add: p)
  have gone: ?case if "no_code (V w1) phone" and "r = Inr True \<longrightarrow> g = c"
  proof -
    have "Inr True \<notin> set rs1" using guess_run_none [OF law that(1) env] rs1 by simp
    then show ?thesis
      using that(2) Cons.prems(2) by (auto simp: rs p nth_Cons in_set_conv_nth split: nat.split)
  qed
  show ?case
  proof (cases "no_code (V (env w)) phone")
    case True
    with guess_none [OF law this r] gone show ?thesis by blast
  next
    case False
    with start have held: "holds_code (V (env w)) phone c n" by blast
    note g = guess_held [OF law held Cons.prems(2) r]
    show ?thesis
    proof (cases "no_code (V w1) phone")
      case True
      with g gone show ?thesis by blast
    next
      case False
      with g obtain m where m: "n \<le> m" "m \<le> 2" "holds_code (V w1) phone c m"
        "\<not> lost_reply r \<longrightarrow> m = n + 1" "r \<noteq> Inr True" by blast
      from Cons.IH [OF m(3,2) env rs1] m show ?thesis
        by (auto simp: rs p nth_Cons split: nat.split)
    qed
  qed
qed simp

section \<open>Properties\<close>

text \<open>C11 An SMS code can be used at most once and guessed at most three times. After \<open>SetCode\<close> has stored a
  code for a phone, in any sequence of \<open>ConsumeCode\<close> calls for that phone (time passing and anything but
  another \<open>SetCode\<close> happening in between, replies of Redis possibly lost), at most one call returns true, it is
  one with the right code, and at most two calls before it got an answer: the third wrong answer destroys the
  code.\<close>

theorem sms_code_single_use:
  assumes "redis_law R V"
    and "no_code (V w) phone \<or> holds_code (V w) phone old n"
    and "set_code R phone code ttl w = (Inr (), w1)"
    and "\<forall>p\<in>set gs. keeps_code V phone (fst p)"
    and "guess_run R phone gs w1 = (rs, w2)"
  shows "count_list rs (Inr True) \<le> 1 \<and>
    (\<forall>i<length rs. rs ! i = Inr True \<longrightarrow> snd (gs ! i) = code \<and> answered (take i rs) \<le> 2)"
proof -
  let ?k = "sms_code_prefix @ phone"
  have ttl: "0 < milliseconds ttl" using assms(3) by (simp add: set_code_def split: if_splits)
  obtain n where run: "rd_run R (set_code_lua R ?k code (milliseconds ttl)) w = (Inr n, w1)"
    using assms(3) ttl by (auto simp: set_code_def call_def split: prod.splits sum.splits)
  from set_code_lua_holds [OF _ ttl, of "V w" phone code] assms(2)
  obtain s' where s': "set_code_lua ref_redis ?k code (milliseconds ttl) (V w) = (Inr 1, s')"
    "holds_code s' phone code 0"
    by (auto simp: no_code_def holds_code_def)
  from run_served [OF assms(1) set_code_lua_exact [OF assms(1)]] run
  have "holds_code (V w1) phone code 0"
    using s' by (cases rule: served_cases) auto
  from guess_run_held [OF assms(1) this _ assms(4,5)] show ?thesis by auto
qed

definition sample_store :: rstore where
  "sample_store = \<lparr>rs_us = 1700000000000000, rs_data = (\<lambda>_. None)\<rparr>"

theorem sms_code_single_use_witness:
  "fst (guess_run ref_redis ''1'' [(id, ''999999''), (id, ''123456''), (id, ''123456'')]
     (snd (set_code ref_redis ''1'' ''123456'' 300000000000 sample_store))) = [Inr False, Inr True, Inr False]
   \<and> count_list [Inr False, Inr True, Inr False :: go_err + bool] (Inr True) \<le> 1"
proof -
  have set: "fst (set_code ref_redis ''1'' ''123456'' 300000000000 sample_store) = Inr ()" by code_simp
  have run: "fst (guess_run ref_redis ''1'' [(id, ''999999''), (id, ''123456''), (id, ''123456'')]
     (snd (set_code ref_redis ''1'' ''123456'' 300000000000 sample_store))) = [Inr False, Inr True, Inr False]"
    by code_simp
  have "no_code sample_store ''1'' \<or> holds_code sample_store ''1'' [] 0"
    by (simp add: no_code_def live_def sample_store_def)
  from sms_code_single_use [OF ref_redis_law this, of "''123456''" 300000000000
      "snd (set_code ref_redis ''1'' ''123456'' 300000000000 sample_store)"
      "[(id, ''999999''), (id, ''123456''), (id, ''123456'')]"] set run
  show ?thesis by (auto simp: keeps_code_def prod_eq_iff)
qed

end
