(* ===== verification/SmsLimit.thy ===== *)
theory SmsLimit
  imports Window
begin

text \<open>
  The SMS quotas, \<open>src/internal/repository/cache/sms_limit.go\<close>: four sliding or daily
  windows in Redis (per client address and per phone, per minute and per day) that one Lua
  script checks and reserves together, and a second script that gives a reservation back.
\<close>

section \<open>Operations\<close>

definition SMSLimitAllowed :: int where "SMSLimitAllowed = 0"
definition SMSLimitIPMinute :: int where "SMSLimitIPMinute = 1"
definition SMSLimitPhoneMinute :: int where "SMSLimitPhoneMinute = 2"
definition SMSLimitIPDay :: int where "SMSLimitIPDay = 3"
definition SMSLimitPhoneDay :: int where "SMSLimitPhoneDay = 4"

lemmas sms_reasons =
  SMSLimitAllowed_def SMSLimitIPMinute_def SMSLimitPhoneMinute_def SMSLimitIPDay_def SMSLimitPhoneDay_def

record sms_limit_policy =
  lp_ip_minute :: int
  lp_phone_minute :: int
  lp_ip_day :: int
  lp_phone_day :: int

record sms_reservation =
  rv_id :: string
  rv_keys :: "string list"

record 'w sms_limit =
  sl_reserve :: "string \<Rightarrow> string \<Rightarrow> sms_limit_policy \<Rightarrow> ('w, sms_reservation option \<times> int) go"
  sl_release :: "sms_reservation option \<Rightarrow> ('w, unit) go"

text \<open>The Lua loops: over a list of keys, and over numbered keys with their limits.\<close>

fun lua_each :: "('a \<Rightarrow> ('w, unit) go) \<Rightarrow> 'a list \<Rightarrow> ('w, 'b) go \<Rightarrow> ('w, 'b) go" where
  "lua_each f [] k = k"
| "lua_each f (x # xs) k = call (f x) fail (\<lambda>_. lua_each f xs k)"

fun lua_check :: "'w redis \<Rightarrow> (nat \<times> string \<times> int) list \<Rightarrow> ('w, int) go \<Rightarrow> ('w, int) go" where
  "lua_check R [] k = k"
| "lua_check R ((i, key, limit) # xs) k =
     call (lua_zcard R key) fail (\<lambda>n. if limit \<le> n then ret (int i) else lua_check R xs k)"

definition day_offset :: int where "day_offset = 8 * 60 * 60 * 1000"
definition day_length :: int where "day_length = 24 * 60 * 60 * 1000"

text \<open>The start of the day a time in milliseconds falls in, in UTC+8.\<close>

definition day_start :: "int \<Rightarrow> int" where
  "day_start now = (now + day_offset) div day_length * day_length - day_offset"

definition reserve_lua :: "'w redis \<Rightarrow> string list \<Rightarrow> int list \<Rightarrow> string \<Rightarrow> ('w, int) go" where
  "reserve_lua R keys limits rid =
     call (lua_time R) fail (\<lambda>(sec, usec).
       let now = sec * 1000 + usec div 1000;
           start = day_start now;
           day_end = start + day_length
       in lua_each (\<lambda>k. lua_zremrangebyscore R k (AtMost (now - 60000))) (take 2 keys)
         (lua_each (\<lambda>k. lua_zremrangebyscore R k (Below start)) (take 2 (drop 2 keys))
         (lua_check R (zip [1..<5] (zip keys limits))
         (lua_each
           (\<lambda>(i, k). call (lua_zadd R k now rid) fail (\<lambda>_.
              if i \<le> 2 then lua_pexpire R k 60000 else lua_pexpireat R k day_end))
           (zip [1..<5] keys)
           (ret 0)))))"

definition release_lua :: "'w redis \<Rightarrow> string list \<Rightarrow> string \<Rightarrow> ('w, int) go" where
  "release_lua R keys rid = lua_each (\<lambda>k. lua_zrem R k rid) keys (ret 1)"

definition sms_limit_keys :: "string \<Rightarrow> string \<Rightarrow> string list" where
  "sms_limit_keys ip phone =
     [''sms:limit:ip:minute:'' @ ip, ''sms:limit:phone:minute:'' @ phone,
      ''sms:limit:ip:day:'' @ ip, ''sms:limit:phone:day:'' @ phone]"

definition reserve ::
    "'w redis \<Rightarrow> 'w runtime \<Rightarrow> string \<Rightarrow> string \<Rightarrow> sms_limit_policy
      \<Rightarrow> ('w, sms_reservation option \<times> int) go"
where
  "reserve R rt ip phone p =
     (if lp_ip_minute p \<le> 0 \<or> lp_phone_minute p \<le> 0 \<or> lp_ip_day p \<le> 0 \<or> lp_phone_day p \<le> 0
      then fail (ErrorMsg (StoreMsg M_limit_not_positive))
      else
        effect (rt_uuid rt) (\<lambda>rid.
        call
          (rd_run R (reserve_lua R (sms_limit_keys ip phone)
             [lp_ip_minute p, lp_phone_minute p, lp_ip_day p, lp_phone_day p] rid))
          (\<lambda>e. fail (Wrapped (StoreMsg M_limit_check_failed) e))
          (\<lambda>reason.
            if reason \<noteq> 0 then ret (None, reason)
            else ret (Some \<lparr>rv_id = rid, rv_keys = sms_limit_keys ip phone\<rparr>, SMSLimitAllowed))))"

definition release :: "'w redis \<Rightarrow> sms_reservation option \<Rightarrow> ('w, unit) go" where
  "release R reservation =
     (case reservation of
        None \<Rightarrow> ret ()
      | Some rv \<Rightarrow>
          call (rd_run R (release_lua R (rv_keys rv) (rv_id rv)))
            (\<lambda>e. fail (Wrapped (StoreMsg M_limit_release_failed) e))
            (\<lambda>_. ret ()))"

definition new_sms_limit :: "'w redis \<Rightarrow> 'w runtime \<Rightarrow> 'w sms_limit" where
  "new_sms_limit R rt = \<lparr>sl_reserve = reserve R rt, sl_release = release R\<rparr>"

section \<open>The four quotas\<close>

datatype quota = IPMinute | PhoneMinute | IPDay | PhoneDay

fun quota_key :: "quota \<Rightarrow> string \<Rightarrow> string \<Rightarrow> string" where
  "quota_key IPMinute ip phone = ''sms:limit:ip:minute:'' @ ip"
| "quota_key PhoneMinute ip phone = ''sms:limit:phone:minute:'' @ phone"
| "quota_key IPDay ip phone = ''sms:limit:ip:day:'' @ ip"
| "quota_key PhoneDay ip phone = ''sms:limit:phone:day:'' @ phone"

fun quota_limit :: "quota \<Rightarrow> sms_limit_policy \<Rightarrow> int" where
  "quota_limit IPMinute p = lp_ip_minute p"
| "quota_limit PhoneMinute p = lp_phone_minute p"
| "quota_limit IPDay p = lp_ip_day p"
| "quota_limit PhoneDay p = lp_phone_day p"

fun quota_keep :: "quota \<Rightarrow> int \<Rightarrow> int \<Rightarrow> bool" where
  "quota_keep IPMinute n t \<longleftrightarrow> n - 60000 < t"
| "quota_keep PhoneMinute n t \<longleftrightarrow> n - 60000 < t"
| "quota_keep IPDay n t \<longleftrightarrow> day_start n \<le> t"
| "quota_keep PhoneDay n t \<longleftrightarrow> day_start n \<le> t"

fun quota_expiry :: "quota \<Rightarrow> int \<Rightarrow> int" where
  "quota_expiry IPMinute n = n + 60000"
| "quota_expiry PhoneMinute n = n + 60000"
| "quota_expiry IPDay n = day_start n + day_length"
| "quota_expiry PhoneDay n = day_start n + day_length"

definition quotas :: "quota list" where
  "quotas = [IPMinute, PhoneMinute, IPDay, PhoneDay]"

lemma day_start_bounds: "day_start n \<le> n" "n < day_start n + day_length"
  using pos_mod_bound [of day_length "n + day_offset"] pos_mod_sign [of day_length "n + day_offset"]
    div_mult_mod_eq [of "n + day_offset" day_length]
  by (simp_all add: day_start_def day_length_def)

lemma day_start_mono: "m \<le> n \<Longrightarrow> day_start m \<le> day_start n"
  by (simp add: day_start_def day_length_def zdiv_mono1)

lemma day_start_before:
  assumes "day_start n \<le> m" shows "day_start n \<le> day_start m"
proof -
  have "(n + day_offset) div day_length * day_length div day_length \<le> (m + day_offset) div day_length"
    by (rule zdiv_mono1) (use assms in \<open>simp_all add: day_start_def day_length_def\<close>)
  then have "(n + day_offset) div day_length \<le> (m + day_offset) div day_length"
    by (simp add: day_length_def)
  then show ?thesis by (simp add: day_start_def day_length_def)
qed

interpretation quota_window: event_window "quota_keep q" for q
proof
  fix n' n t assume "quota_keep q n' t" and "n \<le> n'"
  then show "quota_keep q n t" using day_start_mono [of n n'] by (cases q) auto
qed

section \<open>The scripts on the store\<close>

lemma quota_key_kind: "quota_key q ip ph = quota_key q' ip' ph' \<Longrightarrow> q = q'"
  by (cases q; cases q') auto

lemma quota_key_neq [simp]: "q \<noteq> q' \<Longrightarrow> quota_key q ip ph \<noteq> quota_key q' ip' ph'"
  using quota_key_kind by blast

declare quota_key.simps [simp del]

lemma sms_limit_keys_quotas: "sms_limit_keys ip ph = map (\<lambda>q. quota_key q ip ph) quotas"
  by (simp add: sms_limit_keys_def quotas_def quota_key.simps)

lemma exact_lua_each [script_intros]:
  "(\<And>x. exact V (cf x) (f x)) \<Longrightarrow> exact V c k \<Longrightarrow> exact V (lua_each cf xs c) (lua_each f xs k)"
  by (induction xs) (auto intro!: script_intros)

lemma exact_lua_check [script_intros]:
  "redis_law R V \<Longrightarrow> exact V c k \<Longrightarrow> exact V (lua_check ref_redis xs c) (lua_check R xs k)"
proof (induction xs)
  case (Cons p xs)
  then show ?case by (cases p) (auto intro!: script_intros)
qed simp

lemma reserve_lua_exact:
  "redis_law R V \<Longrightarrow> exact V (reserve_lua ref_redis ks lims rid) (reserve_lua R ks lims rid)"
  unfolding reserve_lua_def Let_def
  by (intro script_intros) (auto intro!: script_intros)

lemma release_lua_exact:
  "redis_law R V \<Longrightarrow> exact V (release_lua ref_redis ks rid) (release_lua R ks rid)"
  unfolding release_lua_def by (intro script_intros) (auto intro!: script_intros)

text \<open>The members of a key that holds a sorted set, or nothing.\<close>

definition zset_typed :: "rstore \<Rightarrow> string \<Rightarrow> bool" where
  "zset_typed s k \<longleftrightarrow> (\<exists>z. as_zset (live s k) = Inr z)"

definition members :: "rstore \<Rightarrow> string \<Rightarrow> (string \<times> int) list" where
  "members s k = projr (as_zset (live s k))"

lemma as_zset_members: "zset_typed s k \<Longrightarrow> as_zset (live s k) = Inr (members s k)"
  by (auto simp: zset_typed_def members_def)

lemma zset_typed_put [simp]: "zset_typed (put_zset k z s) k' \<longleftrightarrow> k' = k \<or> zset_typed s k'"
  by (simp add: zset_typed_def as_zset_def)

lemma members_put [simp]: "members (put_zset k z s) k' = (if k' = k then z else members s k')"
  by (simp add: members_def as_zset_def)

lemma zset_typed_pexpireat [simp]:
  "zset_typed s k' \<Longrightarrow> zset_typed (snd (cmd_pexpireat k t s)) k'"
  by (auto simp: zset_typed_def cmd_pexpireat_def as_zset_def split: option.split prod.split)

lemma members_pexpireat [simp]:
  "now_ms s < t \<or> k' \<noteq> k \<Longrightarrow> members (snd (cmd_pexpireat k t s)) k' = members s k'"
  by (auto simp: members_def cmd_pexpireat_def as_zset_def split: option.split prod.split)

lemma call_zset [simp]:
  "zset_typed s k \<Longrightarrow> call (cmd_zremrangebyscore k b) h f s =
     f () (put_zset k (filter (\<lambda>p. \<not> within b (snd p)) (members s k)) s)"
  "zset_typed s k \<Longrightarrow> call (cmd_zcard k) h g s = g (int (length (members s k))) s"
  "zset_typed s k \<Longrightarrow> call (cmd_zadd k n m) h f s = f () (put_zset k (AList.update m n (members s k)) s)"
  "zset_typed s k \<Longrightarrow> call (cmd_zrem k m) h f s = f () (put_zset k (AList.delete m (members s k)) s)"
  by (simp_all add: as_zset_members cmd_zset_simps call_def)

definition purge_quota :: "string \<Rightarrow> string \<Rightarrow> quota \<Rightarrow> rstore \<Rightarrow> rstore" where
  "purge_quota ip ph q s =
     put_zset (quota_key q ip ph) (quota_window.purged q s (members s (quota_key q ip ph))) s"

definition add_quota :: "string \<Rightarrow> string \<Rightarrow> string \<Rightarrow> quota \<Rightarrow> rstore \<Rightarrow> rstore" where
  "add_quota ip ph rid q s =
     snd (cmd_pexpireat (quota_key q ip ph) (quota_expiry q (now_ms s))
       (put_zset (quota_key q ip ph)
          (AList.update rid (now_ms s) (members s (quota_key q ip ph))) s))"

definition quotas_typed :: "string \<Rightarrow> string \<Rightarrow> rstore \<Rightarrow> bool" where
  "quotas_typed ip ph s \<longleftrightarrow> (\<forall>q. zset_typed s (quota_key q ip ph))"

definition quota_full :: "string \<Rightarrow> string \<Rightarrow> sms_limit_policy \<Rightarrow> rstore \<Rightarrow> quota \<Rightarrow> bool" where
  "quota_full ip ph p s q \<longleftrightarrow> quota_limit q p \<le> int (length (members s (quota_key q ip ph)))"

fun quota_reason :: "quota \<Rightarrow> int" where
  "quota_reason IPMinute = SMSLimitIPMinute"
| "quota_reason PhoneMinute = SMSLimitPhoneMinute"
| "quota_reason IPDay = SMSLimitIPDay"
| "quota_reason PhoneDay = SMSLimitPhoneDay"

definition policy_limits :: "sms_limit_policy \<Rightarrow> int list" where
  "policy_limits p = [lp_ip_minute p, lp_phone_minute p, lp_ip_day p, lp_phone_day p]"

lemma time_ms: "(rs_us s div 1000000) * 1000 + (rs_us s mod 1000000) div 1000 = now_ms s"
proof -
  have "rs_us s div 1000000 = rs_us s div 1000 div 1000"
    using zdiv_zmult2_eq [of 1000 "rs_us s" 1000] by simp
  moreover have "rs_us s mod 1000000 = 1000 * (rs_us s div 1000 mod 1000) + rs_us s mod 1000"
    using zmod_zmult2_eq [of 1000 "rs_us s" 1000] by simp
  ultimately show ?thesis by (simp add: now_ms_def)
qed

lemma now_quota [simp]:
  "now_ms (purge_quota ip ph q s) = now_ms s" "now_ms (add_quota ip ph rid q s) = now_ms s"
  by (simp_all add: purge_quota_def add_quota_def)

lemma typed_quota [simp]:
  "zset_typed s k \<Longrightarrow> zset_typed (purge_quota ip ph q s) k"
  "zset_typed s k \<Longrightarrow> zset_typed (add_quota ip ph rid q s) k"
  by (simp_all add: purge_quota_def add_quota_def)

fun quota_index :: "quota \<Rightarrow> nat" where
  "quota_index IPMinute = 1"
| "quota_index PhoneMinute = 2"
| "quota_index IPDay = 3"
| "quota_index PhoneDay = 4"

lemma quota_index_reason: "int (quota_index q) = quota_reason q"
  by (cases q) (simp_all add: sms_reasons)

lemma each_purge:
  "\<forall>q\<in>set qs. zset_typed s (quota_key q ip ph) \<Longrightarrow>
   \<forall>q\<in>set qs. quota_keep q (now_ms s) = (\<lambda>t. \<not> within b t) \<Longrightarrow>
   lua_each (\<lambda>k. cmd_zremrangebyscore k b) (map (\<lambda>q. quota_key q ip ph) qs) k s =
     k (fold (purge_quota ip ph) qs s)"
proof (induction qs arbitrary: s)
  case (Cons q qs)
  have "put_zset (quota_key q ip ph) (filter (\<lambda>p. \<not> within b (snd p)) (members s (quota_key q ip ph))) s =
      purge_quota ip ph q s"
    using Cons.prems(2) by (simp add: purge_quota_def quota_window.purged_def)
  with Cons.prems Cons.IH [of "purge_quota ip ph q s"] show ?case by simp
qed simp

lemma check_quotas:
  "\<forall>q\<in>set qs. zset_typed s (quota_key q ip ph) \<Longrightarrow>
   lua_check ref_redis (map (\<lambda>q. (quota_index q, quota_key q ip ph, quota_limit q p)) qs) k s =
     (case find (quota_full ip ph p s) qs of Some q \<Rightarrow> (Inr (quota_reason q), s) | None \<Rightarrow> k s)"
  by (induction qs) (simp_all add: quota_full_def quota_index_reason ret_def)

lemma each_add:
  "\<forall>q\<in>set qs. zset_typed s (quota_key q ip ph) \<Longrightarrow> now_ms s = now \<Longrightarrow>
   lua_each
     (\<lambda>(i, k). call (cmd_zadd k now rid) fail (\<lambda>_.
        if i \<le> 2 then cmd_pexpire k 60000 else cmd_pexpireat k (day_start now + day_length)))
     (map (\<lambda>q. (quota_index q, quota_key q ip ph)) qs) k s =
     k (fold (add_quota ip ph rid) qs s)"
proof (induction qs arbitrary: s)
  case (Cons q qs)
  have "call (cmd_zadd (quota_key q ip ph) now rid) fail (\<lambda>_.
      if quota_index q \<le> 2 then cmd_pexpire (quota_key q ip ph) 60000
      else cmd_pexpireat (quota_key q ip ph) (day_start now + day_length)) s =
      (Inr (), add_quota ip ph rid q s)"
    using Cons.prems
    by (cases q) (simp_all add: add_quota_def cmd_expire_reply flip: cmd_pexpireat_reply)
  then have "call (\<lambda>s. call (cmd_zadd (quota_key q ip ph) now rid) fail (\<lambda>_.
      if quota_index q \<le> 2 then cmd_pexpire (quota_key q ip ph) 60000
      else cmd_pexpireat (quota_key q ip ph) (day_start now + day_length)) s) fail g s =
      g () (add_quota ip ph rid q s)" for g :: "unit \<Rightarrow> (rstore, 'a) go"
    by (rule call_Inr)
  with Cons show ?case by simp
qed simp

lemma reserve_lua_eq:
  assumes "quotas_typed ip ph s"
  shows "reserve_lua ref_redis (sms_limit_keys ip ph) (policy_limits p) rid s =
    (let s1 = fold (purge_quota ip ph) quotas s in
     case find (quota_full ip ph p s1) quotas of
       Some q \<Rightarrow> (Inr (quota_reason q), s1)
     | None \<Rightarrow> (Inr 0, fold (add_quota ip ph rid) quotas s1))"
proof -
  have typed: "zset_typed s (quota_key q ip ph)" for q using assms by (simp add: quotas_typed_def)
  have time: "call cmd_time h f s = f (rs_us s div 1000000, rs_us s mod 1000000) s" for h and f :: "_ \<Rightarrow> (rstore, int) go"
    by (simp add: call_def cmd_time_def)
  have upt: "[1..<5] = [1, 2, 3, 4 :: nat]" by (simp add: upt_rec)
  have keys: "take 2 (sms_limit_keys ip ph) = map (\<lambda>q. quota_key q ip ph) [IPMinute, PhoneMinute]"
    "take 2 (drop 2 (sms_limit_keys ip ph)) = map (\<lambda>q. quota_key q ip ph) [IPDay, PhoneDay]"
    "zip [1..<5] (sms_limit_keys ip ph) = map (\<lambda>q. (quota_index q, quota_key q ip ph)) quotas"
    "zip [1..<5] (zip (sms_limit_keys ip ph) (policy_limits p)) =
       map (\<lambda>q. (quota_index q, quota_key q ip ph, quota_limit q p)) quotas"
    unfolding upt sms_limit_keys_quotas policy_limits_def quotas_def
    by simp_all
  let ?s1 = "fold (purge_quota ip ph) quotas s"
  have s1: "?s1 = fold (purge_quota ip ph) [IPDay, PhoneDay]
      (fold (purge_quota ip ph) [IPMinute, PhoneMinute] s)"
    by (simp add: quotas_def)
  have typed1: "\<forall>q\<in>set quotas. zset_typed ?s1 (quota_key q ip ph)" "now_ms ?s1 = now_ms s"
    using typed by (simp_all add: quotas_def)
  let ?s0 = "fold (purge_quota ip ph) [IPMinute, PhoneMinute] s"
  have minute: "lua_each (\<lambda>k. cmd_zremrangebyscore k (AtMost (now_ms s - 60000)))
      (map (\<lambda>q. quota_key q ip ph) [IPMinute, PhoneMinute]) k s = k ?s0" for k :: "(rstore, int) go"
    by (rule each_purge) (auto simp: typed fun_eq_iff not_le)
  have day: "lua_each (\<lambda>k. cmd_zremrangebyscore k (Below (day_start (now_ms s))))
      (map (\<lambda>q. quota_key q ip ph) [IPDay, PhoneDay]) k ?s0 = k ?s1" for k :: "(rstore, int) go"
    unfolding s1 by (rule each_purge) (auto simp: typed fun_eq_iff not_less)
  show ?thesis
    unfolding reserve_lua_def ref_redis_simps time prod.case time_ms Let_def keys minute day
      check_quotas [OF typed1(1)] each_add [OF typed1]
    by (simp add: ret_def split: option.split)
qed

section \<open>Reservations in the windows\<close>

text \<open>
  A granted reservation: its id, its time, and the address and phone it was granted to. The
  ones that count for a key are those whose own key of that quota it is.
\<close>

type_synonym grant = "string \<times> int \<times> string \<times> string"

definition counted :: "quota \<Rightarrow> string \<Rightarrow> string \<Rightarrow> grant list \<Rightarrow> (string \<times> int) list" where
  "counted q ip ph A =
     map (\<lambda>(m, t, _). (m, t)) (filter (\<lambda>(m, t, ip', ph'). quota_key q ip' ph' = quota_key q ip ph) A)"

definition all_covered :: "rstore \<Rightarrow> grant list \<Rightarrow> bool" where
  "all_covered s A \<longleftrightarrow> (\<forall>q ip ph. quota_window.covers q s (quota_key q ip ph) (counted q ip ph A))"

lemma counted_ids: "fst ` set (counted q ip ph A) \<subseteq> fst ` set A"
  by (force simp: counted_def)

lemma counted_distinct: "distinct (map fst A) \<Longrightarrow> distinct (map fst (counted q ip ph A))"
proof -
  have "map fst (counted q ip ph A) =
      map fst (filter (\<lambda>(m, t, ip', ph'). quota_key q ip' ph' = quota_key q ip ph) A)"
    by (simp add: counted_def comp_def case_prod_beta)
  then show "distinct (map fst A) \<Longrightarrow> ?thesis" by (simp add: distinct_map_filter)
qed

lemma covers_purge_quota:
  assumes "all_covered s A" and "zset_typed s (quota_key q ip ph)"
  shows "all_covered (purge_quota ip ph q s) A"
  unfolding all_covered_def
proof (intro allI)
  fix q' ip' ph'
  have cov: "quota_window.covers q' s (quota_key q' ip' ph') (counted q' ip' ph' A)"
    using assms(1) by (simp add: all_covered_def)
  show "quota_window.covers q' (purge_quota ip ph q s) (quota_key q' ip' ph') (counted q' ip' ph' A)"
  proof (cases "quota_key q' ip' ph' = quota_key q ip ph")
    case True
    then have "q' = q" by (rule quota_key_kind)
    with True cov quota_window.covers_purge [OF _ as_zset_members [OF assms(2)]] show ?thesis
      by (simp add: purge_quota_def)
  next
    case False
    with cov show ?thesis by (simp add: purge_quota_def quota_window.covers_other)
  qed
qed

lemma covers_purges:
  "all_covered s A \<Longrightarrow> quotas_typed ip ph s \<Longrightarrow>
   all_covered (fold (purge_quota ip ph) qs s) A \<and> quotas_typed ip ph (fold (purge_quota ip ph) qs s)"
  by (induction qs arbitrary: s) (auto simp: covers_purge_quota quotas_typed_def)

lemma quota_expiry_outlasts:
  "t \<le> n0 \<Longrightarrow> quota_keep q n t \<Longrightarrow> n \<le> quota_expiry q n0" "n0 < quota_expiry q n0"
proof -
  have "day_start n \<le> n0 \<Longrightarrow> n \<le> day_start n0 + day_length"
    using day_start_before [of n n0] day_start_bounds(2) [of n] by simp
  then show "t \<le> n0 \<Longrightarrow> quota_keep q n t \<Longrightarrow> n \<le> quota_expiry q n0" by (cases q) auto
  show "n0 < quota_expiry q n0" using day_start_bounds(2) [of n0] by (cases q) simp_all
qed

lemma covers_add_quota:
  assumes cov: "quota_window.covers q s (quota_key q ip ph) B" and typed: "zset_typed s (quota_key q ip ph)"
    and fresh: "rid \<notin> fst ` set B" and past: "\<forall>p\<in>set B. snd p \<le> now_ms s"
  shows "quota_window.covers q (add_quota ip ph rid q s) (quota_key q ip ph) ((rid, now_ms s) # B)"
  unfolding add_quota_def
proof (rule quota_window.covers_add [OF cov as_zset_members [OF typed] fresh])
  show "now_ms s < quota_expiry q (now_ms s)" by (rule quota_expiry_outlasts)
  show "n \<le> quota_expiry q (now_ms s)"
    if "(m, t) \<in> set ((rid, now_ms s) # B)" "quota_keep q n t" for m n t
    using that past by (intro quota_expiry_outlasts(1) [of t]) auto
qed

lemma adds_other:
  "k' \<notin> (\<lambda>q. quota_key q ip ph) ` set qs \<Longrightarrow>
   live (fold (add_quota ip ph rid) qs s) k' = live s k' \<and>
   now_ms (fold (add_quota ip ph rid) qs s) = now_ms s \<and>
   (zset_typed s k \<longrightarrow> zset_typed (fold (add_quota ip ph rid) qs s) k)"
proof (induction qs arbitrary: s)
  case (Cons q qs)
  have "live (add_quota ip ph rid q s) k' = live s k'"
    using Cons.prems by (simp add: add_quota_def)
  with Cons show ?case by simp
qed simp

lemma quotas_all: "q \<in> set quotas"
  by (cases q) (simp_all add: quotas_def)

lemma covers_adds_key:
  assumes cov: "quota_window.covers q s k B" and k: "k = quota_key q ip ph"
    and typed: "quotas_typed ip ph s" and fresh: "rid \<notin> fst ` set B"
    and past: "\<forall>p\<in>set B. snd p \<le> now_ms s"
  shows "quota_window.covers q (fold (add_quota ip ph rid) quotas s) k ((rid, now_ms s) # B)"
proof -
  have "q \<in> set quotas" and "distinct quotas" by (rule quotas_all) (simp add: quotas_def)
  then obtain xs ys where split: "quotas = xs @ q # ys" "q \<notin> set xs" "q \<notin> set ys"
    by (metis distinct_append distinct.simps(2) not_distinct_conv_prefix split_list)
  have out: "k \<notin> (\<lambda>q. quota_key q ip ph) ` set xs" "k \<notin> (\<lambda>q. quota_key q ip ph) ` set ys"
    using split(2,3) quota_key_kind unfolding k by blast+
  let ?s1 = "fold (add_quota ip ph rid) xs s"
  let ?s2 = "add_quota ip ph rid q ?s1"
  have s1: "live ?s1 k = live s k" "now_ms ?s1 = now_ms s" "zset_typed ?s1 k"
    using adds_other [OF out(1)] typed by (auto simp: quotas_typed_def k)
  have "quota_window.covers q ?s1 k B" using cov s1 quota_window.covers_cong by blast
  then have "quota_window.covers q ?s2 k ((rid, now_ms s) # B)"
    using covers_add_quota [of q ?s1 ip ph B rid] s1 fresh past by (simp add: k)
  then have "quota_window.covers q (fold (add_quota ip ph rid) ys ?s2) k ((rid, now_ms s) # B)"
    using adds_other [OF out(2)] quota_window.covers_cong by blast
  then show ?thesis by (simp add: split(1))
qed

lemma covers_adds:
  assumes "all_covered s A" and "quotas_typed ip ph s" and "rid \<notin> fst ` set A"
    and "\<forall>(m, t, x)\<in>set A. t \<le> now_ms s"
  shows "all_covered (fold (add_quota ip ph rid) quotas s) ((rid, now_ms s, ip, ph) # A)"
  unfolding all_covered_def
proof (intro allI)
  fix q ip' ph'
  let ?k = "quota_key q ip' ph'"
  have fresh: "rid \<notin> fst ` set (counted q ip' ph' A)" using counted_ids assms(3) by blast
  have past: "\<forall>p\<in>set (counted q ip' ph' A). snd p \<le> now_ms s"
    using assms(4) by (auto simp: counted_def)
  have cov: "quota_window.covers q s ?k (counted q ip' ph' A)"
    using assms(1) by (simp add: all_covered_def)
  show "quota_window.covers q (fold (add_quota ip ph rid) quotas s) ?k
      (counted q ip' ph' ((rid, now_ms s, ip, ph) # A))"
  proof (cases "?k = quota_key q ip ph")
    case True
    with covers_adds_key [OF cov True assms(2) fresh past] show ?thesis by (simp add: counted_def)
  next
    case False
    then have "?k \<notin> (\<lambda>q. quota_key q ip ph) ` set quotas" using quota_key_kind by blast
    from adds_other [OF this] have "quota_window.covers q (fold (add_quota ip ph rid) quotas s) ?k
        (counted q ip' ph' A)"
      using cov quota_window.covers_cong by blast
    with False show ?thesis by (auto simp: counted_def)
  qed
qed

section \<open>One reservation\<close>

definition all_typed :: "rstore \<Rightarrow> bool" where
  "all_typed s \<longleftrightarrow> (\<forall>ip ph. quotas_typed ip ph s)"

lemma all_typed_fold:
  assumes "\<And>q s k. zset_typed s k \<Longrightarrow> zset_typed (f q s) k"
  shows "all_typed s \<Longrightarrow> all_typed (fold f qs s)"
  by (induction qs arbitrary: s) (use assms in \<open>auto simp: all_typed_def quotas_typed_def\<close>)

lemma now_fold: "(\<And>q s. now_ms (f q s) = now_ms s) \<Longrightarrow> now_ms (fold f qs s) = now_ms s"
  by (induction qs arbitrary: s) simp_all

lemma all_covered_Cons: "all_covered s (g # A) \<Longrightarrow> all_covered s A"
  unfolding all_covered_def
  by (auto simp: counted_def intro: quota_window.covers_subset split: if_splits)
    (metis (no_types, lifting) quota_window.covers_subset set_subset_Cons)

lemma count_below_limit:
  assumes "all_covered s A" and "all_typed s" and "distinct (map fst A)" and "\<not> quota_full ip ph p s q"
  shows "int (length (filter (\<lambda>x. quota_keep q (now_ms s) (snd x)) (counted q ip ph A))) < quota_limit q p"
proof -
  let ?k = "quota_key q ip ph"
  have z: "as_zset (live s ?k) = Inr (members s ?k)"
    using assms(2) as_zset_members by (simp add: all_typed_def quotas_typed_def)
  have cov: "quota_window.covers q s ?k (counted q ip ph A)"
    using assms(1) by (simp add: all_covered_def)
  have "length (filter (\<lambda>x. quota_keep q (now_ms s) (snd x)) (counted q ip ph A)) \<le>
      length (quota_window.purged q s (members s ?k))"
    by (rule quota_window.covers_count [OF cov z counted_distinct [OF assms(3)]])
  also have "\<dots> \<le> length (members s ?k)" by (simp add: quota_window.purged_def)
  finally show ?thesis using assms(4) by (simp add: quota_full_def)
qed

definition granted :: "go_err + (sms_reservation option \<times> int) \<Rightarrow> bool" where
  "granted r \<longleftrightarrow> (\<exists>rv n. r = Inr (Some rv, n))"

lemma reserve_lua_covers:
  assumes A: "all_covered s A" "all_typed s" "distinct (map fst A)" "rid \<notin> fst ` set A"
    and past: "\<forall>(m, t, x)\<in>set A. t \<le> now_ms s"
    and run: "reserve_lua ref_redis (sms_limit_keys ip ph) (policy_limits p) rid s = (r, s')"
  shows "all_covered s' (if r = Inr 0 then (rid, now_ms s, ip, ph) # A else A) \<and> all_typed s' \<and>
    now_ms s' = now_ms s \<and>
    (r = Inr 0 \<longrightarrow> (\<forall>q. int (length (filter (\<lambda>x. quota_keep q (now_ms s) (snd x)) (counted q ip ph A)))
                        < quota_limit q p))"
proof -
  let ?s1 = "fold (purge_quota ip ph) quotas s"
  have typed: "quotas_typed ip ph s" using A(2) by (simp add: all_typed_def)
  have s1: "all_covered ?s1 A" "quotas_typed ip ph ?s1" "all_typed ?s1" "now_ms ?s1 = now_ms s"
    using covers_purges [OF A(1) typed] A(2) by (auto intro: all_typed_fold now_fold)
  note eq = reserve_lua_eq [OF typed, of p rid, unfolded Let_def run]
  show ?thesis
  proof (cases "find (quota_full ip ph p ?s1) quotas")
    case (Some q)
    moreover have "quota_reason q \<noteq> 0" by (cases q) (simp_all add: sms_reasons)
    ultimately show ?thesis using eq s1 by simp
  next
    case None
    with eq have r: "r = Inr 0" "s' = fold (add_quota ip ph rid) quotas ?s1" by simp_all
    have past1: "\<forall>(m, t, x)\<in>set A. t \<le> now_ms ?s1" using past s1(4) by simp
    have "\<not> quota_full ip ph p ?s1 q" for q
      using None quotas_all [of q] unfolding find_None_iff by blast
    with count_below_limit [OF s1(1,3) A(3)] s1(4)
    have "\<forall>q. int (length (filter (\<lambda>x. quota_keep q (now_ms s) (snd x)) (counted q ip ph A))) < quota_limit q p"
      by simp
    moreover have "all_covered s' ((rid, now_ms s, ip, ph) # A)"
      using covers_adds [OF s1(1,2) A(4) past1] s1(4) r by simp
    moreover have "all_typed s'" using s1(3) r by (auto intro: all_typed_fold)
    moreover have "now_ms s' = now_ms s" using s1(4) r by (simp add: now_fold)
    ultimately show ?thesis using r by simp
  qed
qed

definition uuid_law :: "'w runtime \<Rightarrow> ('w \<Rightarrow> rstore) \<Rightarrow> bool" where
  "uuid_law rt V \<longleftrightarrow> (\<forall>w. V (snd (rt_uuid rt w)) = V w)"

lemma reserve_step:
  assumes law: "redis_law R V" and rt: "uuid_law rt V"
    and A: "all_covered (V w) A" "all_typed (V w)" "distinct (map fst A)" "fst (rt_uuid rt w) \<notin> fst ` set A"
    and past: "\<forall>(m, t, x)\<in>set A. t \<le> now_ms (V w)"
    and run: "reserve R rt ip ph p w = (r, w')"
  defines "g \<equiv> (fst (rt_uuid rt w), now_ms (V w), ip, ph)"
  shows "all_covered (V w') (if granted r then g # A else A) \<and> all_typed (V w') \<and>
    now_ms (V w') = now_ms (V w) \<and>
    (granted r \<longrightarrow> (\<forall>q. int (length (filter (\<lambda>x. quota_keep q (now_ms (V w)) (snd x)) (counted q ip ph A)))
                        < quota_limit q p))"
proof (cases "lp_ip_minute p \<le> 0 \<or> lp_phone_minute p \<le> 0 \<or> lp_ip_day p \<le> 0 \<or> lp_phone_day p \<le> 0")
  case True
  with run A show ?thesis by (auto simp: reserve_def granted_def)
next
  case False
  let ?w1 = "snd (rt_uuid rt w)" and ?rid = "fst (rt_uuid rt w)"
  have V1: "V ?w1 = V w" using rt by (simp add: uuid_law_def)
  obtain r1 where r1: "rd_run R (reserve_lua R (sms_limit_keys ip ph) (policy_limits p) ?rid) ?w1 = (r1, w')"
    and r: "granted r \<longleftrightarrow> r1 = Inr 0"
    using run False
    by (auto simp: reserve_def effect_def call_def granted_def policy_limits_def split: prod.splits sum.splits
        if_splits)
  obtain rs s' where ref: "reserve_lua ref_redis (sms_limit_keys ip ph) (policy_limits p) ?rid (V w) = (rs, s')"
    by fastforce
  note script = reserve_lua_covers [OF A past ref]
  then have sub: "all_covered s' A" by (auto split: if_splits dest: all_covered_Cons)
  from run_served [OF law reserve_lua_exact [OF law]] r1 show ?thesis
  proof (cases rule: served_cases)
    case reply
    with ref V1 have "rs = r1" "V w' = s'" by simp_all
    with script r show ?thesis by (cases "r1 = Inr 0") (simp_all add: g_def)
  next
    case (lost msg)
    then have "V w' = V w \<or> V w' = s'" and "\<not> granted r" using ref V1 r by simp_all
    with script sub A(1,2) show ?thesis by auto
  qed
qed

section \<open>A sequence of reservations\<close>

record attempt =
  at_now :: int
  at_id :: string
  at_ip :: string
  at_phone :: string
  at_policy :: sms_limit_policy
  at_reply :: "go_err + (sms_reservation option \<times> int)"

fun reserve_run ::
    "'w redis \<Rightarrow> 'w runtime \<Rightarrow> ('w \<Rightarrow> rstore) \<Rightarrow> (('w \<Rightarrow> 'w) \<times> string \<times> string \<times> sms_limit_policy) list
      \<Rightarrow> 'w \<Rightarrow> attempt list"
where
  "reserve_run R rt V [] w = []"
| "reserve_run R rt V ((env, ip, ph, p) # xs) w =
     (let w0 = env w; (r, w1) = reserve R rt ip ph p w0
      in \<lparr>at_now = now_ms (V w0), at_id = fst (rt_uuid rt w0), at_ip = ip, at_phone = ph,
          at_policy = p, at_reply = r\<rparr> # reserve_run R rt V xs w1)"

definition keeps_quotas :: "('w \<Rightarrow> rstore) \<Rightarrow> ('w \<Rightarrow> 'w) \<Rightarrow> bool" where
  "keeps_quotas V env \<longleftrightarrow> (\<forall>q ip ph. keeps_key V (quota_key q ip ph) env)"

definition grants :: "attempt list \<Rightarrow> grant list" where
  "grants hs = map (\<lambda>a. (at_id a, at_now a, at_ip a, at_phone a)) (filter (\<lambda>a. granted (at_reply a)) hs)"

lemma grants_Cons:
  "grants (a # hs) =
     (if granted (at_reply a) then [(at_id a, at_now a, at_ip a, at_phone a)] else []) @ grants hs"
  by (simp add: grants_def)

lemma counted_append: "counted q ip ph (A @ B) = counted q ip ph A @ counted q ip ph B"
  by (simp add: counted_def)

definition window_count :: "quota \<Rightarrow> int \<Rightarrow> string \<Rightarrow> string \<Rightarrow> grant list \<Rightarrow> int" where
  "window_count q now ip ph A =
     int (length (filter (\<lambda>x. quota_keep q now (snd x)) (counted q ip ph A)))"

lemma window_count_append [simp]:
  "window_count q now ip ph (A @ B) = window_count q now ip ph A + window_count q now ip ph B"
  by (simp add: window_count_def counted_append)

lemma window_count_Nil [simp]: "window_count q now ip ph [] = 0"
  by (simp add: window_count_def counted_def)

lemma window_count_Cons:
  "window_count q now ip ph (g # A) = window_count q now ip ph [g] + window_count q now ip ph A"
  using window_count_append [of q now ip ph "[g]" A] by simp

lemma window_count_one: "window_count q now ip ph [g] \<le> 1"
  by (simp add: window_count_def counted_def)

lemma keeps_quotas_inv:
  assumes "keeps_quotas V env" and "all_covered (V w) A" and "all_typed (V w)"
  shows "all_covered (V (env w)) A \<and> all_typed (V (env w)) \<and> now_ms (V w) \<le> now_ms (V (env w))"
proof (intro conjI)
  have k: "keeps_key V (quota_key q ip ph) env" for q ip ph
    using assms(1) by (simp add: keeps_quotas_def)
  show "all_covered (V (env w)) A"
    using assms(2) quota_window.covers_env [OF k] by (simp add: all_covered_def)
  show "now_ms (V w) \<le> now_ms (V (env w))" using k by (simp add: keeps_key_def)
  show "all_typed (V (env w))"
    unfolding all_typed_def quotas_typed_def
  proof (intro allI)
    fix ip ph q
    have "zset_typed (V w) (quota_key q ip ph)"
      using assms(3) by (simp add: all_typed_def quotas_typed_def)
    moreover have "live (V (env w)) (quota_key q ip ph) =
        (case live (V w) (quota_key q ip ph) of None \<Rightarrow> None
         | Some e \<Rightarrow> if alive (V (env w)) e then Some e else None)"
      using k unfolding keeps_key_def by blast
    ultimately show "zset_typed (V (env w)) (quota_key q ip ph)"
      by (auto simp: zset_typed_def as_zset_def split: option.splits if_splits)
  qed
qed

lemma reserve_run_window:
  assumes law: "redis_law R V" and rt: "uuid_law rt V"
  shows "\<forall>x\<in>set xs. keeps_quotas V (fst x) \<Longrightarrow> all_covered (V w) A \<Longrightarrow> all_typed (V w) \<Longrightarrow>
    \<forall>(m, t, x)\<in>set A. t \<le> now_ms (V w) \<Longrightarrow> reserve_run R rt V xs w = hs \<Longrightarrow>
    distinct (map fst A @ map at_id hs) \<Longrightarrow> i < length hs \<Longrightarrow> granted (at_reply (hs ! i)) \<Longrightarrow>
    window_count q (at_now (hs ! i)) (at_ip (hs ! i)) (at_phone (hs ! i)) (A @ grants (take (Suc i) hs))
    \<le> quota_limit q (at_policy (hs ! i))"
proof (induction xs arbitrary: w A hs i)
  case (Cons x xs)
  obtain env ip ph p where x: "x = (env, ip, ph, p)" by (metis prod.collapse)
  let ?w0 = "env w"
  obtain r w1 where r: "reserve R rt ip ph p ?w0 = (r, w1)" by fastforce
  define g where "g = (fst (rt_uuid rt ?w0), now_ms (V ?w0), ip, ph)"
  define hs1 where "hs1 = reserve_run R rt V xs w1"
  let ?a = "\<lparr>at_now = now_ms (V ?w0), at_id = fst (rt_uuid rt ?w0), at_ip = ip, at_phone = ph,
          at_policy = p, at_reply = r\<rparr>"
  have hs: "hs = ?a # hs1" using Cons.prems(5) by (simp add: x r hs1_def Let_def)
  have env: "keeps_quotas V env" and envs: "\<forall>x\<in>set xs. keeps_quotas V (fst x)"
    using Cons.prems(1) by (simp_all add: x)
  note kept = keeps_quotas_inv [OF env Cons.prems(2,3)]
  then have past: "\<forall>(m, t, x)\<in>set A. t \<le> now_ms (V ?w0)" using Cons.prems(4) by fastforce
  have dist: "distinct (map fst A)" and fresh: "fst (rt_uuid rt ?w0) \<notin> fst ` set A"
    using Cons.prems(6) by (auto simp: hs)
  have cov: "all_covered (V ?w0) A" and typed: "all_typed (V ?w0)" using kept by blast+
  note st = reserve_step [OF law rt cov typed dist fresh past r, folded g_def]
  show ?case
  proof (cases i)
    case 0
    with Cons.prems(8) have g: "granted r" by (simp add: hs)
    have "window_count q (now_ms (V ?w0)) ip ph A < quota_limit q p"
      using st g unfolding window_count_def by blast
    with g window_count_one [of q "now_ms (V ?w0)" ip ph g] show ?thesis
      by (simp add: hs 0 grants_def g_def)
  next
    case (Suc j)
    define A' where "A' = (if granted r then g # A else A)"
    have "window_count q (at_now (hs1 ! j)) (at_ip (hs1 ! j)) (at_phone (hs1 ! j))
        (A' @ grants (take (Suc j) hs1))
      \<le> quota_limit q (at_policy (hs1 ! j))"
    proof (rule Cons.IH [OF envs])
      show "all_covered (V w1) A'" "all_typed (V w1)" using st by (auto simp: A'_def)
      show "\<forall>(m, t, x)\<in>set A'. t \<le> now_ms (V w1)" using st past by (auto simp: A'_def g_def)
      show "reserve_run R rt V xs w1 = hs1" by (simp add: hs1_def)
      show "distinct (map fst A' @ map at_id hs1)"
        using Cons.prems(6) by (auto simp: hs A'_def g_def)
      show "j < length hs1" "granted (at_reply (hs1 ! j))"
        using Cons.prems(7,8) Suc by (simp_all add: hs)
    qed
    then show ?thesis
      using window_count_Cons [of q _ _ _ g "A @ grants (take (Suc j) hs1)"]
        window_count_Cons [of q _ _ _ g "grants (take (Suc j) hs1)"]
      by (cases "granted r") (simp_all add: hs Suc A'_def g_def grants_Cons)
  qed
qed simp

section \<open>Giving a reservation back\<close>

definition drop_member :: "string \<Rightarrow> string \<Rightarrow> rstore \<Rightarrow> rstore" where
  "drop_member rid k s = put_zset k (AList.delete rid (members s k)) s"

lemma release_lua_eq:
  "\<forall>k\<in>set ks. zset_typed s k \<Longrightarrow> release_lua ref_redis ks rid s = (Inr 1, fold (drop_member rid) ks s)"
proof (induction ks arbitrary: s)
  case Nil
  then show ?case by (simp add: release_lua_def ret_def)
next
  case (Cons k ks)
  then show ?case by (simp add: release_lua_def drop_member_def)
qed

lemma members_drop:
  "distinct ks \<Longrightarrow> members (fold (drop_member rid) ks s) k =
     (if k \<in> set ks then AList.delete rid (members s k) else members s k)"
proof (induction ks arbitrary: s)
  case (Cons a ks)
  then show ?case by (simp add: drop_member_def)
qed simp

lemma distinct_keys: "distinct (sms_limit_keys ip ph)"
  by (simp add: sms_limit_keys_def)

lemma members_purges:
  "distinct qs \<Longrightarrow> members (fold (purge_quota ip ph) qs s) (quota_key q ip ph) =
     (if q \<in> set qs then quota_window.purged q s (members s (quota_key q ip ph))
      else members s (quota_key q ip ph))"
proof (induction qs arbitrary: s)
  case (Cons a qs)
  then show ?case
    by (cases "q = a") (auto simp: purge_quota_def quota_window.purged_def)
qed simp

lemma members_adds:
  "distinct qs \<Longrightarrow> members (fold (add_quota ip ph rid) qs s) (quota_key q ip ph) =
     (if q \<in> set qs then AList.update rid (now_ms s) (members s (quota_key q ip ph))
      else members s (quota_key q ip ph))"
proof (induction qs arbitrary: s)
  case (Cons a qs)
  have "members (add_quota ip ph rid a s) (quota_key q ip ph) =
      (if q = a then AList.update rid (now_ms s) (members s (quota_key q ip ph))
       else members s (quota_key q ip ph))"
    using quota_expiry_outlasts(2) [of "now_ms s" a] by (simp add: add_quota_def)
  with Cons show ?case by auto
qed simp

lemma delete_update_new: "rid \<notin> fst ` set z \<Longrightarrow> AList.delete rid (AList.update rid t z) = z"
  by (induction z) (auto simp: AList.delete_eq)

lemma reserve_reply_cases:
  assumes "redis_law R V" and "uuid_law rt V" and "all_typed (V w)"
    and "\<forall>q. 0 < quota_limit q p" and "reserve R rt ip ph p w = (Inr (rv, reason), w')"
  defines "z \<equiv> \<lambda>q. quota_window.purged q (V w) (members (V w) (quota_key q ip ph))"
    and "after \<equiv> \<lambda>q. members (V w') (quota_key q ip ph)"
  shows "rv = None \<and> (\<forall>q. after q = z q) \<and>
      (\<exists>q. reason = quota_reason q \<and> quota_limit q p \<le> int (length (z q)) \<and>
         (\<forall>q'. quota_index q' < quota_index q \<longrightarrow> int (length (z q')) < quota_limit q' p)) \<or>
    rv = Some \<lparr>rv_id = fst (rt_uuid rt w), rv_keys = sms_limit_keys ip ph\<rparr> \<and> reason = SMSLimitAllowed \<and>
      (\<forall>q. int (length (z q)) < quota_limit q p \<and>
         after q = AList.update (fst (rt_uuid rt w)) (now_ms (V w)) (z q))"
proof -
  let ?w1 = "snd (rt_uuid rt w)" and ?rid = "fst (rt_uuid rt w)"
  let ?s1 = "fold (purge_quota ip ph) quotas (V w)"
  have V1: "V ?w1 = V w" using assms(2) by (simp add: uuid_law_def)
  have pos: "\<not> (lp_ip_minute p \<le> 0 \<or> lp_phone_minute p \<le> 0 \<or> lp_ip_day p \<le> 0 \<or> lp_phone_day p \<le> 0)"
    using assms(4) by (metis not_le quota_limit.simps)
  obtain n where r1: "rd_run R (reserve_lua R (sms_limit_keys ip ph) (policy_limits p) ?rid) ?w1 = (Inr n, w')"
    and r: "(rv, reason) = (if n \<noteq> 0 then (None, n)
      else (Some \<lparr>rv_id = ?rid, rv_keys = sms_limit_keys ip ph\<rparr>, SMSLimitAllowed))"
    using assms(5) pos
    by (auto simp: reserve_def effect_def call_def policy_limits_def split: prod.splits sum.splits if_splits)
  from run_served [OF assms(1) reserve_lua_exact [OF assms(1)]] r1
  have eq: "reserve_lua ref_redis (sms_limit_keys ip ph) (policy_limits p) ?rid (V w) = (Inr n, V w')"
    by (cases rule: served_cases) (simp_all add: V1)
  have typed: "quotas_typed ip ph (V w)" using assms(3) by (simp add: all_typed_def)
  note eq = eq [unfolded reserve_lua_eq [OF typed] Let_def]
  have s1: "members ?s1 (quota_key q ip ph) = z q" "now_ms ?s1 = now_ms (V w)" for q
    using members_purges [of quotas ip ph "V w" q] quotas_all [of q]
    by (simp_all add: z_def quotas_def now_fold)
  show ?thesis
  proof (cases "find (quota_full ip ph p ?s1) quotas")
    case None
    then have n: "n = 0" "V w' = fold (add_quota ip ph ?rid) quotas ?s1" using eq by simp_all
    have "after q = AList.update ?rid (now_ms (V w)) (z q)" for q
      using members_adds [of quotas ip ph ?rid ?s1 q] quotas_all [of q] s1 n(2)
      by (simp add: after_def quotas_def)
    moreover have "int (length (z q)) < quota_limit q p" for q
      using None quotas_all [of q] s1(1) [of q] by (auto simp: find_None_iff quota_full_def)
    ultimately show ?thesis using r n by simp
  next
    case (Some q)
    then have n: "n = quota_reason q" "V w' = ?s1" using eq by simp_all
    have "n \<noteq> 0" unfolding n(1) by (cases q) (simp_all add: sms_reasons)
    moreover have "\<forall>q. after q = z q" using s1(1) n(2) by (simp add: after_def)
    moreover have "quota_limit q p \<le> int (length (z q))"
      using Some s1(1) [of q] by (auto simp: find_Some_iff quota_full_def)
    moreover have "int (length (z q')) < quota_limit q' p" if "quota_index q' < quota_index q" for q'
      using Some that s1(1) [of q']
      by (cases q; cases q') (auto simp: quotas_def quota_full_def split: if_splits)
    ultimately show ?thesis using r n(1) by auto
  qed
qed

lemma reserve_typed:
  assumes "redis_law R V" and "uuid_law rt V" and "all_typed (V w)" and "reserve R rt ip ph p w = (r, w')"
  shows "all_typed (V w')"
  using reserve_step [OF assms(1,2) _ assms(3) _ _ _ assms(4), of "[]"]
  by (simp add: all_covered_def counted_def)

lemma reserve_granted:
  assumes "redis_law R V" and "uuid_law rt V" and "all_typed (V w)"
    and "\<forall>q. 0 < quota_limit q p" and "reserve R rt ip ph p w = (Inr (Some rv, reason), w')"
  shows "rv_id rv = fst (rt_uuid rt w) \<and> rv_keys rv = sms_limit_keys ip ph \<and>
    members (V w') (quota_key q ip ph) = AList.update (fst (rt_uuid rt w)) (now_ms (V w))
      (quota_window.purged q (V w) (members (V w) (quota_key q ip ph))) \<and>
    quotas_typed ip ph (V w')"
  using reserve_reply_cases [OF assms] reserve_typed [OF assms(1-3,5)] by (auto simp: all_typed_def)

section \<open>Properties\<close>

lemma granted_code [code]: "granted r \<longleftrightarrow> (case r of Inr (Some rv, n) \<Rightarrow> True | _ \<Rightarrow> False)"
  by (auto simp: granted_def split: sum.splits prod.splits option.splits)

text \<open>C30 No SMS quota is ever exceeded. In any sequence of \<open>Reserve\<close> calls, for any addresses, phones and
  policies, with time passing in between and replies of Redis possibly lost, whenever a reservation is
  granted, the reservations granted up to then (itself included) that fall into the same quota (same address
  or phone, in the last 60 seconds or since midnight UTC+8) are at most the limit of its policy, for each of
  the four quotas.\<close>

theorem sms_quota_never_exceeded:
  assumes "redis_law R V" and "uuid_law rt V" and "all_typed (V w)"
    and "\<forall>x\<in>set xs. keeps_quotas V (fst x)"
    and "distinct (map at_id (reserve_run R rt V xs w))"
    and "i < length (reserve_run R rt V xs w)" and "granted (at_reply (reserve_run R rt V xs w ! i))"
  shows "let a = reserve_run R rt V xs w ! i in
    window_count q (at_now a) (at_ip a) (at_phone a) (grants (take (Suc i) (reserve_run R rt V xs w)))
    \<le> quota_limit q (at_policy a)"
  using reserve_run_window [OF assms(1,2,4) _ assms(3) _ refl _ assms(6,7), of "[]" q] assms(5)
  by (simp add: Let_def all_covered_def counted_def)

definition sample_policy :: sms_limit_policy where
  "sample_policy = \<lparr>lp_ip_minute = 10, lp_phone_minute = 1, lp_ip_day = 50, lp_phone_day = 5\<rparr>"

lemma store_uuid_law: "uuid_law store_runtime (\<lambda>s. s)"
  by (simp add: uuid_law_def store_runtime_def)

lemma empty_typed: "all_typed empty_store"
  by (simp add: all_typed_def quotas_typed_def zset_typed_def live_def empty_store_def as_zset_def)

definition sample_attempts :: "attempt list" where
  "sample_attempts =
     reserve_run ref_redis store_runtime (\<lambda>s. s)
       [(wait_us 1000, ''a'', ''1'', sample_policy), (wait_us 1000, ''a'', ''1'', sample_policy),
        (wait_us 1000, ''a'', ''2'', sample_policy)] empty_store"

theorem sms_quota_never_exceeded_witness:
  "map (\<lambda>a. granted (at_reply a)) sample_attempts = [True, False, True] \<and>
   window_count IPMinute 3 ''a'' ''2'' (grants (take 3 sample_attempts)) \<le> 10"
proof -
  let ?xs = "[(wait_us 1000, ''a'', ''1'', sample_policy), (wait_us 1000, ''a'', ''1'', sample_policy),
        (wait_us 1000, ''a'', ''2'', sample_policy)]"
  let ?hs = "reserve_run ref_redis store_runtime (\<lambda>s. s) ?xs empty_store"
  have all: "map (\<lambda>a. granted (at_reply a)) sample_attempts = [True, False, True]" by code_simp
  have len: "2 < length ?hs" and g: "granted (at_reply (?hs ! 2))" by code_simp+
  have ids: "distinct (map at_id ?hs)" by code_simp
  have third: "at_now (?hs ! 2) = 3" "at_ip (?hs ! 2) = ''a''" "at_phone (?hs ! 2) = ''2''"
    "quota_limit IPMinute (at_policy (?hs ! 2)) = 10"
    by code_simp+
  have env: "\<forall>x\<in>set ?xs. keeps_quotas (\<lambda>s. s) (fst x)"
    by (simp add: keeps_quotas_def keeps_key_wait)
  have three: "Suc 2 = 3" by simp
  note quota = sms_quota_never_exceeded [OF ref_redis_law store_uuid_law empty_typed env ids len g,
      of IPMinute, unfolded Let_def third three]
  show ?thesis unfolding sample_attempts_def [symmetric]
    using all quota by (simp only: sample_attempts_def)
qed

text \<open>C31 A reservation is all or nothing. When Redis answers, either every quota has room, and the new id is
  then a member of all four, or the first full quota in the order address per minute, phone per minute,
  address per day, phone per day is the reason of the refusal and no member is added to any of them; old
  members are removed in both cases.\<close>

theorem reserve_all_or_nothing:
  assumes "redis_law R V" and "uuid_law rt V" and "all_typed (V w)"
    and "\<forall>q. 0 < quota_limit q p" and "reserve R rt ip ph p w = (Inr (rv, reason), w')"
  defines "z \<equiv> \<lambda>q. quota_window.purged q (V w) (members (V w) (quota_key q ip ph))"
    and "after \<equiv> \<lambda>q. members (V w') (quota_key q ip ph)"
  shows "rv = None \<and> (\<forall>q. after q = z q) \<and>
      (\<exists>q. reason = quota_reason q \<and> quota_limit q p \<le> int (length (z q)) \<and>
         (\<forall>q'. quota_index q' < quota_index q \<longrightarrow> int (length (z q')) < quota_limit q' p)) \<or>
    rv = Some \<lparr>rv_id = fst (rt_uuid rt w), rv_keys = sms_limit_keys ip ph\<rparr> \<and> reason = SMSLimitAllowed \<and>
      (\<forall>q. int (length (z q)) < quota_limit q p \<and>
         after q = AList.update (fst (rt_uuid rt w)) (now_ms (V w)) (z q))"
  unfolding z_def after_def by (rule reserve_reply_cases [OF assms(1-5)])

theorem reserve_all_or_nothing_witness:
  "members (snd (reserve ref_redis store_runtime ''a'' ''1'' sample_policy empty_store)) ''sms:limit:ip:day:a''
     = [([CHR 0x00], 0)]"
proof -
  let ?r = "reserve ref_redis store_runtime ''a'' ''1'' sample_policy empty_store"
  have pos: "\<forall>q. 0 < quota_limit q sample_policy"
  proof
    fix q show "0 < quota_limit q sample_policy" by (cases q) (simp_all add: sample_policy_def)
  qed
  have fst: "fst ?r = Inr (Some \<lparr>rv_id = [CHR 0x00], rv_keys = sms_limit_keys ''a'' ''1''\<rparr>, 0)" by code_simp
  then have run: "?r = (Inr (Some \<lparr>rv_id = [CHR 0x00], rv_keys = sms_limit_keys ''a'' ''1''\<rparr>, 0), snd ?r)"
    by (metis prod.collapse)
  have rid: "fst (rt_uuid store_runtime empty_store) = [CHR 0x00]" by code_simp
  have none: "members empty_store k = []" for k
    by (simp add: members_def as_zset_def live_def empty_store_def)
  have now: "now_ms empty_store = 0" by code_simp
  have key: "quota_key IPDay ''a'' ''1'' = ''sms:limit:ip:day:a''" by (simp add: quota_key.simps)
  from reserve_all_or_nothing [OF ref_redis_law store_uuid_law empty_typed pos run]
  have "\<forall>q. members (snd ?r) (quota_key q ''a'' ''1'') =
      AList.update [CHR 0x00] 0 (quota_window.purged q empty_store (members empty_store (quota_key q ''a'' ''1'')))"
    by (simp add: rid now)
  from spec [OF this, of IPDay] show ?thesis
    by (simp add: key none quota_window.purged_def)
qed

text \<open>C37 Releasing a granted reservation gives back exactly what it took: if nothing else happened in between
  and Redis answers, the members of the four quotas are those before the reservation, without the expired ones.\<close>

theorem release_returns_quota:
  assumes "redis_law R V" and "uuid_law rt V" and "all_typed (V w)"
    and "\<forall>q. 0 < quota_limit q p" and "reserve R rt ip ph p w = (Inr (Some rv, reason), w1)"
    and "\<forall>q. fst (rt_uuid rt w) \<notin> fst ` set (members (V w) (quota_key q ip ph))"
    and "release R (Some rv) w1 = (Inr (), w2)"
  shows "members (V w2) (quota_key q ip ph) =
    quota_window.purged q (V w) (members (V w) (quota_key q ip ph))"
proof -
  let ?k = "quota_key q ip ph" and ?rid = "fst (rt_uuid rt w)"
  let ?z = "quota_window.purged q (V w) (members (V w) ?k)"
  from reserve_granted [OF assms(1-5)]
  have rv: "rv_id rv = ?rid" "rv_keys rv = sms_limit_keys ip ph"
    and w1: "members (V w1) ?k = AList.update ?rid (now_ms (V w)) ?z" and typed: "quotas_typed ip ph (V w1)"
    by simp_all
  obtain n where "rd_run R (release_lua R (rv_keys rv) (rv_id rv)) w1 = (Inr n, w2)"
    using assms(7) by (auto simp: release_def call_def split: prod.splits sum.splits)
  with run_served [OF assms(1) release_lua_exact [OF assms(1)]]
  have "release_lua ref_redis (rv_keys rv) (rv_id rv) (V w1) = (Inr n, V w2)"
    by (cases rule: served_cases) simp_all
  moreover have "\<forall>k\<in>set (rv_keys rv). zset_typed (V w1) k"
    using typed by (auto simp: rv sms_limit_keys_quotas quotas_typed_def)
  ultimately have w2: "V w2 = fold (drop_member ?rid) (sms_limit_keys ip ph) (V w1)"
    by (simp add: release_lua_eq rv)
  have "?k \<in> set (sms_limit_keys ip ph)" using quotas_all by (simp add: sms_limit_keys_quotas)
  then have "members (V w2) ?k = AList.delete ?rid (AList.update ?rid (now_ms (V w)) ?z)"
    using members_drop [OF distinct_keys [of ip ph], where rid = ?rid and s = "V w1" and k = ?k] w1 w2
    by simp
  also have "\<dots> = ?z"
    using assms(6) by (intro delete_update_new) (auto simp: quota_window.purged_def)
  finally show ?thesis .
qed

theorem release_returns_quota_witness:
  "members (snd (release ref_redis (Some \<lparr>rv_id = [CHR 0x00], rv_keys = sms_limit_keys ''a'' ''1''\<rparr>)
     (snd (reserve ref_redis store_runtime ''a'' ''1'' sample_policy empty_store)))) ''sms:limit:ip:day:a'' = []"
proof -
  let ?r = "reserve ref_redis store_runtime ''a'' ''1'' sample_policy empty_store"
  let ?rv = "\<lparr>rv_id = [CHR 0x00], rv_keys = sms_limit_keys ''a'' ''1''\<rparr>"
  have pos: "\<forall>q. 0 < quota_limit q sample_policy"
  proof
    fix q show "0 < quota_limit q sample_policy" by (cases q) (simp_all add: sample_policy_def)
  qed
  have "fst ?r = Inr (Some ?rv, 0)" by code_simp
  then have run: "?r = (Inr (Some ?rv, 0), snd ?r)" by (metis prod.collapse)
  have none: "members empty_store k = []" for k
    by (simp add: members_def as_zset_def live_def empty_store_def)
  have "fst (release ref_redis (Some ?rv) (snd ?r)) = Inr ()" by code_simp
  then have rel: "release ref_redis (Some ?rv) (snd ?r) = (Inr (), snd (release ref_redis (Some ?rv) (snd ?r)))"
    by (metis prod.collapse)
  have key: "quota_key IPDay ''a'' ''1'' = ''sms:limit:ip:day:a''" by (simp add: quota_key.simps)
  have fresh: "\<forall>q. fst (rt_uuid store_runtime empty_store) \<notin>
      fst ` set (members empty_store (quota_key q ''a'' ''1''))"
    by (simp add: none)
  show ?thesis
    using release_returns_quota [OF ref_redis_law store_uuid_law empty_typed pos run fresh rel, of IPDay]
    by (simp add: key none quota_window.purged_def)
qed

end
