(* ===== verification/SmsService.thy ===== *)
theory SmsService
  imports Captcha SmsCache SmsLimit JsonText
begin

text \<open>
  Sending and verifying SMS codes, \<open>src/internal/service/sms/service.go\<close>. The SMS provider
  (\<open>sms.Client\<close>) and \<open>crypto/rand\<close> are parameters.
\<close>

section \<open>Operations\<close>

record 'w sms_client =
  sm_send_sms :: "string \<Rightarrow> string \<Rightarrow> ('w, unit) go"

record send_sms_code_req =
  sr_phone :: string
  sr_captcha_id :: string
  sr_captcha_code :: string

record 'w sms_service =
  ss_send_code :: "string \<Rightarrow> send_sms_code_req \<Rightarrow> ('w, unit) go"
  ss_verify_code :: "string \<Rightarrow> string \<Rightarrow> ('w, bool) go"

text \<open>\<open>fmt.Sprintf("%06d", n)\<close> of a number that is not negative.\<close>

definition sprintf_06d :: "int \<Rightarrow> string" where
  "sprintf_06d n = replicate (6 - length (show_int n)) (CHR ''0'') @ show_int n"

definition send_code_policy :: sms_limit_policy where
  "send_code_policy = \<lparr>lp_ip_minute = 10, lp_phone_minute = 1, lp_ip_day = 50, lp_phone_day = 5\<rparr>"

definition send_code ::
    "'w captcha \<Rightarrow> 'w sms_cache \<Rightarrow> 'w sms_client \<Rightarrow> 'w sms_limit \<Rightarrow> (int \<Rightarrow> ('w, int) go)
      \<Rightarrow> string \<Rightarrow> send_sms_code_req \<Rightarrow> ('w, unit) go"
where
  "send_code cap cache client limit rand_int client_ip req =
     (if client_ip = [] then fail (BizError 400 (SmsMsg M_client_ip_missing))
      else
        call (cap_verify cap (sr_captcha_id req) (sr_captcha_code req) True)
          (\<lambda>e. fail (BizError 503 (SessionMsg M_captcha_unavailable)))
          (\<lambda>valid.
        if \<not> valid then fail (BizError 400 (SessionMsg M_captcha_wrong))
        else
        call (rand_int 900000)
          (\<lambda>e. fail (BizError 500 (SmsMsg M_sms_unavailable)))
          (\<lambda>number.
        let code = sprintf_06d (number + 100000) in
        call (sl_reserve limit client_ip (sr_phone req) send_code_policy)
          (\<lambda>e. fail (BizError 503 (SmsMsg M_sms_unavailable)))
          (\<lambda>(reservation, reason).
        if reason = SMSLimitAllowed then
          call (sc_set_code cache (sr_phone req) code (minutes 5))
            (\<lambda>e. ignoring (sl_release limit reservation) (fail (BizError 503 (SmsMsg M_sms_unavailable))))
            (\<lambda>_.
          call (sm_send_sms client (sr_phone req) code)
            (\<lambda>e. fail (BizError 503 (SmsMsg M_sms_result_unknown)))
            (\<lambda>_. ret ()))
        else if reason = SMSLimitIPMinute then fail (BizError 429 (SmsMsg M_sms_ip_minute))
        else if reason = SMSLimitPhoneMinute then fail (BizError 429 (SmsMsg M_sms_phone_minute))
        else if reason = SMSLimitIPDay then fail (BizError 429 (SmsMsg M_sms_ip_day))
        else if reason = SMSLimitPhoneDay then fail (BizError 429 (SmsMsg M_sms_phone_day))
        else fail (BizError 503 (SmsMsg M_sms_unavailable))))))"

definition verify_code :: "'w sms_cache \<Rightarrow> string \<Rightarrow> string \<Rightarrow> ('w, bool) go" where
  "verify_code cache phone code =
     call (sc_consume_code cache phone code)
       (\<lambda>e. if errors_is e ErrSMSCodeAttemptsExceeded then fail (BizError 400 (SmsMsg M_sms_three_wrong))
            else fail (BizError 503 (SmsMsg M_sms_unavailable)))
       ret"

definition new_sms_service ::
    "'w captcha \<Rightarrow> 'w sms_cache \<Rightarrow> 'w sms_client \<Rightarrow> 'w sms_limit \<Rightarrow> (int \<Rightarrow> ('w, int) go) \<Rightarrow> 'w sms_service"
where
  "new_sms_service cap cache client limit rand_int =
     \<lparr>ss_send_code = send_code cap cache client limit rand_int, ss_verify_code = verify_code cache\<rparr>"

section \<open>What the parts leave alone\<close>

lemma show_nat_length: "10 ^ k \<le> n \<Longrightarrow> n < 10 ^ Suc k \<Longrightarrow> length (show_nat n) = Suc k"
proof (induction k arbitrary: n)
  case 0
  then show ?case by (subst show_nat.simps) simp
next
  case (Suc k)
  have "(10::nat) \<le> 10 ^ Suc k" by (rule self_le_power) simp_all
  then have "\<not> n < 10" using Suc.prems(1) by linarith
  moreover have "10 ^ k \<le> n div 10" "n div 10 < 10 ^ Suc k"
    using Suc.prems by (simp_all add: less_mult_imp_div_less)
  ultimately show ?case using Suc.IH [of "n div 10"] by (subst show_nat.simps) simp
qed

lemma six_digits:
  assumes "0 \<le> n" and "n < 900000"
  shows "length (sprintf_06d (n + 100000)) = 6 \<and> list_all is_digit (sprintf_06d (n + 100000)) \<and>
    dec_value 0 (sprintf_06d (n + 100000)) = nat (n + 100000)"
proof -
  have "length (show_nat (nat (n + 100000))) = Suc 5"
    using assms by (intro show_nat_length) simp_all
  with assms show_nat_digits [of "nat (n + 100000)"] show ?thesis
    by (simp add: sprintf_06d_def show_int_def)
qed

lemma fold_purge_live:
  "k \<notin> (\<lambda>q. quota_key q ip ph) ` set qs \<Longrightarrow> live (fold (purge_quota ip ph) qs s) k = live s k"
proof (induction qs arbitrary: s)
  case (Cons q qs)
  then show ?case by (simp add: purge_quota_def)
qed simp

lemma reserve_other_keys:
  assumes "redis_law R V" and "uuid_law rt V" and "all_typed (V w)"
    and "reserve R rt ip ph p w = (r, w')" and k: "\<forall>q. k \<noteq> quota_key q ip ph"
  shows "live (V w') k = live (V w) k"
proof (cases "lp_ip_minute p \<le> 0 \<or> lp_phone_minute p \<le> 0 \<or> lp_ip_day p \<le> 0 \<or> lp_phone_day p \<le> 0")
  case True
  with assms(4) show ?thesis by (auto simp: reserve_def)
next
  case False
  let ?w1 = "snd (rt_uuid rt w)" and ?rid = "fst (rt_uuid rt w)"
  have V1: "V ?w1 = V w" using assms(2) by (simp add: uuid_law_def)
  obtain r1 where r1: "rd_run R (reserve_lua R (sms_limit_keys ip ph) (policy_limits p) ?rid) ?w1 = (r1, w')"
    using assms(4) False
    by (auto simp: reserve_def effect_def call_def policy_limits_def split: prod.splits sum.splits if_splits)
  have typed: "quotas_typed ip ph (V w)" using assms(3) by (simp add: all_typed_def)
  have out: "k \<notin> (\<lambda>q. quota_key q ip ph) ` set quotas" using k by blast
  have "live (snd (reserve_lua ref_redis (sms_limit_keys ip ph) (policy_limits p) ?rid (V w))) k = live (V w) k"
    using adds_other [OF out] fold_purge_live [OF out]
    by (simp add: reserve_lua_eq [OF typed] Let_def split: option.split)
  with run_served [OF assms(1) reserve_lua_exact [OF assms(1)]] r1 V1 show ?thesis
    by (cases rule: served_cases) (auto dest: arg_cong [of _ _ snd])
qed

lemma set_code_stores:
  assumes law: "redis_law R V" and run: "set_code R phone code ttl w = (Inr (), w')"
    and typed: "no_code (V w) phone \<or> holds_code (V w) phone old n"
  shows "holds_code (V w') phone code 0"
proof -
  let ?k = "sms_code_prefix @ phone"
  have ttl: "0 < milliseconds ttl" using run by (simp add: set_code_def split: if_splits)
  obtain n' where r: "rd_run R (set_code_lua R ?k code (milliseconds ttl)) w = (Inr n', w')"
    using run ttl by (auto simp: set_code_def call_def split: prod.splits sum.splits)
  obtain s' where "set_code_lua ref_redis ?k code (milliseconds ttl) (V w) = (Inr 1, s')"
    "holds_code s' phone code 0"
    using set_code_lua_holds [OF _ ttl, of "V w" phone code] typed by (auto simp: no_code_def holds_code_def)
  with run_served [OF law set_code_lua_exact [OF law]] r show ?thesis
    by (cases rule: served_cases) auto
qed

text \<open>A command that touches one key only.\<close>

definition touches_only :: "string \<Rightarrow> 'a cmd \<Rightarrow> bool" where
  "touches_only k c \<longleftrightarrow>
     (\<forall>s. now_ms (snd (c s)) = now_ms s \<and> (\<forall>k'. k' \<noteq> k \<longrightarrow> live (snd (c s)) k' = live s k'))"

lemma served_touches:
  assumes "served V c f" and "touches_only k c" and "f w = (r, w')"
  shows "now_ms (V w') = now_ms (V w)" and "k' \<noteq> k \<Longrightarrow> live (V w') k' = live (V w) k'"
proof -
  have "V w' = V w \<or> V w' = snd (c (V w))"
    using assms(1,3) unfolding served_def by (metis snd_conv)
  then show "now_ms (V w') = now_ms (V w)" and "k' \<noteq> k \<Longrightarrow> live (V w') k' = live (V w) k'"
    using assms(2) by (auto simp: touches_only_def)
qed

lemma touches_getdel: "touches_only k (cmd_getdel k)"
  by (auto simp: touches_only_def cmd_getdel_def cmd_get_def split: option.split rval.split)

lemma touches_set_code: "touches_only k (set_code_lua ref_redis k code ms)"
proof -
  have hset: "\<exists>r s'. cmd_hset k fs s = (r, s') \<and> now_ms s' = now_ms s \<and> (\<forall>k'. k' \<noteq> k \<longrightarrow> live s' k' = live s k')"
    for fs s
    by (cases "as_hash (live s k)") (simp_all add: cmd_hset_def)
  show ?thesis
    unfolding touches_only_def set_code_lua_def
  proof
    fix s
    obtain r s' where s': "cmd_hset k [(''code'', code), (''attempts'', show_int 0)] s = (r, s')"
      "now_ms s' = now_ms s" "\<forall>k'. k' \<noteq> k \<longrightarrow> live s' k' = live s k'"
      using hset by blast
    then show "now_ms (snd (call (lua_hset ref_redis k [(''code'', code), (''attempts'', show_int 0)]) fail
        (\<lambda>_. call (lua_pexpire ref_redis k ms) fail (\<lambda>_. ret 1)) s)) = now_ms s \<and>
      (\<forall>k'. k' \<noteq> k \<longrightarrow> live (snd (call (lua_hset ref_redis k [(''code'', code), (''attempts'', show_int 0)]) fail
        (\<lambda>_. call (lua_pexpire ref_redis k ms) fail (\<lambda>_. ret 1)) s)) k' = live s k')"
      by (cases r) (simp_all add: fail_def ret_def)
  qed
qed

lemma captcha_frame:
  assumes "redis_law R V" and "captcha_verify R i answer True w = (r, w')"
  shows "now_ms (V w') = now_ms (V w)"
    and "k \<noteq> captcha_prefix @ i \<Longrightarrow> live (V w') k = live (V w) k"
proof -
  obtain r1 where "rd_getdel R (captcha_prefix @ i) w = (r1, w')"
    using assms(2)
    by (auto simp: captcha_verify_def get_with_context_def call_def fail_def ret_def
        split: prod.splits sum.splits if_splits)
  from served_touches [OF client_served(4) [OF assms(1)] touches_getdel this]
  show "now_ms (V w') = now_ms (V w)"
    and "k \<noteq> captcha_prefix @ i \<Longrightarrow> live (V w') k = live (V w) k" by simp_all
qed

lemma set_code_frame:
  assumes "redis_law R V" and "set_code R phone code ttl w = (Inr (), w')"
  shows "k \<noteq> sms_code_prefix @ phone \<Longrightarrow> live (V w') k = live (V w) k"
proof -
  obtain r1 where "rd_run R (set_code_lua R (sms_code_prefix @ phone) code (milliseconds ttl)) w = (r1, w')"
    using assms(2) by (auto simp: set_code_def call_def split: prod.splits sum.splits if_splits)
  from served_touches(2) [OF run_served [OF assms(1) set_code_lua_exact [OF assms(1)]] touches_set_code this]
  show "k \<noteq> sms_code_prefix @ phone \<Longrightarrow> live (V w') k = live (V w) k" by simp
qed

text \<open>How far a call got, by its answer.\<close>

lemma send_code_sent:
  assumes "send_code cap cache client limit rand_int ip req w = (r, w')"
    and "r = Inr () \<or> r = Inl (BizError 503 (SmsMsg M_sms_result_unknown))"
  shows "\<exists>w1 k w2 rv w3 w4.
    cap_verify cap (sr_captcha_id req) (sr_captcha_code req) True w = (Inr True, w1) \<and>
    rand_int 900000 w1 = (Inr k, w2) \<and>
    sl_reserve limit ip (sr_phone req) send_code_policy w2 = (Inr (rv, SMSLimitAllowed), w3) \<and>
    sc_set_code cache (sr_phone req) (sprintf_06d (k + 100000)) (minutes 5) w3 = (Inr (), w4) \<and>
    w' = snd (sm_send_sms client (sr_phone req) (sprintf_06d (k + 100000)) w4)"
  using assms unfolding send_code_def Let_def
  by (auto simp: ignoring_def split: call_split_asm if_splits prod.splits)

lemma send_code_limited:
  assumes "send_code cap cache client limit rand_int ip req w = (Inl (BizError 429 m), w')"
  shows "\<exists>w1 k w2 r.
    cap_verify cap (sr_captcha_id req) (sr_captcha_code req) True w = (Inr True, w1) \<and>
    rand_int 900000 w1 = (Inr k, w2) \<and>
    sl_reserve limit ip (sr_phone req) send_code_policy w2 = (r, w')"
  using assms unfolding send_code_def Let_def
  by (auto simp: ignoring_def split: call_split_asm if_splits prod.splits)

lemma keys_apart [simp]:
  "quota_key q ip ph \<noteq> captcha_prefix @ i" "sms_code_prefix @ phone \<noteq> captcha_prefix @ i"
  "sms_code_prefix @ phone \<noteq> quota_key q ip ph"
  by (cases q; simp add: quota_key.simps captcha_prefix_def sms_code_prefix_def)+

lemmas keys_apart_sym [simp] = keys_apart [symmetric]

lemma all_typed_cong:
  "(\<And>q ip ph. live s' (quota_key q ip ph) = live s (quota_key q ip ph)) \<Longrightarrow> all_typed s \<Longrightarrow> all_typed s'"
  by (simp add: all_typed_def quotas_typed_def zset_typed_def)

lemma quota_policy_positive: "0 < quota_limit q send_code_policy"
  by (cases q) (simp_all add: send_code_policy_def)

lemma allowed_is_no_reason: "SMSLimitAllowed \<noteq> quota_reason q"
  by (cases q) (simp_all add: sms_reasons)

lemma update_member: "(m, t) \<in> set (AList.update m t z)"
  by (induction z) auto

text \<open>What has happened when a code was sent, or may have been.\<close>

lemma send_code_stores:
  assumes law: "redis_law R V" and rt: "uuid_law rt V" and typed: "all_typed (V w)"
    and code: "no_code (V w) (sr_phone req) \<or> holds_code (V w) (sr_phone req) old n"
    and client: "\<forall>ph c w. V (snd (sm_send_sms client ph c w)) = V w"
    and rand: "\<forall>w. V (snd (rand_int 900000 w)) = V w"
      "\<forall>w k. fst (rand_int 900000 w) = Inr k \<longrightarrow> 0 \<le> k \<and> k < 900000"
    and run: "send_code (new_captcha R lib expire) (new_sms_cache R) client (new_sms_limit R rt) rand_int
      ip req w = (r, w')"
    and r: "r = Inr () \<or> r = Inl (BizError 503 (SmsMsg M_sms_result_unknown))"
  shows "no_captcha V (sr_captcha_id req) w' \<and>
    (\<exists>t. live (V w) (captcha_prefix @ sr_captcha_id req) = Some (RStr (sr_captcha_code req), t)) \<and>
    (\<exists>k. 0 \<le> k \<and> k < 900000 \<and> holds_code (V w') (sr_phone req) (sprintf_06d (k + 100000)) 0) \<and>
    (\<exists>rid. \<forall>q. (rid, now_ms (V w)) \<in> set (members (V w') (quota_key q ip (sr_phone req))))"
proof -
  let ?ph = "sr_phone req" and ?id = "sr_captcha_id req"
  from send_code_sent [OF run r] obtain w1 k w2 rv w3 w4 where
    c: "captcha_verify R ?id (sr_captcha_code req) True w = (Inr True, w1)" and
    n: "rand_int 900000 w1 = (Inr k, w2)" and
    res: "reserve R rt ip ?ph send_code_policy w2 = (Inr (rv, SMSLimitAllowed), w3)" and
    set: "set_code R ?ph (sprintf_06d (k + 100000)) (minutes 5) w3 = (Inr (), w4)" and
    w': "w' = snd (sm_send_sms client ?ph (sprintf_06d (k + 100000)) w4)"
    by (auto simp: new_captcha_def new_sms_cache_def new_sms_limit_def)
  note cap = captcha_verify_reply [OF law c] and capf = captcha_frame [OF law c]
  have V2: "V w2 = V w1" and k: "0 \<le> k" "k < 900000" using rand(1) [rule_format, of w1] rand(2) [rule_format, of w1 k] n by simp_all
  have typed2: "all_typed (V w2)"
    using typed capf(2) unfolding V2 by (intro all_typed_cong [of "V w1" "V w"]) simp_all
  note frame3 = reserve_other_keys [OF law rt typed2 res]
  have code3: "no_code (V w3) ?ph \<or> holds_code (V w3) ?ph old n"
    using code frame3 [of "sms_code_prefix @ ?ph"] capf(2) [of "sms_code_prefix @ ?ph"]
    by (simp add: no_code_def holds_code_def V2)
  have members: "\<forall>q. \<exists>z. members (V w3) (quota_key q ip ?ph) =
      AList.update (fst (rt_uuid rt w2)) (now_ms (V w2)) z"
    using reserve_reply_cases [OF law rt typed2 _ res] quota_policy_positive allowed_is_no_reason by blast
  have w4: "V w' = V w4" using client w' by simp
  moreover have "holds_code (V w4) ?ph (sprintf_06d (k + 100000)) 0"
    by (rule set_code_stores [OF law set code3])
  moreover have "no_captcha V ?id w'"
    using cap w4 set_code_frame [OF law set, of "captcha_prefix @ ?id"]
      frame3 [of "captcha_prefix @ ?id"] by (simp add: no_captcha_def V2)
  moreover have "(fst (rt_uuid rt w2), now_ms (V w)) \<in> set (members (V w4) (quota_key q ip ?ph))" for q
  proof -
    have "members (V w4) (quota_key q ip ?ph) = members (V w3) (quota_key q ip ?ph)"
      using set_code_frame [OF law set, of "quota_key q ip ?ph"] by (simp add: members_def)
    then show ?thesis using members V2 capf(1) update_member by metis
  qed
  ultimately show ?thesis using cap k by auto
qed

text \<open>A sending that is over a quota leaves the code alone.\<close>

lemma send_code_limited_keeps:
  assumes law: "redis_law R V" and rt: "uuid_law rt V" and typed: "all_typed (V w)"
    and rand: "\<forall>w. V (snd (rand_int 900000 w)) = V w"
    and run: "send_code (new_captcha R lib expire) (new_sms_cache R) client (new_sms_limit R rt) rand_int
      ip req w = (Inl (BizError 429 m), w')"
  shows "live (V w') (sms_code_prefix @ sr_phone req) = live (V w) (sms_code_prefix @ sr_phone req)"
proof -
  let ?ph = "sr_phone req" and ?id = "sr_captcha_id req"
  from send_code_limited [OF run] obtain w1 k w2 where
    c: "captcha_verify R ?id (sr_captcha_code req) True w = (Inr True, w1)" and
    n: "rand_int 900000 w1 = (Inr k, w2)" and
    res: "\<exists>r. reserve R rt ip ?ph send_code_policy w2 = (r, w')"
    by (auto simp: new_captcha_def new_sms_limit_def)
  note capf = captcha_frame [OF law c]
  have V2: "V w2 = V w1" using rand [rule_format, of w1] n by simp
  have typed2: "all_typed (V w2)"
    using typed capf(2) unfolding V2 by (intro all_typed_cong [of "V w1" "V w"]) simp_all
  from res obtain r' where "reserve R rt ip ?ph send_code_policy w2 = (r', w')" ..
  from reserve_other_keys [OF law rt typed2 this, of "sms_code_prefix @ ?ph"] capf(2) V2
  show ?thesis by simp
qed

section \<open>Properties\<close>

text \<open>Every code that is sent has six decimal digits and does not begin with 0: for every number the
  random source can return, the text is its decimal form plus 100000, a number from 100000 to 999999.\<close>

theorem sms_code_is_six_digits:
  assumes "0 \<le> n" and "n < 900000"
  shows "length (sprintf_06d (n + 100000)) = 6 \<and> list_all is_digit (sprintf_06d (n + 100000)) \<and>
    dec_value 0 (sprintf_06d (n + 100000)) = nat (n + 100000) \<and>
    hd (sprintf_06d (n + 100000)) \<noteq> CHR ''0''"
proof -
  have len: "length (show_nat (nat (n + 100000))) = 6"
    using show_nat_length [of 5 "nat (n + 100000)"] assms by simp
  have "hd (show_nat (nat (n + 100000))) \<noteq> CHR ''0''"
  proof
    assume "hd (show_nat (nat (n + 100000))) = CHR ''0''"
    with len obtain cs where cs: "show_nat (nat (n + 100000)) = CHR ''0'' # cs"
      by (cases "show_nat (nat (n + 100000))") auto
    from show_nat_hd [OF this] len cs show False by simp
  qed
  with six_digits [OF assms] len assms show ?thesis by (simp add: sprintf_06d_def show_int_def)
qed

theorem sms_code_is_six_digits_witness:
  "length (sprintf_06d (23456 + 100000)) = 6 \<and> hd (sprintf_06d (23456 + 100000)) \<noteq> CHR ''0''"
  using sms_code_is_six_digits [of 23456] by simp


definition sample_sms_client :: "rstore sms_client" where
  "sample_sms_client = \<lparr>sm_send_sms = (\<lambda>ph c. ret ())\<rparr>"

definition sample_rand :: "int \<Rightarrow> (rstore, int) go" where
  "sample_rand m = ret 23456"

definition sample_code_req :: send_sms_code_req where
  "sample_code_req = \<lparr>sr_phone = ''1'', sr_captcha_id = ''i'', sr_captcha_code = ''1234''\<rparr>"

definition sample_send :: "(go_err + unit) \<times> rstore" where
  "sample_send = send_code (new_captcha ref_redis (\<lambda>f. ret ([], [], [])) 300000000000) (new_sms_cache ref_redis)
     sample_sms_client (new_sms_limit ref_redis store_runtime) sample_rand ''a'' sample_code_req sample_captcha"


end
