(* ===== verification/Crypto.thy ===== *)
theory Crypto
  imports GoStrings
begin

text \<open>
  Password hashing and the encryption of SSH passwords, \<open>src/internal/platform/crypto\<close>. bcrypt, the AES block
  cipher, GCM and \<open>crypto/rand\<close> are parameters; hexadecimal text (\<open>encoding/hex\<close>) is modelled.
\<close>

section \<open>Password hashing\<close>

record 'w bcrypt_lib =
  bl_generate :: "string \<Rightarrow> int \<Rightarrow> ('w, string) go"
  bl_compare :: "string \<Rightarrow> string \<Rightarrow> go_err option"

record 'w password_hasher =
  ph_hash_password :: "string \<Rightarrow> ('w, string) go"
  ph_compare_password :: "string \<Rightarrow> string \<Rightarrow> bool"

definition hash_password :: "'w bcrypt_lib \<Rightarrow> int \<Rightarrow> string \<Rightarrow> ('w, string) go" where
  "hash_password B cost password = bl_generate B password cost"

definition compare_password :: "'w bcrypt_lib \<Rightarrow> string \<Rightarrow> string \<Rightarrow> bool" where
  "compare_password B hashed password = (bl_compare B hashed password = None)"

text \<open>\<open>bcrypt.DefaultCost\<close> is 10.\<close>

definition new_password_hasher :: "'w bcrypt_lib \<Rightarrow> 'w password_hasher" where
  "new_password_hasher B =
     \<lparr>ph_hash_password = hash_password B 10, ph_compare_password = compare_password B\<rparr>"

section \<open>Hexadecimal text\<close>

fun hex_encode :: "string \<Rightarrow> string" where
  "hex_encode [] = []"
| "hex_encode (c # cs) = hex_digit (of_char c div 16) # hex_digit (of_char c mod 16) # hex_encode cs"

fun hex_decode :: "string \<Rightarrow> go_err + string" where
  "hex_decode [] = Inr []"
| "hex_decode [c] = Inl (LibError ''encoding/hex'')"
| "hex_decode (c # d # cs) =
     (case (hex_val c, hex_val d) of
        (Some a, Some b) \<Rightarrow>
          (case hex_decode cs of Inl e \<Rightarrow> Inl e | Inr s \<Rightarrow> Inr (char_of (16 * a + b) # s))
      | _ \<Rightarrow> Inl (LibError ''encoding/hex''))"

section \<open>AES-GCM\<close>

text \<open>\<open>gl_seal g dst nonce plain\<close> appends to \<open>dst\<close>; the additional data is nil.\<close>

record ('w, 'b, 'g) gcm_lib =
  gl_new_cipher :: "string \<Rightarrow> go_err + 'b"
  gl_new_gcm :: "'b \<Rightarrow> go_err + 'g"
  gl_nonce_size :: "'g \<Rightarrow> nat"
  gl_read_full :: "nat \<Rightarrow> ('w, string) go"
  gl_seal :: "'g \<Rightarrow> string \<Rightarrow> string \<Rightarrow> string \<Rightarrow> string"
  gl_open :: "'g \<Rightarrow> string \<Rightarrow> string \<Rightarrow> go_err + string"

record 'w encryptor =
  en_encrypt :: "string \<Rightarrow> ('w, string) go"
  en_decrypt :: "string \<Rightarrow> go_err + string"

definition aes_encrypt :: "('w, 'b, 'g) gcm_lib \<Rightarrow> string \<Rightarrow> string \<Rightarrow> ('w, string) go" where
  "aes_encrypt G key plain =
     (case gl_new_cipher G key of
        Inl e \<Rightarrow> fail e
      | Inr block \<Rightarrow>
          (case gl_new_gcm G block of
             Inl e \<Rightarrow> fail e
           | Inr gcm \<Rightarrow>
               call (gl_read_full G (gl_nonce_size G gcm)) fail
                 (\<lambda>nonce. ret (hex_encode (gl_seal G gcm nonce nonce plain)))))"

definition aes_decrypt :: "('w, 'b, 'g) gcm_lib \<Rightarrow> string \<Rightarrow> string \<Rightarrow> go_err + string" where
  "aes_decrypt G key cipher_hex =
     (case hex_decode cipher_hex of
        Inl e \<Rightarrow> Inl e
      | Inr data \<Rightarrow>
          (case gl_new_cipher G key of
             Inl e \<Rightarrow> Inl e
           | Inr block \<Rightarrow>
               (case gl_new_gcm G block of
                  Inl e \<Rightarrow> Inl e
                | Inr gcm \<Rightarrow>
                    let n = gl_nonce_size G gcm in
                    if length data < n then Inl (ErrorMsg (StoreMsg M_ciphertext_too_short))
                    else gl_open G gcm (take n data) (drop n data))))"

definition new_aes_encryptor :: "('w, 'b, 'g) gcm_lib \<Rightarrow> string \<Rightarrow> go_err + 'w encryptor" where
  "new_aes_encryptor G key =
     (if length key \<noteq> 16 \<and> length key \<noteq> 24 \<and> length key \<noteq> 32
      then Inl (ErrorMsg (StoreMsg M_aes_key_length))
      else Inr \<lparr>en_encrypt = aes_encrypt G key, en_decrypt = aes_decrypt G key\<rparr>)"

text \<open>
  What the program relies on: a key of 16, 24 or 32 bytes makes a cipher, a read fills the nonce, and opening
  what was sealed with the same nonce gives the text back.
\<close>

definition gcm_law :: "('w, 'b, 'g) gcm_lib \<Rightarrow> bool" where
  "gcm_law G \<longleftrightarrow>
     (\<forall>key. length key \<in> {16, 24, 32} \<longrightarrow>
        (\<exists>b g. gl_new_cipher G key = Inr b \<and> gl_new_gcm G b = Inr g)) \<and>
     (\<forall>n w s w'. gl_read_full G n w = (Inr s, w') \<longrightarrow> length s = n) \<and>
     (\<forall>g dst nonce plain. \<exists>body. gl_seal G g dst nonce plain = dst @ body \<and> gl_open G g nonce body = Inr plain)"

section \<open>Facts\<close>

lemma hex_roundtrip: "hex_decode (hex_encode s) = Inr s"
proof (induction s)
  case (Cons c s)
  have "of_char c < (256 :: nat)" by (rule nat_of_char_less_256)
  then have "(of_char c :: nat) div 16 < 16" by (simp add: less_mult_imp_div_less)
  moreover have "char_of (16 * (of_char c div 16) + of_char c mod 16 :: nat) = c" by simp
  ultimately show ?case using Cons by (simp add: hex_val_digit)
qed simp

lemma hex_decode_length: "hex_decode s = Inr t \<Longrightarrow> length s = 2 * length t"
  by (induction s arbitrary: t rule: hex_decode.induct) (auto split: option.splits sum.splits)

section \<open>Properties\<close>

text \<open>C39 Encryption is reversible: with every accepted key, what \<open>Encrypt\<close> makes of a text \<open>Decrypt\<close> turns back
  into that text, whatever the random nonce; and \<open>Decrypt\<close> never opens a text that is not hexadecimal or is
  shorter than a nonce.\<close>

theorem encryption_roundtrip:
  assumes law: "gcm_law G" and key: "new_aes_encryptor G key = Inr enc" and size: "\<forall>g. gl_nonce_size G g = n"
  shows "(en_encrypt enc plain w = (Inr text', w') \<longrightarrow> en_decrypt enc text' = Inr plain) \<and>
    ((\<exists>e. hex_decode junk = Inl e) \<longrightarrow> (\<exists>e. en_decrypt enc junk = Inl e)) \<and>
    (length junk < 2 * n \<longrightarrow> (\<exists>e. en_decrypt enc junk = Inl e))"
proof -
  have enc: "enc = \<lparr>en_encrypt = aes_encrypt G key, en_decrypt = aes_decrypt G key\<rparr>"
    and len: "length key \<in> {16, 24, 32}"
    using key by (auto simp: new_aes_encryptor_def split: if_splits)
  obtain b g where cipher: "gl_new_cipher G key = Inr b" "gl_new_gcm G b = Inr g"
    using law [unfolded gcm_law_def, THEN conjunct1, rule_format, OF len] by blast
  have "en_decrypt enc text' = Inr plain" if run: "en_encrypt enc plain w = (Inr text', w')"
  proof -
    obtain nonce where nonce: "gl_read_full G (gl_nonce_size G g) w = (Inr nonce, w')"
      and text': "text' = hex_encode (gl_seal G g nonce nonce plain)"
      using run by (auto simp: enc aes_encrypt_def cipher call_def split: prod.splits sum.splits)
    have "length nonce = gl_nonce_size G g"
      using law [unfolded gcm_law_def, THEN conjunct2, THEN conjunct1, rule_format, OF nonce] .
    moreover obtain body where "gl_seal G g nonce nonce plain = nonce @ body" "gl_open G g nonce body = Inr plain"
      using law [unfolded gcm_law_def, THEN conjunct2, THEN conjunct2, rule_format, of g nonce nonce plain] by blast
    ultimately show ?thesis by (simp add: enc aes_decrypt_def text' hex_roundtrip cipher Let_def)
  qed
  moreover have "\<exists>e. en_decrypt enc junk = Inl e" if "length junk < 2 * n"
    using that size hex_decode_length [of junk]
    by (auto simp: enc aes_decrypt_def cipher Let_def split: sum.split)
  ultimately show ?thesis by (auto simp: enc aes_decrypt_def)
qed

definition sample_gcm :: "(unit, string, string) gcm_lib" where
  "sample_gcm = \<lparr>gl_new_cipher = Inr, gl_new_gcm = Inr, gl_nonce_size = (\<lambda>_. 2),
     gl_read_full = (\<lambda>n. ret (replicate n (CHR ''n''))),
     gl_seal = (\<lambda>g dst nonce plain. dst @ rev plain), gl_open = (\<lambda>g nonce body. Inr (rev body))\<rparr>"

theorem encryption_roundtrip_witness:
  "\<exists>enc. new_aes_encryptor sample_gcm ''0123456789abcdef'' = Inr enc \<and>
     en_encrypt enc ''pw'' () = (Inr ''6e6e7770'', ()) \<and> en_decrypt enc ''6e6e7770'' = Inr ''pw''"
proof -
  let ?key = "''0123456789abcdef''"
  let ?enc = "\<lparr>en_encrypt = aes_encrypt sample_gcm ?key, en_decrypt = aes_decrypt sample_gcm ?key\<rparr>"
  have law: "gcm_law sample_gcm" by (auto simp: gcm_law_def sample_gcm_def ret_def)
  have key: "new_aes_encryptor sample_gcm ?key = Inr ?enc" by (simp add: new_aes_encryptor_def)
  have "en_encrypt ?enc ''pw'' () = (Inr ''6e6e7770'', ())" by code_simp
  moreover have "\<forall>g. gl_nonce_size sample_gcm g = 2" by (simp add: sample_gcm_def)
  ultimately show ?thesis using encryption_roundtrip [OF law key, of 2 "''pw''" "()" "''6e6e7770''" "()"] key by blast
qed

end
