(* ===== verification/AuthService.thy ===== *)
theory AuthService
  imports UserRepo Jwt AuthCache SmsService Crypto
begin

text \<open>
  The authentication service, \<open>src/internal/service/auth/service.go\<close>: every method of the service, over the
  interfaces of its parts. The theories AuthSafety and AuthSession hold what is proved of it over the real parts.
\<close>

section \<open>Requests and answers\<close>

record identity =
  id_user_id :: u64
  id_username :: string
  id_role :: string

record register_req =
  rr_username :: string
  rr_password :: string
  rr_phone :: string
  rr_sms_code :: string

record login_req =
  lr_phone :: string
  lr_password :: string
  lr_captcha_id :: string
  lr_captcha_code :: string

record login_by_sms_req =
  lq_phone :: string
  lq_sms_code :: string

record verify_reset_code_req =
  vr_phone :: string
  vr_sms_code :: string

record reset_password_req =
  rq_reset_token :: string
  rq_new_password :: string

record login_resp =
  lo_access_token :: string
  lo_user_id :: u64
  lo_username :: string
  lo_role :: string

record user_resp =
  up_id :: u64
  up_username :: string
  up_phone :: string
  up_email :: "string option"
  up_role :: string
  up_status :: int

definition to_user_resp :: "user \<Rightarrow> user_resp" where
  "to_user_resp u =
     \<lparr>up_id = us_id u, up_username = us_username u, up_phone = us_phone u, up_email = us_email u,
      up_role = us_role u, up_status = us_status u\<rparr>"

section \<open>The service\<close>

record ('w, 'h) auth_parts =
  ap_captcha :: "'w captcha_service"
  ap_sms :: "'w sms_service"
  ap_jwt :: "'w token_manager"
  ap_cache :: "'w auth_cache"
  ap_users :: "('w, 'h) user_repo"
  ap_hasher :: "'w password_hasher"
  ap_runtime :: "'w runtime"

definition authenticate :: "('w, 'h) auth_parts \<Rightarrow> 'h ctx \<Rightarrow> string \<Rightarrow> ('w, identity) go" where
  "authenticate s ctx access_token =
     (if access_token = [] then fail (BizError 401 (AuthMsg M_credential_missing))
      else
        call (tm_parse_token (ap_jwt s) access_token False)
          (\<lambda>_. fail (BizError 401 (AuthMsg M_credential_invalid)))
          (\<lambda>claims.
        call (tc_is_token_in_blacklist (ap_cache s) access_token)
          (\<lambda>_. fail (BizError 500 (AuthMsg M_identity_unavailable)))
          (\<lambda>is_blacklisted.
        if is_blacklisted then fail (BizError 401 (AuthMsg M_credential_revoked))
        else
        call (ur_get_by_id (ap_users s) ctx (cc_user_id claims))
          (\<lambda>_. fail (BizError 500 (AuthMsg M_identity_unavailable)))
          (\<lambda>user.
        case user of
          None \<Rightarrow> fail (BizError 401 (AuthMsg M_login_state_invalid))
        | Some u \<Rightarrow>
            if us_status u \<noteq> 1 \<or> us_token_version u \<noteq> cc_token_version claims
            then fail (BizError 401 (AuthMsg M_login_state_invalid))
            else ret \<lparr>id_user_id = us_id u, id_username = us_username u, id_role = us_role u\<rparr>))))"

definition auth_generate_captcha :: "('w, 'h) auth_parts \<Rightarrow> ('w, captcha_resp) go" where
  "auth_generate_captcha s = cs_generate_captcha (ap_captcha s)"

definition auth_send_sms_code :: "('w, 'h) auth_parts \<Rightarrow> string \<Rightarrow> send_sms_code_req \<Rightarrow> ('w, unit) go" where
  "auth_send_sms_code s client_ip req = ss_send_code (ap_sms s) client_ip req"

text \<open>The end of \<open>Register\<close>, \<open>Login\<close> and \<open>LoginBySMS\<close>: both tokens for a user, and the answer.\<close>

definition issue_tokens :: "('w, 'h) auth_parts \<Rightarrow> user \<Rightarrow> ('w, login_resp \<times> string) go" where
  "issue_tokens s u =
     call (tm_generate_access_token (ap_jwt s) (us_id u) (us_username u) (us_role u) (us_token_version u))
       (\<lambda>_. fail (BizError 500 (AuthMsg M_access_token_failed)))
       (\<lambda>access_token.
     call (tm_generate_refresh_token (ap_jwt s) (us_id u) (us_username u) (us_role u) (us_token_version u))
       (\<lambda>_. fail (BizError 500 (AuthMsg M_refresh_token_failed)))
       (\<lambda>refresh_token.
     ret (\<lparr>lo_access_token = access_token, lo_user_id = us_id u, lo_username = us_username u,
       lo_role = us_role u\<rparr>, refresh_token)))"

definition register_user :: "('w, 'h) auth_parts \<Rightarrow> 'h ctx \<Rightarrow> register_req \<Rightarrow> ('w, login_resp \<times> string) go" where
  "register_user s ctx req =
     call (ur_get_by_username (ap_users s) ctx (rr_username req))
       (\<lambda>_. fail (BizError 500 (AuthMsg M_register_failed)))
       (\<lambda>exist_user.
     if exist_user \<noteq> None then fail (BizError 409 (AuthMsg M_username_taken))
     else
     call (ur_get_by_phone (ap_users s) ctx (rr_phone req))
       (\<lambda>_. fail (BizError 500 (AuthMsg M_register_failed)))
       (\<lambda>exist_user.
     if exist_user \<noteq> None then fail (BizError 409 (AuthMsg M_phone_taken))
     else
     call (ss_verify_code (ap_sms s) (rr_phone req) (rr_sms_code req)) fail
       (\<lambda>valid.
     if \<not> valid then fail (BizError 400 (AuthMsg M_sms_code_wrong))
     else
     call (ph_hash_password (ap_hasher s) (rr_password req))
       (\<lambda>_. fail (BizError 500 (AuthMsg M_hash_failed)))
       (\<lambda>hashed.
     call (ur_create (ap_users s) ctx
         \<lparr>us_id = 0, us_created_at = 0, us_updated_at = 0, us_username = rr_username req, us_password = hashed,
          us_phone = rr_phone req, us_email = None, us_role = ''user'', us_status = 1, us_token_version = 1\<rparr>)
       (\<lambda>e. if errors_is e ErrDuplicatedKey then fail (BizError 409 (AuthMsg M_username_or_phone_taken))
            else fail (BizError 500 (AuthMsg M_register_failed)))
       (\<lambda>new_user. issue_tokens s new_user)))))"

definition login :: "('w, 'h) auth_parts \<Rightarrow> 'h ctx \<Rightarrow> login_req \<Rightarrow> ('w, login_resp \<times> string) go" where
  "login s ctx req =
     call (cs_verify (ap_captcha s) (lr_captcha_id req) (lr_captcha_code req) True)
       (\<lambda>_. fail (BizError 503 (SessionMsg M_captcha_unavailable)))
       (\<lambda>valid.
     if \<not> valid then fail (BizError 400 (SessionMsg M_captcha_wrong))
     else
     call (ur_get_by_phone (ap_users s) ctx (lr_phone req))
       (\<lambda>_. fail (BizError 500 (AuthMsg M_login_failed)))
       (\<lambda>user.
     case user of
       None \<Rightarrow> fail (BizError 401 (AuthMsg M_phone_or_password_wrong))
     | Some u \<Rightarrow>
         if \<not> ph_compare_password (ap_hasher s) (us_password u) (lr_password req)
         then fail (BizError 401 (AuthMsg M_phone_or_password_wrong))
         else if us_status u \<noteq> 1 then fail (BizError 403 (AuthMsg M_account_disabled))
         else issue_tokens s u))"

definition login_by_sms :: "('w, 'h) auth_parts \<Rightarrow> 'h ctx \<Rightarrow> login_by_sms_req \<Rightarrow> ('w, login_resp \<times> string) go" where
  "login_by_sms s ctx req =
     call (ss_verify_code (ap_sms s) (lq_phone req) (lq_sms_code req)) fail
       (\<lambda>valid.
     if \<not> valid then fail (BizError 400 (AuthMsg M_sms_code_wrong))
     else
     call (ur_get_by_phone (ap_users s) ctx (lq_phone req))
       (\<lambda>_. fail (BizError 500 (AuthMsg M_login_failed)))
       (\<lambda>user.
     case user of
       None \<Rightarrow> fail (BizError 404 (AuthMsg M_phone_unregistered))
     | Some u \<Rightarrow>
         if us_status u \<noteq> 1 then fail (BizError 403 (AuthMsg M_account_disabled))
         else issue_tokens s u))"

text \<open>\<open>time.Until(t)\<close>\<close>

definition time_until :: "'w runtime \<Rightarrow> int \<Rightarrow> 'w \<Rightarrow> int \<times> 'w" where
  "time_until rt t w = (case rt_now rt w of (now, w') \<Rightarrow> (t - now, w'))"

definition refresh_token :: "('w, 'h) auth_parts \<Rightarrow> 'h ctx \<Rightarrow> string \<Rightarrow> ('w, string \<times> string) go" where
  "refresh_token s ctx token =
     (if token = [] then fail (BizError 401 (AuthMsg M_refresh_missing))
      else
        call (tm_parse_token (ap_jwt s) token True)
          (\<lambda>_. fail (BizError 401 (SessionMsg M_refresh_invalid_or_expired)))
          (\<lambda>claims.
        case rc_expires_at (cc_registered claims) of
          None \<Rightarrow> fail (BizError 401 (SessionMsg M_refresh_invalid))
        | Some expires_at \<Rightarrow>
        call (ur_get_by_id (ap_users s) ctx (cc_user_id claims))
          (\<lambda>_. fail (BizError 500 (AuthMsg M_identity_unavailable)))
          (\<lambda>user.
        case user of
          None \<Rightarrow> fail (BizError 401 (SessionMsg M_user_absent))
        | Some u \<Rightarrow>
        if cc_token_version claims \<noteq> us_token_version u
        then fail (BizError 401 (AuthMsg M_login_state_invalid))
        else if us_status u \<noteq> 1 then fail (BizError 403 (AuthMsg M_account_disabled))
        else
        effect (time_until (ap_runtime s) expires_at) (\<lambda>remaining_ttl.
        if remaining_ttl \<le> 0 then fail (BizError 401 (SessionMsg M_refresh_expired))
        else
        call (tm_generate_access_token (ap_jwt s) (us_id u) (us_username u) (us_role u) (us_token_version u))
          (\<lambda>_. fail (BizError 500 (AuthMsg M_access_token_failed)))
          (\<lambda>new_access_token.
        call (tm_generate_refresh_token (ap_jwt s) (us_id u) (us_username u) (us_role u) (us_token_version u))
          (\<lambda>_. fail (BizError 500 (AuthMsg M_refresh_token_failed)))
          (\<lambda>new_refresh_token.
        call (tc_consume_refresh_token (ap_cache s) token remaining_ttl)
          (\<lambda>_. fail (BizError 500 (AuthMsg M_identity_unavailable)))
          (\<lambda>consumed.
        if \<not> consumed then fail (BizError 409 (SessionMsg M_refresh_used))
        else ret (new_access_token, new_refresh_token))))))))"

definition revoke_token :: "('w, 'h) auth_parts \<Rightarrow> string \<Rightarrow> bool \<Rightarrow> ('w, unit) go" where
  "revoke_token s token is_refresh =
     (if token = [] then ret ()
      else
        call (tm_parse_token (ap_jwt s) token is_refresh) (\<lambda>_. ret ())
          (\<lambda>claims.
        case rc_expires_at (cc_registered claims) of
          None \<Rightarrow> ret ()
        | Some expires_at \<Rightarrow>
            effect (time_until (ap_runtime s) expires_at) (\<lambda>remaining_ttl.
            if remaining_ttl \<le> 0 then ret ()
            else tc_add_token_to_blacklist (ap_cache s) token remaining_ttl)))"

definition logout :: "('w, 'h) auth_parts \<Rightarrow> string \<Rightarrow> string \<Rightarrow> ('w, unit) go" where
  "logout s access refresh =
     call (revoke_token s refresh True) (\<lambda>_. fail (BizError 503 (SessionMsg M_logout_failed)))
       (\<lambda>_.
     call (revoke_token s access False) (\<lambda>_. fail (BizError 503 (SessionMsg M_logout_failed)))
       (\<lambda>_. ret ()))"

definition verify_reset_code :: "('w, 'h) auth_parts \<Rightarrow> 'h ctx \<Rightarrow> verify_reset_code_req \<Rightarrow> ('w, string) go" where
  "verify_reset_code s ctx req =
     call (ss_verify_code (ap_sms s) (vr_phone req) (vr_sms_code req)) fail
       (\<lambda>valid.
     if \<not> valid then fail (BizError 400 (AuthMsg M_sms_code_wrong))
     else
     call (ur_get_by_phone (ap_users s) ctx (vr_phone req))
       (\<lambda>_. fail (BizError 500 (SessionMsg M_reset_unavailable)))
       (\<lambda>user.
     case user of
       None \<Rightarrow> fail (BizError 404 (AuthMsg M_phone_unregistered))
     | Some u \<Rightarrow>
     effect (rt_uuid (ap_runtime s)) (\<lambda>reset_token.
     call (tc_set_reset_token (ap_cache s) reset_token (us_id u) (us_token_version u) (minutes 10))
       (\<lambda>_. fail (BizError 500 (SessionMsg M_reset_unavailable)))
       (\<lambda>_. ret reset_token))))"

definition reset_password :: "('w, 'h) auth_parts \<Rightarrow> 'h ctx \<Rightarrow> reset_password_req \<Rightarrow> ('w, unit) go" where
  "reset_password s ctx req =
     call (tc_get_reset_token (ap_cache s) (rq_reset_token req))
       (\<lambda>_. fail (BizError 500 (SessionMsg M_reset_unavailable)))
       (\<lambda>data.
     case data of
       None \<Rightarrow> fail (BizError 400 (SessionMsg M_reset_token_invalid))
     | Some data \<Rightarrow>
     call (ur_get_by_id (ap_users s) ctx (rd_user_id data))
       (\<lambda>_. fail (BizError 500 (SessionMsg M_reset_unavailable)))
       (\<lambda>user.
     case user of
       None \<Rightarrow> fail (BizError 404 (SessionMsg M_user_absent))
     | Some u \<Rightarrow>
     call (ph_hash_password (ap_hasher s) (rq_new_password req))
       (\<lambda>_. fail (BizError 500 (SessionMsg M_reset_failed)))
       (\<lambda>hashed.
     call (ur_update_password (ap_users s) ctx (rd_user_id data) hashed (rd_token_version data))
       (\<lambda>e. if errors_is e ErrTokenVersionConflict then fail (BizError 400 (SessionMsg M_reset_token_stale))
            else if errors_is e ErrRecordNotFound then fail (BizError 404 (SessionMsg M_user_absent))
            else fail (BizError 500 (SessionMsg M_reset_failed)))
       (\<lambda>_. ignoring (tc_del_reset_token (ap_cache s) (rq_reset_token req)) (ret ())))))"

definition get_profile :: "('w, 'h) auth_parts \<Rightarrow> 'h ctx \<Rightarrow> u64 \<Rightarrow> ('w, user_resp) go" where
  "get_profile s ctx uid =
     (if uid = 0 then fail (BizError 401 (SessionMsg M_user_id_invalid))
      else
        call (ur_get_by_id (ap_users s) ctx uid)
          (\<lambda>_. fail (BizError 500 (SessionMsg M_profile_failed)))
          (\<lambda>user.
        case user of
          None \<Rightarrow> fail (BizError 404 (SessionMsg M_user_absent))
        | Some u \<Rightarrow> ret (to_user_resp u)))"

section \<open>The parts put together\<close>

text \<open>
  \<open>NewService\<close> on the real parts: what the application is wired with, over the parameters of the parts.
\<close>

record ('w, 'h) externals =
  ex_redis :: "'w redis"
  ex_captcha_lib :: "'w captcha_lib"
  ex_sms_client :: "'w sms_client"
  ex_rand_int :: "int \<Rightarrow> ('w, int) go"
  ex_jwt :: "'w jwt_lib"
  ex_users :: "('w, 'h, user) model"
  ex_db :: 'h
  ex_bcrypt :: "'w bcrypt_lib"
  ex_runtime :: "'w runtime"

definition new_auth_service :: "('w, 'h) externals \<Rightarrow> jwt_config \<Rightarrow> int \<Rightarrow> ('w, 'h) auth_parts" where
  "new_auth_service X cfg captcha_expire =
     (let R = ex_redis X; cap = new_captcha R (ex_captcha_lib X) captcha_expire in
      \<lparr>ap_captcha = new_captcha_service cap,
       ap_sms = new_sms_service cap (new_sms_cache R) (ex_sms_client X) (new_sms_limit R (ex_runtime X)) (ex_rand_int X),
       ap_jwt = new_token_manager (ex_jwt X) (ex_runtime X) cfg,
       ap_cache = new_auth_cache R,
       ap_users = new_user_repo (ex_users X) (ex_db X),
       ap_hasher = new_password_hasher (ex_bcrypt X),
       ap_runtime = ex_runtime X\<rparr>)"

end
