(* ===== verification/AuthWorld.thy ===== *)
theory AuthWorld
  imports AuthService
begin

text \<open>
  The world the parts of the authentication service share: the Redis view \<open>V\<close>, the database view \<open>D\<close>, and a
  clock that Redis and the program agree on up to a constant number of milliseconds. \<open>auth_world\<close> collects what
  is relied on; \<open>ref_externals\<close>, a Redis store beside a database, shows that it can hold.
\<close>

section \<open>The world the parts share\<close>

definition redis_leaves :: "'w redis \<Rightarrow> ('w \<Rightarrow> 'v) \<Rightarrow> bool" where
  "redis_leaves R D \<longleftrightarrow>
     (\<forall>k v ttl. leaves D (rd_set R k v ttl)) \<and> (\<forall>k v ttl. leaves D (rd_setnx R k v ttl)) \<and>
     (\<forall>k. leaves D (rd_get R k)) \<and> (\<forall>k. leaves D (rd_getdel R k)) \<and> (\<forall>k. leaves D (rd_del R k)) \<and>
     (\<forall>k. leaves D (rd_exists R k)) \<and> (\<forall>body. leaves D (rd_run R body))"

definition auth_world ::
    "server_config \<Rightarrow> ('w, 'h) externals \<Rightarrow> ('w \<Rightarrow> rstore) \<Rightarrow> ('w \<Rightarrow> database) \<Rightarrow>
      (string \<Rightarrow> string \<Rightarrow> custom_claims option) \<Rightarrow> (string \<Rightarrow> string \<Rightarrow> registered_claims option) \<Rightarrow> int \<Rightarrow> bool"
where
  "auth_world q X V D cust regd d \<longleftrightarrow>
     redis_law (ex_redis X) V \<and> redis_leaves (ex_redis X) D \<and>
     model_law q users (ex_users X) D V \<and>
     jwt_law (ex_jwt X) (ex_runtime X) (\<lambda>w. (V w, D w)) cust regd \<and>
     (\<forall>w. now_ms (V w) = fst (rt_now (ex_runtime X) w) div 1000000 + d) \<and>
     (\<forall>password cost. leaves (\<lambda>w. (V w, D w)) (bl_generate (ex_bcrypt X) password cost))"

lemma auth_worldD:
  assumes "auth_world q X V D cust regd d"
  shows "redis_law (ex_redis X) V" and "redis_leaves (ex_redis X) D"
    and "model_law q users (ex_users X) D V"
    and "jwt_law (ex_jwt X) (ex_runtime X) (\<lambda>w. (V w, D w)) cust regd"
    and "now_ms (V w) = fst (rt_now (ex_runtime X) w) div 1000000 + d"
    and "leaves (\<lambda>w. (V w, D w)) (bl_generate (ex_bcrypt X) password cost)"
  using assms by (simp_all add: auth_world_def)

lemma new_auth_service_simps [simp]:
  "tm_parse_token (ap_jwt (new_auth_service X cfg ce)) = parse_token (ex_jwt X) cfg"
  "tm_generate_access_token (ap_jwt (new_auth_service X cfg ce)) = generate_access_token (ex_jwt X) (ex_runtime X) cfg"
  "tm_generate_refresh_token (ap_jwt (new_auth_service X cfg ce)) = generate_refresh_token (ex_jwt X) (ex_runtime X) cfg"
  "tc_is_token_in_blacklist (ap_cache (new_auth_service X cfg ce)) = is_token_in_blacklist (ex_redis X)"
  "tc_add_token_to_blacklist (ap_cache (new_auth_service X cfg ce)) = add_token_to_blacklist (ex_redis X)"
  "tc_consume_refresh_token (ap_cache (new_auth_service X cfg ce)) = consume_refresh_token (ex_redis X)"
  "tc_set_reset_token (ap_cache (new_auth_service X cfg ce)) = set_reset_token (ex_redis X)"
  "tc_get_reset_token (ap_cache (new_auth_service X cfg ce)) = get_reset_token (ex_redis X)"
  "tc_del_reset_token (ap_cache (new_auth_service X cfg ce)) = del_reset_token (ex_redis X)"
  "ur_get_by_id (ap_users (new_auth_service X cfg ce)) = user_get_by_id (ex_users X) (ex_db X)"
  "ur_get_by_phone (ap_users (new_auth_service X cfg ce)) = user_get_by_phone (ex_users X) (ex_db X)"
  "ur_get_by_username (ap_users (new_auth_service X cfg ce)) = user_get_by_username (ex_users X) (ex_db X)"
  "ur_create (ap_users (new_auth_service X cfg ce)) = user_create (ex_users X) (ex_db X)"
  "ur_update_password (ap_users (new_auth_service X cfg ce)) = user_update_password (ex_users X) (ex_db X)"
  "ph_hash_password (ap_hasher (new_auth_service X cfg ce)) = hash_password (ex_bcrypt X) 10"
  "ph_compare_password (ap_hasher (new_auth_service X cfg ce)) = compare_password (ex_bcrypt X)"
  "ap_runtime (new_auth_service X cfg ce) = ex_runtime X"
  "cs_verify (ap_captcha (new_auth_service X cfg ce)) = captcha_verify (ex_redis X)"
  "ss_verify_code (ap_sms (new_auth_service X cfg ce)) = verify_code (new_sms_cache (ex_redis X))"
  by (simp_all add: new_auth_service_def Let_def new_token_manager_def new_auth_cache_def new_user_repo_def
      new_password_hasher_def new_captcha_service_def new_captcha_def new_sms_service_def svc_captcha_verify_def fun_eq_iff)

text \<open>What the calls of one method do to the two views.\<close>

lemma parse_views:
  assumes "auth_world q X V D cust regd d" and "parse_token (ex_jwt X) cfg token b w = (r, w')"
  shows "V w' = V w" and "D w' = D w"
    and "r = Inr c \<longleftrightarrow> accepted cust cfg b (fst (rt_now (ex_runtime X) w)) token c"
  using parse_token_reply [OF auth_worldD(4) [OF assms(1)] assms(2)] by simp_all

lemma generate_views:
  assumes "auth_world q X V D cust regd d"
    and "generate_token (ex_jwt X) (ex_runtime X) cfg uid name role version secret expire w = (r, w')"
  shows "V w' = V w" and "D w' = D w"
  using generate_token_reply [OF auth_worldD(4) [OF assms(1)] assms(2)] by simp_all

lemma runtime_views:
  assumes "auth_world q X V D cust regd d"
  shows "rt_now (ex_runtime X) w = (t, w') \<Longrightarrow> V w' = V w \<and> D w' = D w"
    and "rt_uuid (ex_runtime X) w = (i, w') \<Longrightarrow> V w' = V w \<and> D w' = D w"
  using jwt_lawD(2,3) [OF auth_worldD(4) [OF assms], of w] by auto

lemma blacklist_views:
  assumes "auth_world q X V D cust regd d" and "is_token_in_blacklist (ex_redis X) token w = (r, w')"
  shows "V w' = V w" and "D w' = D w" and "r = Inr (blacklisted (V w) token) \<or> (\<exists>m. r = Inl (LibError m))"
proof -
  note is_blacklisted_reply [OF auth_worldD(1) [OF assms(1)] assms(2)]
  then show "V w' = V w" and "r = Inr (blacklisted (V w) token) \<or> (\<exists>m. r = Inl (LibError m))" by simp_all
  have "leaves D (is_token_in_blacklist (ex_redis X) token)"
    using auth_worldD(2) [OF assms(1)] unfolding is_token_in_blacklist_def redis_leaves_def
    by (intro leaves_intros) simp
  from leavesD [OF this assms(2)] show "D w' = D w" .
qed

lemma add_token_leaves: "redis_leaves R D \<Longrightarrow> leaves D (add_token_to_blacklist R token ttl)"
  by (simp add: add_token_to_blacklist_def redis_leaves_def)

lemma consume_leaves: "redis_leaves R D \<Longrightarrow> leaves D (consume_refresh_token R token ttl)"
  unfolding consume_refresh_token_def redis_leaves_def by (intro leaves_intros) simp

section \<open>A reference world\<close>

text \<open>A Redis store beside anything else, and with a database.\<close>

type_synonym ref_world = "rstore \<times> database"

definition on_store :: "(rstore \<Rightarrow> (go_err + 'a) \<times> rstore) \<Rightarrow> (rstore \<times> 'd, 'a) go" where
  "on_store c w = (case w of (s, d) \<Rightarrow> (case c s of (r, s') \<Rightarrow> (r, (s', d))))"

definition pair_redis :: "(rstore \<times> 'd) redis" where
  "pair_redis =
     \<lparr>rd_run = (\<lambda>body w. case body w of (r, (s, d)) \<Rightarrow> (r, (s, snd w))),
      rd_set = (\<lambda>k v t. on_store (cmd_set k v t)), rd_setnx = (\<lambda>k v t. on_store (cmd_setnx k v t)),
      rd_get = (\<lambda>k. on_store (cmd_get k)), rd_getdel = (\<lambda>k. on_store (cmd_getdel k)),
      rd_del = (\<lambda>k. on_store (cmd_del k)), rd_exists = (\<lambda>k. on_store (cmd_exists k)),
      lua_time = on_store cmd_time, lua_hget = (\<lambda>k f. on_store (cmd_hget k f)),
      lua_hset = (\<lambda>k fs. on_store (cmd_hset k fs)), lua_hincrby = (\<lambda>k f n. on_store (cmd_hincrby k f n)),
      lua_pexpire = (\<lambda>k n. on_store (cmd_pexpire k n)), lua_pexpireat = (\<lambda>k n. on_store (cmd_pexpireat k n)),
      lua_expire = (\<lambda>k n. on_store (cmd_expire k n)), lua_del = (\<lambda>k. on_store (cmd_del k)),
      lua_zremrangebyscore = (\<lambda>k b. on_store (cmd_zremrangebyscore k b)), lua_zcard = (\<lambda>k. on_store (cmd_zcard k)),
      lua_zadd = (\<lambda>k n m. on_store (cmd_zadd k n m)), lua_zrem = (\<lambda>k m. on_store (cmd_zrem k m))\<rparr>"

definition ref_server :: server_config where
  "ref_server = \<lparr>sq_text_eq = (=), sq_changed_only = True\<rparr>"

definition put_db :: "database \<Rightarrow> ref_world \<Rightarrow> ref_world" where
  "put_db d w = (fst w, d)"

definition ref_runtime :: "(rstore \<times> 'd) runtime" where
  "ref_runtime = \<lparr>rt_now = (\<lambda>w. (rs_us (fst w) * 1000, w)), rt_uuid = (\<lambda>w. (''u'', w))\<rparr>"

definition ref_bcrypt :: "'w bcrypt_lib" where
  "ref_bcrypt = \<lparr>bl_generate = (\<lambda>p cost. ret (CHR ''$'' # p)),
     bl_compare = (\<lambda>h p. if h = CHR ''$'' # p then None else Some (LibError ''hashedPassword is not the hash''))\<rparr>"

definition ref_externals :: "(ref_world, unit) externals" where
  "ref_externals =
     \<lparr>ex_redis = pair_redis, ex_captcha_lib = (\<lambda>set. ret ([], [], [])),
      ex_sms_client = \<lparr>sm_send_sms = (\<lambda>ph c. ret ())\<rparr>, ex_rand_int = (\<lambda>n. ret 0),
      ex_jwt = ref_jwt ref_runtime, ex_users = ref_model snd put_db ref_server users, ex_db = (),
      ex_bcrypt = ref_bcrypt, ex_runtime = ref_runtime\<rparr>"

lemma on_store_exact: "exact fst c (on_store c)"
  by (auto simp: exact_def on_store_def split: prod.split)

lemma on_store_leaves: "leaves snd (on_store c)"
  by (auto simp: leaves_def on_store_def split: prod.split)

lemma pair_redis_law: "redis_law (pair_redis :: (rstore \<times> 'd) redis) fst"
proof -
  have "served fst c (rd_run (pair_redis :: (rstore \<times> 'd) redis) body)" if "exact fst c body" for c :: "(rstore, int) go" and body
    using that by (simp add: pair_redis_def split_beta exact_def served_def)
  then show ?thesis
    by (simp add: redis_law_def lua_law_def client_law_def)
      (simp add: pair_redis_def on_store_exact exact_served)
qed

lemma pair_redis_leaves: "redis_leaves (pair_redis :: (rstore \<times> 'd) redis) snd"
proof -
  have "leaves snd (rd_run (pair_redis :: (rstore \<times> 'd) redis) body)" for body
    by (auto simp: pair_redis_def leaves_def split: prod.split)
  then show ?thesis
    by (simp add: redis_leaves_def) (simp add: pair_redis_def on_store_leaves)
qed

lemma ref_externals_simps [simp]:
  "ex_redis ref_externals = pair_redis" "ex_jwt ref_externals = ref_jwt ref_runtime"
  "ex_users ref_externals = ref_model snd put_db ref_server users" "ex_runtime ref_externals = ref_runtime"
  "ex_bcrypt ref_externals = ref_bcrypt" "ex_db ref_externals = ()"
  by (simp_all add: ref_externals_def)

lemma ref_auth_world: "auth_world ref_server ref_externals fst snd ref_custom ref_registered 0"
proof -
  have "valid_utf8 ''u''" by code_simp
  then have "jwt_law (ref_jwt ref_runtime) ref_runtime (\<lambda>w. (fst w, snd w)) ref_custom ref_registered"
    by (intro ref_jwt_law) (simp add: ref_runtime_def)
  moreover have "model_law ref_server users (ref_model snd put_db ref_server users) snd fst"
    by (rule ref_model_law) (simp add: put_db_def)
  ultimately show ?thesis
    by (simp add: auth_world_def pair_redis_law pair_redis_leaves ref_runtime_def now_ms_def ref_bcrypt_def leaves_def
        ret_def)
qed

text \<open>One enabled user, no token in Redis, at time 0.\<close>

definition sample_user :: user where
  "sample_user = \<lparr>us_id = 7, us_created_at = 0, us_updated_at = 0, us_username = ''n'', us_password = ''$pw'',
     us_phone = ''1'', us_email = None, us_role = ''user'', us_status = 1, us_token_version = 2\<rparr>"

definition sample_db :: database where
  "sample_db = \<lparr>db_now = 0, db_users = \<lparr>tb_rows = [sample_user], tb_next = 8\<rparr>,
     db_servers = \<lparr>tb_rows = [], tb_next = 1\<rparr>, db_dsts = \<lparr>tb_rows = [], tb_next = 1\<rparr>,
     db_tasks = \<lparr>tb_rows = [], tb_next = 1\<rparr>\<rparr>"

definition sample_world :: ref_world where
  "sample_world = (at_us 0, sample_db)"

abbreviation sample_service :: "(ref_world, unit) auth_parts" where
  "sample_service \<equiv> new_auth_service ref_externals sample_cfg 0"

end
