(* ===== verification/AuthSession.thy ===== *)
theory AuthSession
  imports AuthWorld SingleUse
begin

text \<open>
  Login sessions over the real parts of the authentication service: what \<open>Authenticate\<close> answers, that a refresh
  token is exchanged at most once, and that \<open>Logout\<close> ends a session.
\<close>

section \<open>Authenticate\<close>

text \<open>What the answer should be, from what the two stores hold and the time.\<close>

definition auth_verdict ::
    "(string \<Rightarrow> string \<Rightarrow> custom_claims option) \<Rightarrow> jwt_config \<Rightarrow> int \<Rightarrow> rstore \<Rightarrow> database \<Rightarrow> string \<Rightarrow> go_err + identity"
where
  "auth_verdict cust cfg now s d token =
     (if token = [] then Inl (BizError 401 (AuthMsg M_credential_missing))
      else
        case cust token (jc_access_secret cfg) of
          None \<Rightarrow> Inl (BizError 401 (AuthMsg M_credential_invalid))
        | Some c \<Rightarrow>
            if \<not> passes now (jc_issuer cfg) True (cc_registered c)
            then Inl (BizError 401 (AuthMsg M_credential_invalid))
            else if blacklisted s token then Inl (BizError 401 (AuthMsg M_credential_revoked))
            else
              case user_with_id d (cc_user_id c) of
                None \<Rightarrow> Inl (BizError 401 (AuthMsg M_login_state_invalid))
              | Some u \<Rightarrow>
                  if us_status u = 1 \<and> us_token_version u = cc_token_version c
                  then Inr \<lparr>id_user_id = us_id u, id_username = us_username u, id_role = us_role u\<rparr>
                  else Inl (BizError 401 (AuthMsg M_login_state_invalid)))"

lemma authenticate_reply:
  assumes world: "auth_world q X V D cust regd d"
    and run: "authenticate (new_auth_service X cfg ce) ctx token w = (r, w')"
  shows "V w' = V w \<and> D w' = D w \<and>
    (r = auth_verdict cust cfg (fst (rt_now (ex_runtime X) w)) (V w) (D w) token \<or>
     r = Inl (BizError 500 (AuthMsg M_identity_unavailable)) \<and>
       (\<exists>c. accepted cust cfg False (fst (rt_now (ex_runtime X) w)) token c))"
proof (cases "token = []")
  case True
  with run show ?thesis by (simp add: authenticate_def auth_verdict_def)
next
  case False
  let ?now = "fst (rt_now (ex_runtime X) w)"
  obtain r1 w1 where p: "parse_token (ex_jwt X) cfg token False w = (r1, w1)" by fastforce
  note pv = parse_views [OF world p]
  show ?thesis
  proof (cases r1)
    case (Inl e)
    with run False p pv(3) show ?thesis
      by (auto simp: authenticate_def auth_verdict_def accepted_def secret_of_def pv split: option.splits)
  next
    case (Inr c)
    then have acc: "accepted cust cfg False ?now token c" using pv(3) by simp
    obtain r2 w2 where b: "is_token_in_blacklist (ex_redis X) token w1 = (r2, w2)" by fastforce
    note bv = blacklist_views [OF world b]
    obtain r3 w3 where g: "user_get_by_id (ex_users X) (ex_db X) ctx (cc_user_id c) w2 = (r3, w3)" by fastforce
    note gv = user_get_by_id_reply [OF auth_worldD(3) [OF world] g]
    show ?thesis
      using run False p Inr b bv g gv acc
      by (auto simp: authenticate_def auth_verdict_def accepted_def secret_of_def pv split: option.splits sum.splits if_splits)
  qed
qed

section \<open>Tokens that are dead\<close>

text \<open>
  A token is dead when it has expired or its blacklist entry outlasts it. The entry of a token is kept to the
  millisecond before its expiry, and since expiry is a whole second that is enough.
\<close>

definition dead ::
    "('w \<Rightarrow> rstore) \<Rightarrow> (string \<Rightarrow> string \<Rightarrow> custom_claims option) \<Rightarrow> int \<Rightarrow> string \<Rightarrow> string \<Rightarrow> 'w \<Rightarrow> bool" where
  "dead V cust d secret token w \<longleftrightarrow>
     (\<forall>c e. cust token secret = Some c \<and> rc_expires_at (cc_registered c) = Some e \<longrightarrow>
        e div 1000000 + d \<le> now_ms (V w) \<or>
        (\<exists>v t. live (V w) (token_blacklist_prefix @ token) = Some (v, Some t) \<and> e div 1000000 + d \<le> t + 1))"

lemma dead_keeps:
  assumes "keeps_key V (token_blacklist_prefix @ token) env" and "dead V cust d secret token w"
  shows "dead V cust d secret token (env w)"
  unfolding dead_def
proof (intro allI impI)
  fix c e
  assume c: "cust token secret = Some c \<and> rc_expires_at (cc_registered c) = Some e"
  have mono: "now_ms (V w) \<le> now_ms (V (env w))" using assms(1) by (simp add: keeps_key_def)
  from assms(2) c consider "e div 1000000 + d \<le> now_ms (V w)"
    | v t where "live (V w) (token_blacklist_prefix @ token) = Some (v, Some t)" "e div 1000000 + d \<le> t + 1"
    unfolding dead_def by blast
  then show "e div 1000000 + d \<le> now_ms (V (env w)) \<or>
      (\<exists>v t. live (V (env w)) (token_blacklist_prefix @ token) = Some (v, Some t) \<and> e div 1000000 + d \<le> t + 1)"
  proof cases
    case 1
    with mono show ?thesis by simp
  next
    case 2
    with keeps_key_live [OF assms(1) 2(1)] show ?thesis by (cases "now_ms (V (env w)) \<le> t") auto
  qed
qed

lemma dead_cong: "V w' = V w \<Longrightarrow> dead V cust d secret token w' = dead V cust d secret token w"
  by (simp add: dead_def)

text \<open>A token that is dead and still accepted is in the blacklist.\<close>

lemma whole_second_multiple:
  fixes e :: int
  assumes "e mod 1000000000 = 0"
  obtains k where "e = 1000000 * k" "e div 1000000 = k"
proof -
  obtain k where "e = 1000000000 * k" using assms by (auto simp: mod_eq_0_iff_dvd)
  then have "e = 1000000 * (1000 * k)" by simp
  with that show thesis by simp
qed

lemma div_million:
  fixes t :: int
  shows "1000000 * (t div 1000000) \<le> t" "t < 1000000 * (t div 1000000) + 1000000"
  using mult_div_mod_eq [of 1000000 t] pos_mod_bound [of 1000000 t] pos_mod_sign [of 1000000 t] by linarith+

lemma whole_second_ms:
  fixes e t :: int
  assumes "e mod 1000000000 = 0"
  shows "e div 1000000 \<le> t div 1000000 \<longleftrightarrow> e \<le> t"
proof -
  obtain k where k: "e = 1000000 * k" "e div 1000000 = k" using whole_second_multiple [OF assms] .
  show ?thesis unfolding k(2) unfolding k(1) using div_million [of t] by linarith
qed

lemma ms_difference:
  fixes e t :: int
  shows "e div 1000000 - t div 1000000 \<le> (e - t) div 1000000 + 1"
  using div_million [of e] div_million [of t] div_million [of "e - t"] by linarith

lemma accepted_expiry:
  assumes "auth_world q X V D cust regd d" and "accepted cust cfg b now token c"
  obtains e where "rc_expires_at (cc_registered c) = Some e" "now < e" "e mod 1000000000 = 0"
proof -
  obtain e where e: "rc_expires_at (cc_registered c) = Some e" "now < e" using accepted_expires [OF assms(2)] by blast
  have "numeric_dates (cc_registered c)"
    using jwt_lawD(9) [OF auth_worldD(4) [OF assms(1)]] assms(2) unfolding accepted_def by blast
  then have "e mod 1000000000 = 0" using e(1) by (simp add: numeric_dates_def whole_second_def)
  from that [OF e this] show thesis .
qed

lemma dead_blacklisted:
  assumes world: "auth_world q X V D cust regd d" and "dead V cust d (secret_of cfg b) token w"
    and acc: "accepted cust cfg b (fst (rt_now (ex_runtime X) w)) token c"
  shows "blacklisted (V w) token"
proof -
  obtain e where e: "rc_expires_at (cc_registered c) = Some e" "fst (rt_now (ex_runtime X) w) < e" "e mod 1000000000 = 0"
    using accepted_expiry [OF world acc] by blast
  have "\<not> e div 1000000 + d \<le> now_ms (V w)"
    using whole_second_ms [OF e(3), of "fst (rt_now (ex_runtime X) w)"] e(2) auth_worldD(5) [OF world, of w] by simp
  with assms(2) e(1) acc show ?thesis by (auto simp: dead_def accepted_def blacklisted_def)
qed

text \<open>An entry that is stored for the remaining time makes the token dead.\<close>

lemma stored_dead:
  assumes world: "auth_world q X V D cust regd d" and acc: "accepted cust cfg b (fst (rt_now (ex_runtime X) w)) token c"
    and e: "rc_expires_at (cc_registered c) = Some e"
    and now: "now_ms (V w1) = now_ms (V w)"
    and stored: "live (V w') (token_blacklist_prefix @ token) =
      Some (v, Some (lasts_until (V w1) (e - fst (rt_now (ex_runtime X) w2))))"
    and same: "V w2 = V w"
  shows "dead V cust d (secret_of cfg b) token w'"
  unfolding dead_def
proof (intro allI impI)
  fix c' e'
  assume "cust token (secret_of cfg b) = Some c' \<and> rc_expires_at (cc_registered c') = Some e'"
  then have e': "e' = e" using acc e by (simp add: accepted_def)
  have "e div 1000000 - fst (rt_now (ex_runtime X) w2) div 1000000 \<le>
      (e - fst (rt_now (ex_runtime X) w2)) div 1000000 + 1"
    by (rule ms_difference)
  moreover have "now_ms (V w1) = fst (rt_now (ex_runtime X) w2) div 1000000 + d"
    using now same auth_worldD(5) [OF world, of w2] by simp
  ultimately have last: "e div 1000000 + d \<le> lasts_until (V w1) (e - fst (rt_now (ex_runtime X) w2)) + 1"
    by (simp add: lasts_until_def)
  show "e' div 1000000 + d \<le> now_ms (V w') \<or>
      (\<exists>v t. live (V w') (token_blacklist_prefix @ token) = Some (v, Some t) \<and> e' div 1000000 + d \<le> t + 1)"
    unfolding e' using stored last by blast
qed

lemma dead_not_authenticated:
  assumes world: "auth_world q X V D cust regd d" and dead: "dead V cust d (jc_access_secret cfg) token w"
    and run: "authenticate (new_auth_service X cfg ce) ctx token w = (r, w')"
  shows "\<exists>e. r = Inl e"
proof -
  have s: "secret_of cfg False = jc_access_secret cfg" by (simp add: secret_of_def)
  have "blacklisted (V w) token" if "cust token (jc_access_secret cfg) = Some c"
    "passes (fst (rt_now (ex_runtime X) w)) (jc_issuer cfg) True (cc_registered c)" for c
    using dead_blacklisted [OF world, of cfg False token w c] dead that by (simp add: s accepted_def)
  then show ?thesis
    using authenticate_reply [OF world run] by (auto simp: auth_verdict_def split: option.splits if_splits)
qed

section \<open>Exchanging a refresh token\<close>

text \<open>The end of \<open>RefreshToken\<close>, where the new tokens are made and the old one is consumed.\<close>

definition reissue ::
    "('w, 'h) externals \<Rightarrow> jwt_config \<Rightarrow> user \<Rightarrow> string \<Rightarrow> int \<Rightarrow> ('w, string \<times> string) go" where
  "reissue X cfg u token ttl =
     call (generate_access_token (ex_jwt X) (ex_runtime X) cfg (us_id u) (us_username u) (us_role u) (us_token_version u))
       (\<lambda>_. fail (BizError 500 (AuthMsg M_access_token_failed))) (\<lambda>access.
     call (generate_refresh_token (ex_jwt X) (ex_runtime X) cfg (us_id u) (us_username u) (us_role u) (us_token_version u))
       (\<lambda>_. fail (BizError 500 (AuthMsg M_refresh_token_failed))) (\<lambda>refresh.
     call (consume_refresh_token (ex_redis X) token ttl) (\<lambda>_. fail (BizError 500 (AuthMsg M_identity_unavailable))) (\<lambda>consumed.
     if \<not> consumed then fail (BizError 409 (SessionMsg M_refresh_used)) else ret (access, refresh))))"

lemma refresh_issue_steps:
  assumes world: "auth_world q X V D cust regd d"
    and run: "reissue X cfg u token ttl w = (r, w')"
  shows "(V w' = V w \<and> D w' = D w \<and> (\<exists>e. r = Inl e)) \<or>
    (\<exists>w1 r1 tokens. V w1 = V w \<and> D w1 = D w \<and> consume_refresh_token (ex_redis X) token ttl w1 = (r1, w') \<and>
      (r1 = Inr True \<and> r = Inr tokens \<or> r1 \<noteq> Inr True \<and> (\<exists>err. r = Inl err)))"
proof -
  let ?gen = "\<lambda>f. f (ex_jwt X) (ex_runtime X) cfg (us_id u) (us_username u) (us_role u) (us_token_version u)"
  obtain r1 w1 where a: "?gen generate_access_token w = (r1, w1)" by fastforce
  obtain r2 w2 where b: "?gen generate_refresh_token w1 = (r2, w2)" by fastforce
  obtain r3 w3 where c: "consume_refresh_token (ex_redis X) token ttl w2 = (r3, w3)" by fastforce
  have v: "V w1 = V w" "D w1 = D w" "V w2 = V w" "D w2 = D w"
    using generate_views [OF world a [unfolded generate_access_token_def]]
      generate_views [OF world b [unfolded generate_refresh_token_def]] by simp_all
  show ?thesis
  proof (cases "(\<exists>x. r1 = Inr x) \<and> (\<exists>y. r2 = Inr y)")
    case False
    with run a b v show ?thesis by (cases r1; cases r2) (auto simp: reissue_def)
  next
    case True
    then have "w' = w3 \<and> ((\<exists>tokens. r3 = Inr True \<and> r = Inr tokens) \<or> r3 \<noteq> Inr True \<and> (\<exists>err. r = Inl err))"
      using run a b c by (cases r3) (auto simp: reissue_def split: if_splits)
    with v c show ?thesis by blast
  qed
qed

text \<open>How far \<open>RefreshToken\<close> gets: it stops before it touches a store, or it consumes the old token last.\<close>

lemma refresh_steps:
  assumes world: "auth_world q X V D cust regd d"
    and run: "refresh_token (new_auth_service X cfg ce) ctx token w = (r, w')"
  shows "(V w' = V w \<and> D w' = D w \<and> (\<exists>e. r = Inl e)) \<or>
    (\<exists>c e u w1 w2 r1 tokens. accepted cust cfg True (fst (rt_now (ex_runtime X) w)) token c \<and>
      rc_expires_at (cc_registered c) = Some e \<and>
      user_with_id (D w) (cc_user_id c) = Some u \<and> us_token_version u = cc_token_version c \<and> us_status u = 1 \<and>
      V w2 = V w \<and> V w1 = V w \<and> D w1 = D w \<and> 0 < e - fst (rt_now (ex_runtime X) w2) \<and>
      consume_refresh_token (ex_redis X) token (e - fst (rt_now (ex_runtime X) w2)) w1 = (r1, w') \<and>
      (r1 = Inr True \<and> r = Inr tokens \<or> r1 \<noteq> Inr True \<and> (\<exists>err. r = Inl err)))"
proof -
  let ?S = "new_auth_service X cfg ce"
  obtain r1 w1 where p: "parse_token (ex_jwt X) cfg token True w = (r1, w1)" by fastforce
  note pv = parse_views [OF world p]
  show ?thesis
  proof (cases "token \<noteq> [] \<and> (\<exists>c. r1 = Inr c)")
    case False
    with run p have "V w' = V w \<and> D w' = D w \<and> (\<exists>e. r = Inl e)"
      by (cases r1) (auto simp: refresh_token_def pv split: if_splits)
    then show ?thesis ..
  next
    case True
    then obtain c where c: "r1 = Inr c" by blast
    then have acc: "accepted cust cfg True (fst (rt_now (ex_runtime X) w)) token c" using pv(3) by simp
    obtain e where e: "rc_expires_at (cc_registered c) = Some e" using accepted_expires [OF acc] by blast
    obtain r2 w2 where g: "user_get_by_id (ex_users X) (ex_db X) ctx (cc_user_id c) w1 = (r2, w2)" by fastforce
    note gv = user_get_by_id_reply [OF auth_worldD(3) [OF world] g]
    obtain now w3 where t: "rt_now (ex_runtime X) w2 = (now, w3)" by fastforce
    note tv = runtime_views(1) [OF world t]
    show ?thesis
    proof (cases "\<exists>u. r2 = Inr (Some u) \<and> us_token_version u = cc_token_version c \<and> us_status u = 1 \<and> now < e")
      case False
      with run True p c e g t have "V w' = V w \<and> D w' = D w \<and> (\<exists>e. r = Inl e)"
        by (cases r2)
          (auto simp: refresh_token_def time_until_def effect_def pv gv tv split: option.splits if_splits)
      then show ?thesis ..
    next
      case True
      then obtain u where u: "r2 = Inr (Some u)" "us_token_version u = cc_token_version c" "us_status u = 1" "now < e"
        by blast
      then have user: "user_with_id (D w) (cc_user_id c) = Some u" using gv pv by auto
      show ?thesis
      proof (cases "V w' = V w3 \<and> D w' = D w3 \<and> (\<exists>e. r = Inl e)")
        case True
        with pv gv tv have "V w' = V w \<and> D w' = D w \<and> (\<exists>e. r = Inl e)" by simp
        then show ?thesis ..
      next
        case False
        have "refresh_token ?S ctx token w = reissue X cfg u token (e - now) w3"
          using \<open>token \<noteq> [] \<and> (\<exists>c. r1 = Inr c)\<close> p c e g t u
          by (simp add: refresh_token_def time_until_def effect_def reissue_def)
        with run have "reissue X cfg u token (e - now) w3 = (r, w')" by simp
        from refresh_issue_steps [OF world this] False obtain w5 r6 tokens where
          co: "V w5 = V w3" "D w5 = D w3" "consume_refresh_token (ex_redis X) token (e - now) w5 = (r6, w')"
          and r: "r6 = Inr True \<and> r = Inr tokens \<or> r6 \<noteq> Inr True \<and> (\<exists>err. r = Inl err)"
          by blast
        have now: "fst (rt_now (ex_runtime X) w2) = now" by (simp add: t)
        have "V w2 = V w" "V w5 = V w" "D w5 = D w" "0 < e - now" using pv gv tv co u(4) by simp_all
        with acc e user u(2,3) co(3) r show ?thesis unfolding now [symmetric] by blast
      qed
    qed
  qed
qed

lemma refresh_contract:
  assumes world: "auth_world q X V D cust regd d"
    and run: "refresh_token (new_auth_service X cfg ce) ctx token w = (r, w')"
  shows "(\<exists>p. r = Inr p) \<Longrightarrow> dead V cust d (jc_refresh_secret cfg) token w'"
    and "dead V cust d (jc_refresh_secret cfg) token w \<Longrightarrow>
      \<not> (\<exists>p. r = Inr p) \<and> dead V cust d (jc_refresh_secret cfg) token w'"
proof -
  have s: "secret_of cfg True = jc_refresh_secret cfg" by (simp add: secret_of_def)
  note steps = refresh_steps [OF world run]
  show "dead V cust d (jc_refresh_secret cfg) token w'" if "\<exists>p. r = Inr p"
  proof -
    from steps that obtain c e w1 w2 where
      acc: "accepted cust cfg True (fst (rt_now (ex_runtime X) w)) token c" and
      e: "rc_expires_at (cc_registered c) = Some e" and same: "V w2 = V w" "V w1 = V w" and
      co: "consume_refresh_token (ex_redis X) token (e - fst (rt_now (ex_runtime X) w2)) w1 = (Inr True, w')"
      by fastforce
    have "live (V w') (token_blacklist_prefix @ token) =
        Some (RStr ''1'', Some (lasts_until (V w1) (e - fst (rt_now (ex_runtime X) w2))))"
      using consume_refresh_reply [OF auth_worldD(1) [OF world] co] by simp
    from stored_dead [OF world acc e _ this same(1)] same(2) show ?thesis by (simp add: s)
  qed
  show "\<not> (\<exists>p. r = Inr p) \<and> dead V cust d (jc_refresh_secret cfg) token w'"
    if dead: "dead V cust d (jc_refresh_secret cfg) token w"
  proof (cases "V w' = V w \<and> D w' = D w \<and> (\<exists>e. r = Inl e)")
    case True
    with dead show ?thesis by (auto simp: dead_cong [of V w' w])
  next
    case False
    with steps obtain c e w1 w2 r1 where
      acc: "accepted cust cfg True (fst (rt_now (ex_runtime X) w)) token c" and same: "V w1 = V w" and
      co: "consume_refresh_token (ex_redis X) token (e - fst (rt_now (ex_runtime X) w2)) w1 = (r1, w')" and
      r: "r1 = Inr True \<or> (\<exists>err. r = Inl err)"
      by blast
    have "blacklisted (V w1) token"
      using dead_blacklisted [OF world _ acc] dead same by (simp add: s blacklisted_def)
    with consume_refresh_reply [OF auth_worldD(1) [OF world] co] have "r1 \<noteq> Inr True" "V w' = V w1" by auto
    with r dead same show ?thesis by (auto simp: dead_cong [of V w' w])
  qed
qed

interpretation refresh_use: single_use "auth_world q X V D cust regd d"
    "\<lambda>ctx. refresh_token (new_auth_service X cfg ce) ctx token" "\<lambda>r. \<exists>p. r = Inr p"
    "dead V cust d (jc_refresh_secret cfg) token"
  for q X V D cust regd d cfg ce token
  by unfold_locales (rule refresh_contract(1), assumption+, rule refresh_contract(2), assumption+)

section \<open>Logging out\<close>

lemma revoke_steps:
  assumes world: "auth_world q X V D cust regd d" and acc: "accepted cust cfg b (fst (rt_now (ex_runtime X) w)) token c"
    and run: "revoke_token (new_auth_service X cfg ce) token b w = (Inr (), w')" and token: "token \<noteq> []"
  shows "dead V cust d (secret_of cfg b) token w'"
proof -
  obtain r1 w1 where p: "parse_token (ex_jwt X) cfg token b w = (r1, w1)" by fastforce
  note pv = parse_views [OF world p]
  have c: "r1 = Inr c" using pv(3) acc by simp
  obtain e where e: "rc_expires_at (cc_registered c) = Some e" using accepted_expires [OF acc] by blast
  obtain now w2 where t: "rt_now (ex_runtime X) w1 = (now, w2)" by fastforce
  note tv = runtime_views(1) [OF world t]
  have now: "fst (rt_now (ex_runtime X) w1) = now" by (simp add: t)
  show ?thesis
  proof (cases "e - now \<le> 0")
    case True
    then have "w' = w2" using run token p c e t by (simp add: revoke_token_def effect_def time_until_def)
    have "e \<le> now" using True by simp
    then have "e div 1000000 \<le> now div 1000000" by (rule zdiv_mono1) simp
    then have "e div 1000000 + d \<le> now_ms (V w')"
      using auth_worldD(5) [OF world, of w1] now tv \<open>w' = w2\<close> by simp
    with acc e show ?thesis by (auto simp: dead_def accepted_def)
  next
    case False
    then have add: "add_token_to_blacklist (ex_redis X) token (e - now) w2 = (Inr (), w')"
      using run token p c e t by (simp add: revoke_token_def effect_def time_until_def)
    from False have ttl: "0 < e - now" by simp
    have stored: "live (V w') (token_blacklist_prefix @ token) = Some (RStr ''1'', Some (lasts_until (V w2) (e - now)))"
      using add_token_stores [OF auth_worldD(1) [OF world] ttl add] by simp
    show ?thesis
      by (rule stored_dead [OF world acc e _ stored [folded now]]) (simp_all add: pv tv)
  qed
qed

text \<open>Revoking one token does not revive another.\<close>

lemma touches_set: "touches_only k (cmd_set k v ttl)"
  by (simp add: touches_only_def cmd_set_def)

lemma revoke_other:
  assumes world: "auth_world q X V D cust regd d" and run: "revoke_token (new_auth_service X cfg ce) token b w = (r, w')"
  shows "now_ms (V w') = now_ms (V w)" and "other \<noteq> token \<Longrightarrow>
    live (V w') (token_blacklist_prefix @ other) = live (V w) (token_blacklist_prefix @ other)"
proof -
  obtain r1 w1 where p: "parse_token (ex_jwt X) cfg token b w = (r1, w1)" by fastforce
  note pv = parse_views [OF world p]
  obtain now w2 where t: "rt_now (ex_runtime X) w1 = (now, w2)" by fastforce
  note tv = runtime_views(1) [OF world t]
  have "V w' = V w \<or> (\<exists>ttl. add_token_to_blacklist (ex_redis X) token ttl w2 = (r, w'))"
    using run p t pv tv
    by (auto simp: revoke_token_def effect_def time_until_def call_def split: if_splits sum.splits option.splits)
  moreover have "now_ms (V w') = now_ms (V w2) \<and> (other \<noteq> token \<longrightarrow>
      live (V w') (token_blacklist_prefix @ other) = live (V w2) (token_blacklist_prefix @ other))"
    if add: "add_token_to_blacklist (ex_redis X) token ttl w2 = (r, w')" for ttl
    using served_touches [OF client_served(1) [OF auth_worldD(1) [OF world]] touches_set
        add [unfolded add_token_to_blacklist_def]] by simp
  ultimately show "now_ms (V w') = now_ms (V w)" and "other \<noteq> token \<Longrightarrow>
    live (V w') (token_blacklist_prefix @ other) = live (V w) (token_blacklist_prefix @ other)"
    using pv tv by auto
qed

lemma accepted_same_ms:
  assumes world: "auth_world q X V D cust regd d" and ms: "now_ms (V w') = now_ms (V w)"
    and acc: "accepted cust cfg b (fst (rt_now (ex_runtime X) w)) token c"
  shows "accepted cust cfg b (fst (rt_now (ex_runtime X) w')) token c"
proof -
  let ?t = "fst (rt_now (ex_runtime X) w)" and ?t' = "fst (rt_now (ex_runtime X) w')"
  have eq: "?t' div 1000000 = ?t div 1000000"
    using ms auth_worldD(5) [OF world, of w] auth_worldD(5) [OF world, of w'] by simp
  have "numeric_dates (cc_registered c)"
    using jwt_lawD(9) [OF auth_worldD(4) [OF world]] acc unfolding accepted_def by blast
  then have dates: "rc_expires_at (cc_registered c) = Some e \<Longrightarrow> e \<le> ?t' \<longleftrightarrow> e \<le> ?t"
    "rc_not_before (cc_registered c) = Some e \<Longrightarrow> e \<le> ?t' \<longleftrightarrow> e \<le> ?t" for e
    using whole_second_ms [of e ?t] whole_second_ms [of e ?t'] eq by (auto simp: numeric_dates_def whole_second_def)
  show ?thesis
    using acc dates by (auto simp: accepted_def passes_def not_le [symmetric] split: option.splits)
qed

lemma logout_kills:
  assumes world: "auth_world q X V D cust regd d"
    and run: "logout (new_auth_service X cfg ce) access refresh w = (Inr (), w1)"
    and differ: "access \<noteq> refresh"
  shows "access \<noteq> [] \<and> accepted cust cfg False (fst (rt_now (ex_runtime X) w)) access c \<Longrightarrow>
      dead V cust d (jc_access_secret cfg) access w1"
    and "refresh \<noteq> [] \<and> accepted cust cfg True (fst (rt_now (ex_runtime X) w)) refresh c' \<Longrightarrow>
      dead V cust d (jc_refresh_secret cfg) refresh w1"
proof -
  let ?S = "new_auth_service X cfg ce"
  obtain wm where first: "revoke_token ?S refresh True w = (Inr (), wm)"
    and second: "revoke_token ?S access False wm = (Inr (), w1)"
    using run by (auto simp: logout_def split: call_split_asm)
  note m1 = revoke_other [OF world first] and m2 = revoke_other [OF world second]
  show "dead V cust d (jc_access_secret cfg) access w1"
    if "access \<noteq> [] \<and> accepted cust cfg False (fst (rt_now (ex_runtime X) w)) access c"
  proof -
    from that have a: "accepted cust cfg False (fst (rt_now (ex_runtime X) w)) access c" "access \<noteq> []" by simp_all
    from revoke_steps [OF world accepted_same_ms [OF world m1(1) a(1)] second a(2)] show ?thesis
      by (simp add: secret_of_def)
  qed
  show "dead V cust d (jc_refresh_secret cfg) refresh w1"
    if "refresh \<noteq> [] \<and> accepted cust cfg True (fst (rt_now (ex_runtime X) w)) refresh c'"
  proof -
    from that have a: "accepted cust cfg True (fst (rt_now (ex_runtime X) w)) refresh c'" "refresh \<noteq> []" by simp_all
    from revoke_steps [OF world a(1) first a(2)] m2(1) m2(2) [of refresh] differ show ?thesis
      by (simp add: secret_of_def dead_def)
  qed
qed

section \<open>Properties\<close>

text \<open>C14 \<open>Authenticate\<close> answers what the stores say: over the real token parser, blacklist and user table its
  answer is the verdict on the token (missing, invalid or expired, revoked, login state no longer valid, or
  the identity of the enabled user whose token version the token carries), or, for a token that parses, that the
  service is unavailable when a store fails. It changes neither store.\<close>

theorem authenticate_implements_verdict:
  assumes "auth_world q X V D cust regd d"
    and "authenticate (new_auth_service X cfg ce) ctx token w = (r, w')"
  shows "V w' = V w \<and> D w' = D w \<and>
    (r = auth_verdict cust cfg (fst (rt_now (ex_runtime X) w)) (V w) (D w) token \<or>
     r = Inl (BizError 500 (AuthMsg M_identity_unavailable)) \<and>
       (\<exists>c. accepted cust cfg False (fst (rt_now (ex_runtime X) w)) token c))"
  by (rule authenticate_reply [OF assms])

definition sample_tokens :: "string \<times> string" where
  "sample_tokens =
     (case issue_tokens sample_service sample_user sample_world of
        (Inr (l, refresh), w) \<Rightarrow> (lo_access_token l, refresh)
      | _ \<Rightarrow> ([], []))"

theorem authenticate_implements_verdict_witness:
  "fst (authenticate sample_service None (fst sample_tokens) sample_world) =
     Inr \<lparr>id_user_id = 7, id_username = ''n'', id_role = ''user''\<rparr> \<and>
   auth_verdict ref_custom sample_cfg 0 (at_us 0) sample_db (fst sample_tokens) =
     Inr \<lparr>id_user_id = 7, id_username = ''n'', id_role = ''user''\<rparr>"
proof -
  have ok: "fst (authenticate sample_service None (fst sample_tokens) sample_world) =
      Inr \<lparr>id_user_id = 7, id_username = ''n'', id_role = ''user''\<rparr>"
    by code_simp
  from authenticate_implements_verdict [OF ref_auth_world prod.collapse [symmetric],
      of sample_cfg 0 None "fst sample_tokens" sample_world] ok
  have "auth_verdict ref_custom sample_cfg (fst (rt_now ref_runtime sample_world)) (fst sample_world) (snd sample_world)
      (fst sample_tokens) = Inr \<lparr>id_user_id = 7, id_username = ''n'', id_role = ''user''\<rparr>"
    by auto
  with ok show ?thesis by (simp add: sample_world_def ref_runtime_def at_us_def)
qed




definition later_us :: "int \<Rightarrow> ref_world \<Rightarrow> ref_world" where
  "later_us us w = (wait_us us (fst w), snd w)"

lemma keeps_key_later: "0 \<le> us \<Longrightarrow> keeps_key fst k (later_us us)"
  using keeps_key_wait [of us k] unfolding keeps_key_def later_us_def fst_conv by blast


end
