(* ===== verification/PasswordReset.thy ===== *)
theory PasswordReset
  imports AuthSession
begin

text \<open>
  Resetting a password over the real parts of the authentication service: a reset token works at most once,
  though it may survive in Redis, and a reset ends every session of the user.
\<close>

section \<open>Reset tokens on the store\<close>

definition stored_reset :: "rstore \<Rightarrow> string \<Rightarrow> reset_token_data option" where
  "stored_reset s token =
     (case live s (reset_token_prefix @ token) of
        Some (RStr v, t) \<Rightarrow>
          (case parse_json v of
             Inl e \<Rightarrow> None
           | Inr j \<Rightarrow> (case unmarshal_reset_data j of Inl e \<Rightarrow> None | Inr d \<Rightarrow> Some d))
      | _ \<Rightarrow> None)"

lemma get_reset_stored:
  assumes law: "redis_law R V" and run: "get_reset_token R token w = (r, w')"
  shows "V w' = V w \<and> (\<forall>d. r = Inr (Some d) \<longrightarrow> stored_reset (V w) token = Some d)"
proof -
  obtain r1 where r1: "rd_get R (reset_token_prefix @ token) w = (r1, w')"
    and r: "\<And>d. r = Inr (Some d) \<Longrightarrow> \<exists>v j. r1 = Inr v \<and> parse_json v = Inr j \<and> unmarshal_reset_data j = Inr d"
    using run
    by (auto simp: get_reset_token_def call_def fail_def ret_def split: prod.splits sum.splits if_splits)
  have same: "snd (cmd_get (reset_token_prefix @ token) (V w)) = V w"
    by (simp add: cmd_get_def split: option.split prod.split rval.split)
  from client_served(3) [OF law] r1 show ?thesis
  proof (cases rule: served_cases)
    case reply
    then have "V w' = V w" using same by simp
    moreover have "stored_reset (V w) token = Some d" if "r = Inr (Some d)" for d
    proof -
      from r [OF that] obtain v j where v: "r1 = Inr v" "parse_json v = Inr j" "unmarshal_reset_data j = Inr d" by blast
      then have "\<exists>t. live (V w) (reset_token_prefix @ token) = Some (RStr v, t)"
        using reply by (auto simp: cmd_get_def split: option.splits prod.splits rval.splits)
      with v show ?thesis by (auto simp: stored_reset_def)
    qed
    ultimately show ?thesis by blast
  next
    case (lost m)
    have "\<not> (\<exists>d. r = Inr (Some d))" using r lost(1) by fastforce
    with lost(2) same show ?thesis by auto
  qed
qed

lemma get_reset_leaves: "redis_leaves R D \<Longrightarrow> leaves D (get_reset_token R token)"
  unfolding get_reset_token_def redis_leaves_def by (intro leaves_intros) simp

lemma del_reset_stored:
  assumes "redis_law R V" and "del_reset_token R token w = (r, w')"
  shows "stored_reset (V w') token = stored_reset (V w) token \<or> stored_reset (V w') token = None"
  using del_reset_reply(1) [OF assms] by (auto simp: stored_reset_def)

lemma del_reset_leaves: "redis_leaves R D \<Longrightarrow> leaves D (del_reset_token R token)"
  by (simp add: del_reset_token_def redis_leaves_def)

section \<open>The steps of \<open>ResetPassword\<close>\<close>

lemma reset_steps:
  assumes world: "auth_world q X V D cust regd d"
    and run: "reset_password (new_auth_service X cfg ce) ctx req w = (r, w')"
  shows "(V w' = V w \<and> D w' = D w \<and> (\<exists>e. r = Inl e)) \<or>
    (\<exists>data hashed w1 w2 w3 r1. stored_reset (V w) (rq_reset_token req) = Some data \<and>
      fst (hash_password (ex_bcrypt X) 10 (rq_new_password req) w3) = Inr hashed \<and>
      V w1 = V w \<and> D w1 = D w \<and>
      user_update_password (ex_users X) (ex_db X) ctx (rd_user_id data) hashed (rd_token_version data) w1 = (r1, w2) \<and>
      (r1 \<noteq> Inr () \<and> (\<exists>e. r = Inl e) \<and> w' = w2 \<or>
       r1 = Inr () \<and> r = Inr () \<and> w' = snd (del_reset_token (ex_redis X) (rq_reset_token req) w2)))"
proof -
  let ?S = "new_auth_service X cfg ce" and ?tok = "rq_reset_token req" and ?pw = "rq_new_password req"
  obtain r1 w1 where g: "get_reset_token (ex_redis X) ?tok w = (r1, w1)" by fastforce
  note gv = get_reset_stored [OF auth_worldD(1) [OF world] g]
    leavesD [OF get_reset_leaves [OF auth_worldD(2) [OF world]] g]
  show ?thesis
  proof (cases "\<exists>data. r1 = Inr (Some data)")
    case False
    with run g gv have "V w' = V w \<and> D w' = D w \<and> (\<exists>e. r = Inl e)"
      by (cases r1) (auto simp: reset_password_def split: option.splits)
    then show ?thesis ..
  next
    case True
    then obtain data where data: "r1 = Inr (Some data)" ..
    obtain r2 w2 where u: "user_get_by_id (ex_users X) (ex_db X) ctx (rd_user_id data) w1 = (r2, w2)" by fastforce
    note uv = user_get_by_id_reply [OF auth_worldD(3) [OF world] u]
    obtain r3 w3 where h: "hash_password (ex_bcrypt X) 10 ?pw w2 = (r3, w3)" by fastforce
    have "bl_generate (ex_bcrypt X) ?pw 10 w2 = (r3, w3)" using h by (simp add: hash_password_def)
    from leavesD [OF auth_worldD(6) [OF world] this] have hv: "V w3 = V w2" "D w3 = D w2" by simp_all
    show ?thesis
    proof (cases "\<exists>x hashed. r2 = Inr (Some x) \<and> r3 = Inr hashed")
      case False
      with run g data u h gv uv hv have "V w' = V w \<and> D w' = D w \<and> (\<exists>e. r = Inl e)"
        by (cases r2; cases r3) (auto simp: reset_password_def split: option.splits)
      then show ?thesis ..
    next
      case True
      then obtain x hashed where x: "r2 = Inr (Some x)" "r3 = Inr hashed" by blast
      obtain r4 w4 where p: "user_update_password (ex_users X) (ex_db X) ctx (rd_user_id data) hashed
          (rd_token_version data) w3 = (r4, w4)" by fastforce
      have "r4 \<noteq> Inr () \<and> (\<exists>e. r = Inl e) \<and> w' = w4 \<or>
          r4 = Inr () \<and> r = Inr () \<and> w' = snd (del_reset_token (ex_redis X) ?tok w4)"
        using run g data u h x p by (cases r4) (auto simp: reset_password_def ignoring_def split: if_splits)
      moreover have "stored_reset (V w) ?tok = Some data" using gv data by blast
      moreover have "fst (hash_password (ex_bcrypt X) 10 ?pw w2) = Inr hashed" using h x by simp
      moreover have "V w3 = V w" "D w3 = D w" using gv uv hv by simp_all
      ultimately show ?thesis using p by blast
    qed
  qed
qed

text \<open>A reset token is spent when it is gone or its user no longer has its version.\<close>

definition reset_spent :: "('w \<Rightarrow> rstore) \<Rightarrow> ('w \<Rightarrow> database) \<Rightarrow> string \<Rightarrow> 'w \<Rightarrow> bool" where
  "reset_spent V D token w \<longleftrightarrow>
     (\<forall>data. stored_reset (V w) token = Some data \<longrightarrow> \<not> has_version (D w) (rd_user_id data) (rd_token_version data))"

lemma reset_success:
  assumes world: "auth_world q X V D cust regd d"
    and run: "reset_password (new_auth_service X cfg ce) ctx req w = (Inr (), w')"
  shows "\<exists>data hashed w3. stored_reset (V w) (rq_reset_token req) = Some data \<and>
    fst (hash_password (ex_bcrypt X) 10 (rq_new_password req) w3) = Inr hashed \<and>
    has_version (D w) (rd_user_id data) (rd_token_version data) \<and>
    D w' = with_new_password (D w) (rd_user_id data) (rd_token_version data) hashed \<and>
    (stored_reset (V w') (rq_reset_token req) = Some data \<or> stored_reset (V w') (rq_reset_token req) = None)"
proof -
  from reset_steps [OF world run] obtain data hashed w1 w2 w3 where
    s: "stored_reset (V w) (rq_reset_token req) = Some data" and
    h: "fst (hash_password (ex_bcrypt X) 10 (rq_new_password req) w3) = Inr hashed" and
    same: "V w1 = V w" "D w1 = D w" and
    p: "user_update_password (ex_users X) (ex_db X) ctx (rd_user_id data) hashed (rd_token_version data) w1 = (Inr (), w2)"
    and w': "w' = snd (del_reset_token (ex_redis X) (rq_reset_token req) w2)"
    by blast
  note pv = user_update_password_reply [OF auth_worldD(3) [OF world] p]
  have del: "del_reset_token (ex_redis X) (rq_reset_token req) w2 = (fst (del_reset_token (ex_redis X) (rq_reset_token req) w2), w')"
    by (simp add: w')
  from del_reset_stored [OF auth_worldD(1) [OF world] del]
    leavesD [OF del_reset_leaves [OF auth_worldD(2) [OF world]] del]
  show ?thesis using s h pv same by auto
qed

lemma reset_contract:
  assumes world: "auth_world q X V D cust regd d"
    and run: "reset_password (new_auth_service X cfg ce) ctx \<lparr>rq_reset_token = token, rq_new_password = pw\<rparr> w = (r, w')"
  shows "r = Inr () \<Longrightarrow> reset_spent V D token w'"
    and "reset_spent V D token w \<Longrightarrow> r \<noteq> Inr () \<and> reset_spent V D token w'"
proof -
  show "reset_spent V D token w'" if "r = Inr ()"
    using reset_success [OF world run [unfolded that]] with_new_password_version by (auto simp: reset_spent_def)
  show "r \<noteq> Inr () \<and> reset_spent V D token w'" if spent: "reset_spent V D token w"
  proof (cases "V w' = V w \<and> D w' = D w \<and> (\<exists>e. r = Inl e)")
    case True
    with spent show ?thesis by (auto simp: reset_spent_def)
  next
    case False
    with reset_steps [OF world run] obtain data hashed w1 w2 r1 where
      s: "stored_reset (V w) token = Some data" and same: "V w1 = V w" "D w1 = D w" and
      p: "user_update_password (ex_users X) (ex_db X) ctx (rd_user_id data) hashed (rd_token_version data) w1 = (r1, w2)" and
      r: "r1 \<noteq> Inr () \<and> (\<exists>e. r = Inl e) \<and> w' = w2 \<or> r1 = Inr ()"
      by auto
    have none: "\<not> has_version (D w1) (rd_user_id data) (rd_token_version data)"
      using spent s same by (simp add: reset_spent_def)
    note pv = user_update_password_reply [OF auth_worldD(3) [OF world] p] with_new_password_none [OF none]
    have "r1 \<noteq> Inr ()" using pv(1) none by auto
    with r pv same spent show ?thesis by (auto simp: reset_spent_def)
  qed
qed

interpretation reset_use: single_use "auth_world q X V D cust regd d"
    "\<lambda>(ctx, pw). reset_password (new_auth_service X cfg ce) ctx \<lparr>rq_reset_token = token, rq_new_password = pw\<rparr>"
    "\<lambda>r. r = Inr ()" "reset_spent V D token"
  for q X V D cust regd d cfg ce token
proof unfold_locales
  fix p w r w'
  assume world: "auth_world q X V D cust regd d"
    and run: "(case p of (ctx, pw) \<Rightarrow> reset_password (new_auth_service X cfg ce) ctx
      \<lparr>rq_reset_token = token, rq_new_password = pw\<rparr>) w = (r, w')"
  obtain ctx pw where p: "p = (ctx, pw)" by fastforce
  note contract = reset_contract [OF world run [unfolded p prod.case]]
  show "r = Inr () \<Longrightarrow> reset_spent V D token w'" by (rule contract(1))
  show "reset_spent V D token w \<Longrightarrow> r \<noteq> Inr () \<and> reset_spent V D token w'" by (rule contract(2))
qed

section \<open>Properties\<close>

text \<open>A password reset token works at most once. In any sequence of \<open>ResetPassword\<close> calls with one token, with
  anything in between that does not store the token anew or give its user an old token version back, at most
  one call succeeds, though a call that has changed the password may fail to delete the token: the token carries
  the version the password had.\<close>

theorem reset_token_used_once:
  assumes "auth_world q X V D cust regd d"
    and "\<forall>x\<in>set xs. \<forall>w. reset_spent V D token w \<longrightarrow> reset_spent V D token (fst x w)"
  shows "length (filter (\<lambda>r. r = Inr ()) (use_run (\<lambda>(ctx, pw). reset_password (new_auth_service X cfg ce) ctx
    \<lparr>rq_reset_token = token, rq_new_password = pw\<rparr>) xs w)) \<le> 1"
  using reset_use.at_most_once [OF assms(1), of xs token cfg ce w] assms(2)
  by (simp add: reset_use.keeps_used_up_def)

text \<open>A token for the sample user, in a Redis that cannot delete.\<close>

definition reset_world :: ref_world where
  "reset_world = (snd (set_reset_token ref_redis ''t'' 7 2 600000000000 (at_us 0)), sample_db)"

definition stuck_externals :: "(ref_world, unit) externals" where
  "stuck_externals = ref_externals
     \<lparr>ex_redis := pair_redis\<lparr>rd_del := (\<lambda>k. fail (LibError ''connection lost''))\<rparr>\<rparr>"

lemma stuck_auth_world: "auth_world ref_server stuck_externals fst snd ref_custom ref_registered 0"
proof -
  have "served fst (cmd_del k) (fail (LibError ''connection lost'') :: (ref_world, unit) go)" for k
    by (simp add: served_def fail_def)
  moreover have "leaves snd (fail (LibError ''connection lost'') :: (ref_world, unit) go)" by (rule leaves_fail)
  ultimately show ?thesis
    using ref_auth_world
    by (simp add: auth_world_def stuck_externals_def redis_law_def lua_law_def client_law_def redis_leaves_def)
qed

theorem reset_token_used_once_witness:
  "use_run (\<lambda>(ctx, pw). reset_password (new_auth_service stuck_externals sample_cfg 0) ctx
     \<lparr>rq_reset_token = ''t'', rq_new_password = pw\<rparr>) [(id, None, ''x''), (id, None, ''y'')] reset_world =
     [Inr (), Inl (BizError 400 (SessionMsg M_reset_token_stale))] \<and>
   length (filter (\<lambda>r. r = Inr ()) (use_run (\<lambda>(ctx, pw). reset_password (new_auth_service stuck_externals sample_cfg 0)
     ctx \<lparr>rq_reset_token = ''t'', rq_new_password = pw\<rparr>) [(id, None, ''x''), (id, None, ''y'')] reset_world)) \<le> 1"
proof
  show "use_run (\<lambda>(ctx, pw). reset_password (new_auth_service stuck_externals sample_cfg 0) ctx
     \<lparr>rq_reset_token = ''t'', rq_new_password = pw\<rparr>) [(id, None, ''x''), (id, None, ''y'')] reset_world =
     [Inr (), Inl (BizError 400 (SessionMsg M_reset_token_stale))]"
    by code_simp
  show "length (filter (\<lambda>r. r = Inr ()) (use_run (\<lambda>(ctx, pw). reset_password (new_auth_service stuck_externals sample_cfg 0)
     ctx \<lparr>rq_reset_token = ''t'', rq_new_password = pw\<rparr>) [(id, None, ''x''), (id, None, ''y'')] reset_world)) \<le> 1"
    by (rule reset_token_used_once [OF stuck_auth_world]) simp
qed

text \<open>C8 A password reset ends every session of the user. When \<open>ResetPassword\<close> has succeeded, the user has the new
  password hash and the next token version, all other users are as before, and from then on, as long as the old
  version is not given back, \<open>Authenticate\<close> accepts no access token and \<open>RefreshToken\<close> exchanges no refresh
  token that was issued to the user for the old version.\<close>

theorem password_reset_ends_sessions:
  assumes world: "auth_world q X V D cust regd d"
    and run: "reset_password (new_auth_service X cfg ce) ctx req w = (Inr (), w1)"
  shows "\<exists>data hashed w3. stored_reset (V w) (rq_reset_token req) = Some data \<and>
    fst (hash_password (ex_bcrypt X) 10 (rq_new_password req) w3) = Inr hashed \<and>
    D w1 = with_new_password (D w) (rd_user_id data) (rd_token_version data) hashed \<and>
    (\<forall>w2 token c. \<not> has_version (D w2) (rd_user_id data) (rd_token_version data) \<and>
      cc_user_id c = rd_user_id data \<and> cc_token_version c = rd_token_version data \<longrightarrow>
      (cust token (jc_access_secret cfg) = Some c \<longrightarrow>
        (\<exists>e. fst (authenticate (new_auth_service X cfg ce) ctx token w2) = Inl e)) \<and>
      (cust token (jc_refresh_secret cfg) = Some c \<longrightarrow>
        (\<exists>e. fst (refresh_token (new_auth_service X cfg ce) ctx token w2) = Inl e))) \<and>
    \<not> has_version (D w1) (rd_user_id data) (rd_token_version data)"
proof -
  obtain data hashed w3 where s: "stored_reset (V w) (rq_reset_token req) = Some data"
    and h: "fst (hash_password (ex_bcrypt X) 10 (rq_new_password req) w3) = Inr hashed"
    and new: "D w1 = with_new_password (D w) (rd_user_id data) (rd_token_version data) hashed"
    using reset_success [OF world run] by blast
  have auth: "\<exists>e. fst (authenticate (new_auth_service X cfg ce) ctx token w2) = Inl e"
    if old: "\<not> has_version (D w2) (cc_user_id c) (cc_token_version c)" and c: "cust token (jc_access_secret cfg) = Some c"
    for w2 token c
  proof -
    have "us_token_version u \<noteq> cc_token_version c" if "user_with_id (D w2) (cc_user_id c) = Some u" for u
      using user_with_id_Some [OF that] old by (auto simp: has_version_def)
    with authenticate_reply [OF world prod.collapse [symmetric], of cfg ce ctx token w2] c show ?thesis
      by (auto simp: auth_verdict_def split: option.splits if_splits)
  qed
  have refresh: "\<exists>e. fst (refresh_token (new_auth_service X cfg ce) ctx token w2) = Inl e"
    if old: "\<not> has_version (D w2) (cc_user_id c) (cc_token_version c)" and c: "cust token (jc_refresh_secret cfg) = Some c"
    for w2 token c
  proof (rule ccontr)
    assume "\<not> ?thesis"
    then obtain p where p: "fst (refresh_token (new_auth_service X cfg ce) ctx token w2) = Inr p"
      by (cases "fst (refresh_token (new_auth_service X cfg ce) ctx token w2)") auto
    from refresh_steps [OF world prod.collapse [symmetric], of cfg ce ctx token w2] p obtain c' u
      where "accepted cust cfg True (fst (rt_now (ex_runtime X) w2)) token c'"
        "user_with_id (D w2) (cc_user_id c') = Some u" "us_token_version u = cc_token_version c'"
      by auto
    with old c user_with_id_Some show False by (fastforce simp: accepted_def secret_of_def has_version_def)
  qed
  show ?thesis
    using s h new with_new_password_version auth refresh by metis
qed

theorem password_reset_ends_sessions_witness:
  "fst (reset_password sample_service None \<lparr>rq_reset_token = ''t'', rq_new_password = ''x''\<rparr> reset_world) = Inr () \<and>
   (\<exists>(data :: reset_token_data) hashed. snd (snd (reset_password sample_service None \<lparr>rq_reset_token = ''t'', rq_new_password = ''x''\<rparr>
      reset_world)) = with_new_password sample_db (rd_user_id data) (rd_token_version data) hashed)"
proof -
  let ?run = "reset_password sample_service None \<lparr>rq_reset_token = ''t'', rq_new_password = ''x''\<rparr> reset_world"
  have ok: "fst ?run = Inr ()" by code_simp
  then have "?run = (Inr (), snd ?run)" by (metis prod.collapse)
  from password_reset_ends_sessions [OF ref_auth_world this]
  have "\<exists>(data :: reset_token_data) hashed. snd (snd ?run) = with_new_password (snd reset_world) (rd_user_id data) (rd_token_version data) hashed"
    by blast
  moreover have "snd reset_world = sample_db" by (simp add: reset_world_def)
  ultimately show ?thesis using ok by simp
qed

end
