(* ===== verification/Interleaving.thy ===== *)
theory Interleaving
  imports GoBase
begin

text \<open>
  Requests that run at the same time. An operation is written as a program of atomic actions, each one call of a
  service (a Redis command, a statement of the database, the clock); the operations and whatever else happens take turns
  in any order. The contract \<open>one_winner\<close> says when at most one of them can succeed.
\<close>

section \<open>Programs of atomic actions\<close>

text \<open>A program has ended, or acts on the world and goes on.\<close>

datatype ('w, 'a) prog = Done "go_err + 'a" | Act "'w \<Rightarrow> ('w, 'a) prog \<times> 'w"

definition act_call ::
    "('w, 'b) go \<Rightarrow> (go_err \<Rightarrow> ('w, 'a) prog) \<Rightarrow> ('b \<Rightarrow> ('w, 'a) prog) \<Rightarrow> ('w, 'a) prog" where
  "act_call m h k = Act (\<lambda>w. case m w of (Inl e, w') \<Rightarrow> (h e, w') | (Inr b, w') \<Rightarrow> (k b, w'))"

definition act_effect :: "('w \<Rightarrow> 'b \<times> 'w) \<Rightarrow> ('b \<Rightarrow> ('w, 'a) prog) \<Rightarrow> ('w, 'a) prog" where
  "act_effect f k = Act (\<lambda>w. case f w of (b, w') \<Rightarrow> (k b, w'))"

definition act_ignoring :: "('w, 'b) go \<Rightarrow> ('w, 'a) prog \<Rightarrow> ('w, 'a) prog" where
  "act_ignoring m p = Act (\<lambda>w. (p, snd (m w)))"

text \<open>A program run by itself.\<close>

primrec perform :: "('w, 'a) prog \<Rightarrow> ('w, 'a) go" where
  "perform (Done r) w = (r, w)"
| "perform (Act f) w = (case map_prod perform id (f w) of (g, w') \<Rightarrow> g w')"

lemma perform_call [simp]: "perform (act_call m h k) = call m (\<lambda>e. perform (h e)) (\<lambda>b. perform (k b))"
  by (simp add: fun_eq_iff act_call_def call_def split: prod.split sum.split)

lemma perform_effect [simp]: "perform (act_effect f k) = effect f (\<lambda>b. perform (k b))"
  by (simp add: fun_eq_iff act_effect_def effect_def split: prod.split)

lemma perform_ignoring [simp]: "perform (act_ignoring m p) = ignoring m (perform p)"
  by (simp add: fun_eq_iff act_ignoring_def ignoring_def)

lemma perform_Done [simp]: "perform (Done (Inl e)) = fail e" "perform (Done (Inr a)) = ret a"
  by (simp_all add: fun_eq_iff fail_def ret_def)

lemma perform_if [simp]: "perform (if b then p else q) = (if b then perform p else perform q)"
  by simp

lemma perform_option [simp]:
  "perform (case x of None \<Rightarrow> p | Some a \<Rightarrow> q a) = (case x of None \<Rightarrow> perform p | Some a \<Rightarrow> perform (q a))"
  by (simp split: option.split)

section \<open>Taking turns\<close>

text \<open>The programs that are running, and the world they share; \<open>rely\<close> is what others do to it.\<close>

type_synonym ('w, 'a) running = "('w, 'a) prog list \<times> 'w"

inductive takes_turn :: "('w \<Rightarrow> 'w \<Rightarrow> bool) \<Rightarrow> ('w, 'a) running \<Rightarrow> ('w, 'a) running \<Rightarrow> bool" for rely where
  own: "i < length ps \<Longrightarrow> ps ! i = Act f \<Longrightarrow> f w = (p, w') \<Longrightarrow> takes_turn rely (ps, w) (ps[i := p], w')"
| other: "rely w w' \<Longrightarrow> takes_turn rely (ps, w) (ps, w')"

abbreviation interleaved :: "('w \<Rightarrow> 'w \<Rightarrow> bool) \<Rightarrow> ('w, 'a) running \<Rightarrow> ('w, 'a) running \<Rightarrow> bool" where
  "interleaved rely \<equiv> (takes_turn rely)\<^sup>*\<^sup>*"

inductive_cases takes_turnE: "takes_turn rely (ps, w) x"

definition winners :: "(go_err + 'a \<Rightarrow> bool) \<Rightarrow> ('w, 'a) prog list \<Rightarrow> ('w, 'a) prog list" where
  "winners wins ps = filter (\<lambda>p. case p of Done r \<Rightarrow> wins r | Act f \<Rightarrow> False) ps"

fun has_won :: "('w, 'a) prog \<Rightarrow> bool" where
  "has_won (Done (Inl e)) \<longleftrightarrow> False"
| "has_won (Done (Inr a)) \<longleftrightarrow> True"
| "has_won (Act f) \<longleftrightarrow> False"

lemma winners_has_won:
  fixes ps :: "('w, 'a) prog list"
  shows "winners (\<lambda>r. \<exists>a. r = Inr a) ps = filter has_won ps"
proof -
  have "(case p of Done r \<Rightarrow> \<exists>a. r = Inr a | Act f \<Rightarrow> False) = has_won p" for p :: "('w, 'a) prog"
    by (cases p rule: has_won.cases) simp_all
  then show ?thesis by (simp add: winners_def)
qed

text \<open>The turn of one program, and of several in a row; a program that has ended stays as it is.\<close>

fun turn :: "nat \<Rightarrow> ('w, 'a) running \<Rightarrow> ('w, 'a) running" where
  "turn i (ps, w) =
     (if i < length ps then
        (case ps ! i of Done r \<Rightarrow> (ps, w) | Act f \<Rightarrow> (case f w of (p, w') \<Rightarrow> (ps[i := p], w')))
      else (ps, w))"

fun turns :: "nat list \<Rightarrow> ('w, 'a) running \<Rightarrow> ('w, 'a) running" where
  "turns [] x = x"
| "turns (i # is') x = turns is' (turn i x)"

text \<open>Two programs in lockstep.\<close>

definition lockstep :: "nat list" where
  "lockstep = [0, 1, 0, 1, 0, 1, 0, 1, 0, 1, 0, 1]"

lemma turn_interleaved: "interleaved rely x (turn i x)"
proof (cases x)
  case (Pair ps w)
  then show ?thesis
    by (auto simp: split: prog.split prod.split intro!: r_into_rtranclp takes_turn.own)
qed

lemma turns_interleaved: "interleaved rely x (turns is' x)"
proof (induction is' arbitrary: x)
  case (Cons i is')
  from rtranclp_trans [OF turn_interleaved Cons.IH] show ?case by (simp only: turns.simps)
qed simp

section \<open>At most one succeeds\<close>

lemma filter_one:
  assumes "\<And>j. j < length xs \<Longrightarrow> j \<noteq> i \<Longrightarrow> \<not> P (xs ! j)"
  shows "length (filter P xs) \<le> 1"
proof -
  have "{j. j < length xs \<and> P (xs ! j)} \<subseteq> {i}" using assms by blast
  from card_mono [OF _ this] show ?thesis by (simp add: length_filter_conv_card)
qed


text \<open>
  \<open>works w p\<close>: in the world \<open>w\<close> the program has not succeeded, though it may; \<open>won\<close>: it has, and what is left of it does
  not matter. A step that succeeds leaves the thing \<open>spent\<close>, and succeeds on a thing that is spent only when it is \<open>over\<close>.
\<close>

locale one_winner =
  fixes lawful :: bool
    and rely :: "'w \<Rightarrow> 'w \<Rightarrow> bool"
    and wins :: "go_err + 'a \<Rightarrow> bool"
    and works :: "'w \<Rightarrow> ('w, 'a) prog \<Rightarrow> bool"
    and won :: "('w, 'a) prog \<Rightarrow> bool"
    and spent :: "'w \<Rightarrow> bool"
    and over :: "'w \<Rightarrow> bool"
  assumes works_step: "lawful \<Longrightarrow> works w (Act f) \<Longrightarrow> f w = (p, w') \<Longrightarrow>
      rely w w' \<and> (works w' p \<or> won p \<and> spent w' \<and> (spent w \<longrightarrow> over w))"
    and won_step: "lawful \<Longrightarrow> won (Act f) \<Longrightarrow> f w = (p, w') \<Longrightarrow> rely w w' \<and> won p"
    and works_not_won: "lawful \<Longrightarrow> works w (Done r) \<Longrightarrow> \<not> wins r"
    and works_rely: "lawful \<Longrightarrow> works w p \<Longrightarrow> rely w w' \<Longrightarrow> works w' p"
    and spent_rely: "lawful \<Longrightarrow> spent w \<Longrightarrow> rely w w' \<Longrightarrow> spent w'"
    and over_rely: "lawful \<Longrightarrow> over w \<Longrightarrow> rely w w' \<Longrightarrow> over w'"
begin

text \<open>The places of the programs that have succeeded.\<close>

definition raced :: "('w, 'a) running \<Rightarrow> nat set \<Rightarrow> bool" where
  "raced x W \<longleftrightarrow> (case x of (ps, w) \<Rightarrow>
     (\<forall>i<length ps. if i \<in> W then won (ps ! i) else works w (ps ! i)) \<and> (W \<noteq> {} \<longrightarrow> spent w) \<and>
     ((\<exists>i. W \<subseteq> {i}) \<or> over w))"

lemma raced_rely:
  assumes lawful and "raced (ps, w) W" and "rely w w'"
  shows "raced (ps, w') W"
  using assms works_rely [OF assms(1) _ assms(3)] spent_rely [OF assms(1) _ assms(3)] over_rely [OF assms(1) _ assms(3)]
  unfolding raced_def prod.case by metis

lemma raced_update:
  assumes "raced (ps, w) W" and "if i \<in> W then won p else works w p"
  shows "raced (ps[i := p], w) W"
  using assms by (cases "i < length ps") (simp_all add: raced_def nth_list_update)

lemma raced_step:
  assumes lawful and "raced (ps, w) W" and i: "i < length ps" "ps ! i = Act f" and f: "f w = (p, w')"
  shows "\<exists>W. raced (ps[i := p], w') W"
proof (cases "i \<in> W")
  case True
  then have "won (Act f)" using assms(2) i by (auto simp: raced_def)
  from won_step [OF assms(1) this f] have step: "rely w w'" "won p" by simp_all
  from raced_update [OF raced_rely [OF assms(1,2) step(1)], of i p] step(2) True show ?thesis by auto
next
  case False
  then have "works w (Act f)" using assms(2) i by (auto simp: raced_def)
  from works_step [OF assms(1) this f] have rely: "rely w w'"
    and step: "works w' p \<or> won p \<and> spent w' \<and> (spent w \<longrightarrow> over w)" by simp_all
  note kept = raced_rely [OF assms(1,2) rely]
  from step show ?thesis
  proof
    assume "works w' p"
    with raced_update [OF kept, of i p] False show ?thesis by auto
  next
    assume first: "won p \<and> spent w' \<and> (spent w \<longrightarrow> over w)"
    then have "W = {} \<or> over w'" using assms(2) over_rely [OF assms(1) _ rely] by (auto simp: raced_def)
    with kept first i have "raced (ps[i := p], w') (insert i W)" by (auto simp: raced_def nth_list_update)
    then show ?thesis ..
  qed
qed

lemma raced_interleaved:
  assumes lawful
  shows "interleaved rely x y \<Longrightarrow> raced x W \<Longrightarrow> \<exists>W. raced y W"
proof (induction rule: rtranclp_induct)
  case base
  then show ?case by blast
next
  case (step y z)
  obtain ps w where y: "y = (ps, w)" by fastforce
  from step obtain W where r: "raced (ps, w) W" unfolding y by blast
  from step.hyps(2) [unfolded y] show ?case
    by (cases rule: takes_turnE) (use raced_step [OF assms r] raced_rely [OF assms r] in blast)+
qed

lemma at_most_one_winner:
  assumes lawful and start: "\<forall>p\<in>set ps. works w p" and run: "interleaved rely (ps, w) (ps', w')" and "\<not> over w'"
  shows "length (winners wins ps') \<le> 1"
proof -
  have "raced (ps, w) {}" using start by (simp add: raced_def)
  from raced_interleaved [OF assms(1) run this] obtain W where r: "raced (ps', w') W" ..
  then obtain i where W: "W \<subseteq> {i}" using assms(4) by (auto simp: raced_def)
  have "\<not> (case ps' ! j of Done r \<Rightarrow> wins r | Act f \<Rightarrow> False)" if "j < length ps'" "j \<noteq> i" for j
  proof -
    have "j \<notin> W" using W that by blast
    then have "works w' (ps' ! j)" using r that by (simp add: raced_def)
    with works_not_won [OF assms(1)] show ?thesis by (cases "ps' ! j") auto
  qed
  then show ?thesis unfolding winners_def by (rule filter_one)
qed

end

end
