(* ===== verification/ConcurrentAuth.thy ===== *)
theory ConcurrentAuth
  imports PasswordReset Interleaving
begin

text \<open>
  \<open>RefreshToken\<close> and \<open>ResetPassword\<close> of \<open>src/internal/service/auth\<close> as programs of atomic actions, each a call of a
  service, and what any number of them do that run at the same time with one token. Run by itself each program is the
  operation of AuthService.
\<close>

section \<open>The operations as programs\<close>

definition refresh_actions :: "('w, 'h) auth_parts \<Rightarrow> 'h ctx \<Rightarrow> string \<Rightarrow> ('w, string \<times> string) prog" where
  "refresh_actions s ctx token =
     (if token = [] then Done (Inl (BizError 401 (AuthMsg M_refresh_missing)))
      else
        act_call (tm_parse_token (ap_jwt s) token True)
          (\<lambda>_. Done (Inl (BizError 401 (SessionMsg M_refresh_invalid_or_expired))))
          (\<lambda>claims.
        case rc_expires_at (cc_registered claims) of
          None \<Rightarrow> Done (Inl (BizError 401 (SessionMsg M_refresh_invalid)))
        | Some expires_at \<Rightarrow>
        act_call (ur_get_by_id (ap_users s) ctx (cc_user_id claims))
          (\<lambda>_. Done (Inl (BizError 500 (AuthMsg M_identity_unavailable))))
          (\<lambda>user.
        case user of
          None \<Rightarrow> Done (Inl (BizError 401 (SessionMsg M_user_absent)))
        | Some u \<Rightarrow>
        if cc_token_version claims \<noteq> us_token_version u
        then Done (Inl (BizError 401 (AuthMsg M_login_state_invalid)))
        else if us_status u \<noteq> 1 then Done (Inl (BizError 403 (AuthMsg M_account_disabled)))
        else
        act_effect (time_until (ap_runtime s) expires_at) (\<lambda>remaining_ttl.
        if remaining_ttl \<le> 0 then Done (Inl (BizError 401 (SessionMsg M_refresh_expired)))
        else
        act_call (tm_generate_access_token (ap_jwt s) (us_id u) (us_username u) (us_role u) (us_token_version u))
          (\<lambda>_. Done (Inl (BizError 500 (AuthMsg M_access_token_failed))))
          (\<lambda>new_access_token.
        act_call (tm_generate_refresh_token (ap_jwt s) (us_id u) (us_username u) (us_role u) (us_token_version u))
          (\<lambda>_. Done (Inl (BizError 500 (AuthMsg M_refresh_token_failed))))
          (\<lambda>new_refresh_token.
        act_call (tc_consume_refresh_token (ap_cache s) token remaining_ttl)
          (\<lambda>_. Done (Inl (BizError 500 (AuthMsg M_identity_unavailable))))
          (\<lambda>consumed.
        if \<not> consumed then Done (Inl (BizError 409 (SessionMsg M_refresh_used)))
        else Done (Inr (new_access_token, new_refresh_token)))))))))"

text \<open>\<open>UpdatePassword\<close> of the user repository: two statements of the database.\<close>

definition update_password_actions ::
    "('w, 'h, user) model \<Rightarrow> 'h \<Rightarrow> 'h ctx \<Rightarrow> u64 \<Rightarrow> string \<Rightarrow> u64 \<Rightarrow>
      (go_err \<Rightarrow> ('w, 'a) prog) \<Rightarrow> (unit \<Rightarrow> ('w, 'a) prog) \<Rightarrow> ('w, 'a) prog" where
  "update_password_actions M db ctx uid hash version h k =
     act_call (gm_updates M (get_db_from_ctx ctx db)
         [Eq ''id'' (DUint uid), Eq ''token_version'' (DUint version)]
         [(''password'', Value (DText hash)), (''token_version'', PlusOne ''token_version'')])
       h
       (\<lambda>affected.
         if 0 < affected then k ()
         else
           act_call (user_get_by_id M db ctx uid) h (\<lambda>user.
             case user of None \<Rightarrow> h ErrRecordNotFound | Some _ \<Rightarrow> h ErrTokenVersionConflict))"

definition reset_actions :: "('w, 'h) externals \<Rightarrow> 'h ctx \<Rightarrow> reset_password_req \<Rightarrow> ('w, unit) prog" where
  "reset_actions X ctx req =
     act_call (get_reset_token (ex_redis X) (rq_reset_token req))
       (\<lambda>_. Done (Inl (BizError 500 (SessionMsg M_reset_unavailable))))
       (\<lambda>data.
     case data of
       None \<Rightarrow> Done (Inl (BizError 400 (SessionMsg M_reset_token_invalid)))
     | Some data \<Rightarrow>
     act_call (user_get_by_id (ex_users X) (ex_db X) ctx (rd_user_id data))
       (\<lambda>_. Done (Inl (BizError 500 (SessionMsg M_reset_unavailable))))
       (\<lambda>user.
     case user of
       None \<Rightarrow> Done (Inl (BizError 404 (SessionMsg M_user_absent)))
     | Some u \<Rightarrow>
     act_call (hash_password (ex_bcrypt X) 10 (rq_new_password req))
       (\<lambda>_. Done (Inl (BizError 500 (SessionMsg M_reset_failed))))
       (\<lambda>hashed.
     update_password_actions (ex_users X) (ex_db X) ctx (rd_user_id data) hashed (rd_token_version data)
       (\<lambda>e. if errors_is e ErrTokenVersionConflict then Done (Inl (BizError 400 (SessionMsg M_reset_token_stale)))
            else if errors_is e ErrRecordNotFound then Done (Inl (BizError 404 (SessionMsg M_user_absent)))
            else Done (Inl (BizError 500 (SessionMsg M_reset_failed))))
       (\<lambda>_. act_ignoring (del_reset_token (ex_redis X) (rq_reset_token req)) (Done (Inr ()))))))"

text \<open>They are the operations.\<close>

lemma perform_refresh: "perform (refresh_actions s ctx token) = refresh_token s ctx token"
  by (simp add: refresh_actions_def refresh_token_def cong: if_cong option.case_cong)

lemma call_call: "call (call m h k) h' k' = call m (\<lambda>e. call (h e) h' k') (\<lambda>a. call (k a) h' k')"
  by (simp add: fun_eq_iff call_def split: prod.split sum.split)

lemma call_fail [simp]: "call (fail e) h k = h e" and call_ret [simp]: "call (ret a) h k = k a"
  by (simp_all add: fun_eq_iff call_def fail_def ret_def)

lemma perform_update_password:
  "perform (update_password_actions M db ctx uid hash version h k) =
     call (user_update_password M db ctx uid hash version) (\<lambda>e. perform (h e)) (\<lambda>u. perform (k u))"
  by (simp add: update_password_actions_def user_update_password_def call_call if_distrib [of "\<lambda>m. call m h' k'" for h' k']
      option.case_distrib [of "\<lambda>m. call m h' k'" for h' k'] cong: if_cong option.case_cong)

lemma perform_reset: "perform (reset_actions X ctx req) = reset_password (new_auth_service X cfg ce) ctx req"
  by (simp add: reset_actions_def reset_password_def perform_update_password cong: if_cong option.case_cong)
section \<open>Exchanging one refresh token at the same time\<close>

text \<open>
  What others may do meanwhile: time goes on, and an entry that marks a token as used is not taken away before it
  expires, nor made to expire earlier.
\<close>

definition marker_kept :: "('w \<Rightarrow> rstore) \<Rightarrow> string \<Rightarrow> 'w \<Rightarrow> 'w \<Rightarrow> bool" where
  "marker_kept V k w w' \<longleftrightarrow>
     now_ms (V w) \<le> now_ms (V w') \<and>
     (\<forall>v t. live (V w) k = Some (v, Some t) \<and> now_ms (V w') \<le> t \<longrightarrow>
        (\<exists>v' t'. live (V w') k = Some (v', Some t') \<and> t \<le> t'))"

lemma marker_kept_same: "V w' = V w \<Longrightarrow> marker_kept V k w w'"
  by (auto simp: marker_kept_def)

lemma dead_marker_kept:
  assumes kept: "marker_kept V (token_blacklist_prefix @ token) w w'" and "dead V cust d secret token w"
  shows "dead V cust d secret token w'"
  unfolding dead_def
proof (intro allI impI)
  fix c e
  assume c: "cust token secret = Some c \<and> rc_expires_at (cc_registered c) = Some e"
  have mono: "now_ms (V w) \<le> now_ms (V w')" using kept by (simp add: marker_kept_def)
  from assms(2) c consider "e div 1000000 + d \<le> now_ms (V w)"
    | v t where "live (V w) (token_blacklist_prefix @ token) = Some (v, Some t)" "e div 1000000 + d \<le> t + 1"
    unfolding dead_def by blast
  then show "e div 1000000 + d \<le> now_ms (V w') \<or>
      (\<exists>v t. live (V w') (token_blacklist_prefix @ token) = Some (v, Some t) \<and> e div 1000000 + d \<le> t + 1)"
  proof cases
    case 1
    with mono show ?thesis by simp
  next
    case 2
    show ?thesis
    proof (cases "now_ms (V w') \<le> t")
      case True
      with kept 2(1) obtain v' t' where "live (V w') (token_blacklist_prefix @ token) = Some (v', Some t')" "t \<le> t'"
        unfolding marker_kept_def by blast
      with 2(2) show ?thesis by auto
    next
      case False
      with 2(2) show ?thesis by simp
    qed
  qed
qed

text \<open>
  How far an exchange of a token with expiry \<open>e\<close> has got at the latest at the time \<open>t\<close>: it has been refused; or it looks
  at the stores, and goes on; or it has read the clock and is about to consume the token for what was left.
\<close>

inductive exchanging ::
    "('w, 'h) externals \<Rightarrow> ('w \<Rightarrow> rstore) \<Rightarrow> int \<Rightarrow> int \<Rightarrow> string \<Rightarrow> int \<Rightarrow> ('w, string \<times> string) prog \<Rightarrow> bool"
  for X V e d token where
  refused: "exchanging X V e d token t (Done (Inl err))"
| looks: "(\<And>w p w'. t \<le> now_ms (V w) \<Longrightarrow> f w = (p, w') \<Longrightarrow>
     V w' = V w \<and> exchanging X V e d token (now_ms (V w)) p) \<Longrightarrow> exchanging X V e d token t (Act f)"
| consumes: "read div 1000000 + d \<le> t \<Longrightarrow> exchanging X V e d token t
     (act_call (consume_refresh_token (ex_redis X) token (e - read)) (\<lambda>_. Done (Inl err))
       (\<lambda>consumed. if \<not> consumed then Done (Inl err') else Done (Inr tokens)))"

lemma exchanging_later: "exchanging X V e d token t p \<Longrightarrow> t \<le> t' \<Longrightarrow> exchanging X V e d token t' p"
  by (erule exchanging.cases) (auto intro: exchanging.intros)

lemma looks_call:
  assumes "\<And>w r w'. m w = (r, w') \<Longrightarrow> V w' = V w" and "\<And>err t. exchanging X V e d token t (h err)"
    and "\<And>w b w'. t \<le> now_ms (V w) \<Longrightarrow> m w = (Inr b, w') \<Longrightarrow> exchanging X V e d token (now_ms (V w)) (k b)"
  shows "exchanging X V e d token t (act_call m h k)"
  unfolding act_call_def using assms by (intro exchanging.looks) (auto split: prod.splits sum.splits)

lemma looks_effect:
  assumes "\<And>w b w'. t \<le> now_ms (V w) \<Longrightarrow> f w = (b, w') \<Longrightarrow>
    V w' = V w \<and> exchanging X V e d token (now_ms (V w)) (k b)"
  shows "exchanging X V e d token t (act_effect f k)"
  unfolding act_effect_def using assms by (intro exchanging.looks) (auto split: prod.splits)

lemma refresh_exchanging:
  assumes world: "auth_world q X V D cust regd d" and c: "cust token (jc_refresh_secret cfg) = Some c"
    and e: "rc_expires_at (cc_registered c) = Some e"
  shows "exchanging X V e d token t (refresh_actions (new_auth_service X cfg ce) ctx token)"
proof -
  have parse: "V w' = V w" if "parse_token (ex_jwt X) cfg token True w = (r, w')" for w r w'
    using parse_views(1) [OF world that] .
  have claims: "b = c" if "parse_token (ex_jwt X) cfg token True w = (Inr b, w')" for w b w'
    using parse_views(3) [OF world that, of b] c by (simp add: accepted_def secret_of_def)
  have user: "V w' = V w" if "user_get_by_id (ex_users X) (ex_db X) ctx uid w = (r, w')" for uid w r w'
    using user_get_by_id_reply [OF auth_worldD(3) [OF world] that] by simp
  have access: "V w' = V w" if "generate_access_token (ex_jwt X) (ex_runtime X) cfg i n ro v w = (r, w')" for i n ro v w r w'
    using that generate_views(1) [OF world] by (simp add: generate_access_token_def)
  have refresh: "V w' = V w" if "generate_refresh_token (ex_jwt X) (ex_runtime X) cfg i n ro v w = (r, w')" for i n ro v w r w'
    using that generate_views(1) [OF world] by (simp add: generate_refresh_token_def)
  have clock: "V w' = V w \<and> (\<exists>read. b = e - read \<and> read div 1000000 + d = now_ms (V w))"
    if "time_until (ex_runtime X) e w = (b, w')" for w b w'
    using that runtime_views(1) [OF world, of w] auth_worldD(5) [OF world, of w]
    by (auto simp: time_until_def split: prod.splits)
  let ?S = "new_auth_service X cfg ce"
  have last: "exchanging X V e d token t
      (act_call (generate_access_token (ex_jwt X) (ex_runtime X) cfg (us_id u) (us_username u) (us_role u) (us_token_version u))
         (\<lambda>_. Done (Inl e1)) (\<lambda>new_access_token.
       act_call (generate_refresh_token (ex_jwt X) (ex_runtime X) cfg (us_id u) (us_username u) (us_role u) (us_token_version u))
         (\<lambda>_. Done (Inl e2)) (\<lambda>new_refresh_token.
       act_call (consume_refresh_token (ex_redis X) token (e - read)) (\<lambda>_. Done (Inl e3)) (\<lambda>consumed.
         if \<not> consumed then Done (Inl e4) else Done (Inr (new_access_token, new_refresh_token))))))"
    if "read div 1000000 + d \<le> t" for t read u e1 e2 e3 e4
    apply (rule looks_call [OF access], assumption, rule exchanging.refused)
    apply (rule looks_call [OF refresh], assumption, rule exchanging.refused)
    apply (rule exchanging.consumes)
    using that by simp
  show ?thesis
    unfolding refresh_actions_def
    apply (simp add: exchanging.refused cong: if_cong option.case_cong)
    apply (intro impI)
    apply (rule looks_call [OF parse], assumption, rule exchanging.refused)
    apply (drule claims, hypsubst)
    apply (simp add: e cong: if_cong option.case_cong)
    apply (rule looks_call [OF user], assumption, rule exchanging.refused)
    apply (auto simp: exchanging.refused intro!: looks_effect split: option.split dest!: clock)
    apply (rule last)
    apply simp
    done
qed
definition token_over :: "('w \<Rightarrow> rstore) \<Rightarrow> int \<Rightarrow> int \<Rightarrow> 'w \<Rightarrow> bool" where
  "token_over V e d w \<longleftrightarrow> e div 1000000 + d \<le> now_ms (V w)"

text \<open>The one action that changes anything: what it did, and that it does not succeed twice before the token has expired.\<close>

lemma consume_step:
  assumes world: "auth_world q X V D cust regd d" and c: "cust token secret = Some c"
    and e: "rc_expires_at (cc_registered c) = Some e" and read: "read div 1000000 + d \<le> now_ms (V w)"
    and run: "consume_refresh_token (ex_redis X) token (e - read) w = (r, w')"
  shows "marker_kept V (token_blacklist_prefix @ token) w w'" and "now_ms (V w') = now_ms (V w)"
    and "r = Inr True \<Longrightarrow> dead V cust d secret token w' \<and> (dead V cust d secret token w \<longrightarrow> token_over V e d w)"
proof -
  note reply = consume_refresh_reply [OF auth_worldD(1) [OF world] run]
  show "now_ms (V w') = now_ms (V w)" using reply by simp
  show "marker_kept V (token_blacklist_prefix @ token) w w'"
    using reply by (cases "blacklisted (V w) token") (auto simp: marker_kept_def blacklisted_def)
  assume r: "r = Inr True"
  have "e div 1000000 + d \<le> lasts_until (V w) (e - read) + 1"
    using ms_difference [of e read] read by (simp add: lasts_until_def)
  then have "dead V cust d secret token w'" using reply r c e by (auto simp: dead_def)
  moreover have "\<not> blacklisted (V w) token" using reply r by auto
  ultimately show "dead V cust d secret token w' \<and> (dead V cust d secret token w \<longrightarrow> token_over V e d w)"
    using c e by (auto simp: dead_def blacklisted_def token_over_def)
qed

lemma exchanging_step:
  assumes world: "auth_world q X V D cust regd d" and c: "cust token secret = Some c"
    and e: "rc_expires_at (cc_registered c) = Some e"
    and work: "exchanging X V e d token (now_ms (V w)) (Act f)" and f: "f w = (p, w')"
  shows "marker_kept V (token_blacklist_prefix @ token) w w' \<and>
    (exchanging X V e d token (now_ms (V w')) p \<or>
     (\<exists>tokens. p = Done (Inr tokens)) \<and> dead V cust d secret token w' \<and>
       (dead V cust d secret token w \<longrightarrow> token_over V e d w))"
  using work
proof cases
  case looks
  from looks [OF order_refl f] show ?thesis by (auto intro: marker_kept_same)
next
  case (consumes read err err' tokens)
  obtain r where run: "consume_refresh_token (ex_redis X) token (e - read) w = (r, w')"
    and p: "p = (case r of Inl _ \<Rightarrow> Done (Inl err) | Inr b \<Rightarrow> if \<not> b then Done (Inl err') else Done (Inr tokens))"
    using consumes(1) f by (auto simp: act_call_def split: prod.splits sum.splits)
  note step = consume_step [OF world c e consumes(2) run]
  show ?thesis
  proof (cases "r = Inr True")
    case True
    with p step show ?thesis by auto
  next
    case False
    then have "\<exists>err. p = Done (Inl err)" using p by (auto split: sum.split)
    with step(1) show ?thesis by (auto intro: exchanging.refused)
  qed
qed

interpretation refresh_race: one_winner
    "auth_world q X V D cust regd d \<and> cust token secret = Some c \<and> rc_expires_at (cc_registered c) = Some e"
    "marker_kept V (token_blacklist_prefix @ token)" "\<lambda>r. \<exists>tokens. r = Inr tokens"
    "\<lambda>w. exchanging X V e d token (now_ms (V w))" "\<lambda>p. \<exists>tokens. p = Done (Inr tokens)"
    "dead V cust d secret token" "token_over V e d"
  for q X V D cust regd d token secret c e
proof (unfold_locales, goal_cases)
  case (1 w f p w')
  then show ?case by (elim conjE) (rule exchanging_step)
next
  case (2 f w p w')
  then show ?case by simp
next
  case (3 w r)
  then show ?case by (auto elim: exchanging.cases simp: act_call_def)
next
  case (4 w p w')
  then show ?case by (auto simp: marker_kept_def intro: exchanging_later)
next
  case (5 w w')
  then show ?case by (blast intro: dead_marker_kept)
next
  case (6 w w')
  then show ?case by (auto simp: token_over_def marker_kept_def)
qed
section \<open>Properties of the exchange\<close>

text \<open>C5 However many requests exchange one refresh token at the same time, and however their actions interleave, with one
  another and with whatever else goes on that does not take the token's marker away early, at most one of them gets new
  tokens as long as the token has not expired. Any reply of Redis or of the database may be lost.\<close>

theorem concurrent_refreshes_one_winner:
  assumes world: "auth_world q X V D cust regd d"
    and valid: "accepted cust cfg True (fst (rt_now (ex_runtime X) w)) token c"
    and expiry: "rc_expires_at (cc_registered c) = Some e" "fst (rt_now (ex_runtime X) w') < e"
    and run: "interleaved (marker_kept V (token_blacklist_prefix @ token))
      (map (\<lambda>ctx. refresh_actions (new_auth_service X cfg ce) ctx token) ctxs, w) (ps, w')"
  shows "length (winners (\<lambda>r. \<exists>tokens. r = Inr tokens) ps) \<le> 1"
proof (rule refresh_race.at_most_one_winner [OF _ _ run])
  have c: "cust token (jc_refresh_secret cfg) = Some c" using valid by (simp add: accepted_def secret_of_def)
  show "auth_world q X V D cust regd d \<and> cust token (jc_refresh_secret cfg) = Some c \<and>
      rc_expires_at (cc_registered c) = Some e"
    using world c expiry(1) by blast
  show "\<forall>p\<in>set (map (\<lambda>ctx. refresh_actions (new_auth_service X cfg ce) ctx token) ctxs).
      exchanging X V e d token (now_ms (V w)) p"
    by (simp add: refresh_exchanging [OF world c expiry(1)])
  obtain e' where "rc_expires_at (cc_registered c) = Some e'" "e' mod 1000000000 = 0"
    by (rule accepted_expiry [OF world valid])
  then have "e mod 1000000000 = 0" using expiry(1) by simp
  from whole_second_ms [OF this, of "fst (rt_now (ex_runtime X) w')"] expiry(2) auth_worldD(5) [OF world, of w']
  show "\<not> token_over V e d w'" by (simp add: token_over_def)
qed

text \<open>Two requests in lockstep: both find the token unused, and one gets the tokens.\<close>

definition two_refreshes :: "(ref_world, string \<times> string) prog list" where
  "two_refreshes = map (\<lambda>ctx. refresh_actions sample_service ctx (snd sample_tokens)) [None, None]"

lemma sample_refresh_accepted:
  "\<exists>c. accepted ref_custom sample_cfg True 0 (snd sample_tokens) c"
proof -
  have "\<not> (case fst (parse_token (ref_jwt ref_runtime) sample_cfg (snd sample_tokens) True sample_world) of
      Inl _ \<Rightarrow> True | Inr _ \<Rightarrow> False)" by code_simp
  moreover obtain r w' where p: "parse_token (ref_jwt ref_runtime) sample_cfg (snd sample_tokens) True sample_world = (r, w')"
    by (rule prod.exhaust)
  ultimately obtain c where "r = Inr c" by (auto split: sum.splits)
  moreover have "fst (rt_now ref_runtime sample_world) = 0" by (simp add: ref_runtime_def sample_world_def at_us_def)
  ultimately have "accepted ref_custom sample_cfg True 0 (snd sample_tokens) c"
    using parse_views(3) [OF ref_auth_world, of sample_cfg "snd sample_tokens" True sample_world r w' c] p by simp
  then show ?thesis ..
qed

theorem concurrent_refreshes_one_winner_witness:
  "map has_won (fst (turns lockstep (two_refreshes, sample_world))) = [True, False] \<and>
   length (winners (\<lambda>r. \<exists>tokens. r = Inr tokens) (fst (turns lockstep (two_refreshes, sample_world)))) \<le> 1"
proof
  show "map has_won (fst (turns lockstep (two_refreshes, sample_world))) = [True, False]" by code_simp
  obtain c where c: "accepted ref_custom sample_cfg True 0 (snd sample_tokens) c" using sample_refresh_accepted by blast
  then obtain e where e: "rc_expires_at (cc_registered c) = Some e" "0 < e" using accepted_expires by blast
  have start: "fst (rt_now (ex_runtime ref_externals) sample_world) = 0" by code_simp
  have now: "fst (rt_now (ex_runtime ref_externals) (snd (turns lockstep (two_refreshes, sample_world)))) = 0" by code_simp
  have "interleaved (marker_kept fst (token_blacklist_prefix @ snd sample_tokens)) (two_refreshes, sample_world)
      (fst (turns lockstep (two_refreshes, sample_world)), snd (turns lockstep (two_refreshes, sample_world)))"
    using turns_interleaved by simp
  then have run: "interleaved (marker_kept fst (token_blacklist_prefix @ snd sample_tokens))
      (map (\<lambda>ctx. refresh_actions sample_service ctx (snd sample_tokens)) [None, None], sample_world)
      (fst (turns lockstep (two_refreshes, sample_world)), snd (turns lockstep (two_refreshes, sample_world)))"
    by (simp only: two_refreshes_def)
  show "length (winners (\<lambda>r. \<exists>tokens. r = Inr tokens) (fst (turns lockstep (two_refreshes, sample_world)))) \<le> 1"
    by (rule concurrent_refreshes_one_winner [OF ref_auth_world _ e(1) _ run]) (simp_all only: c e(2) start now)
qed

text \<open>
  Once the token expires it is another matter: two requests that read the clock just before the token's expiry are both
  served if the second consumes the token when the marker of the first, which expires with the token, is gone.
\<close>

definition before_expiry :: ref_world where
  "before_expiry = (at_us 3599998500, sample_db)"

definition first_served :: "(ref_world, string \<times> string) running" where
  "first_served = turns [0, 0, 0, 0, 0, 1, 1, 1, 1, 1, 0] (two_refreshes, before_expiry)"

definition both_served :: "(ref_world, string \<times> string) running" where
  "both_served = turns [1] (fst first_served, later_us 2000 (snd first_served))"

lemma keeps_key_marker: "keeps_key V k env \<Longrightarrow> marker_kept V k w (env w)"
  by (auto simp: keeps_key_def marker_kept_def alive_def dest!: spec [of _ w])

lemma late_refresh_wins_twice:
  "interleaved (marker_kept fst (token_blacklist_prefix @ snd sample_tokens)) (two_refreshes, before_expiry) both_served \<and>
   length (winners (\<lambda>r. \<exists>tokens. r = Inr tokens) (fst both_served)) = 2"
proof
  let ?R = "marker_kept fst (token_blacklist_prefix @ snd sample_tokens)"
  have "interleaved ?R (two_refreshes, before_expiry) first_served"
    unfolding first_served_def by (rule turns_interleaved)
  also have "takes_turn ?R first_served (fst first_served, later_us 2000 (snd first_served))"
    using takes_turn.other [of ?R "snd first_served" "later_us 2000 (snd first_served)" "fst first_served"]
      keeps_key_marker [OF keeps_key_later [of 2000]] by simp
  also have "interleaved ?R (fst first_served, later_us 2000 (snd first_served)) both_served"
    unfolding both_served_def by (rule turns_interleaved)
  finally show "interleaved ?R (two_refreshes, before_expiry) both_served" .
  have "map has_won (fst both_served) = [True, True]" by code_simp
  then show "length (winners (\<lambda>r. \<exists>tokens. r = Inr tokens) (fst both_served)) = 2"
    unfolding winners_has_won by (cases "fst both_served"; cases "tl (fst both_served)") auto
qed
section \<open>Using one reset token at the same time\<close>

text \<open>The token, while it is stored, is for one version of one user's password.\<close>

definition token_for :: "('w \<Rightarrow> rstore) \<Rightarrow> string \<Rightarrow> u64 \<Rightarrow> u64 \<Rightarrow> 'w \<Rightarrow> bool" where
  "token_for V token uid version w \<longleftrightarrow>
     (\<forall>x. stored_reset (V w) token = Some x \<longrightarrow> rd_user_id x = uid \<and> rd_token_version x = version)"

definition version_gone :: "('w \<Rightarrow> database) \<Rightarrow> u64 \<Rightarrow> u64 \<Rightarrow> 'w \<Rightarrow> bool" where
  "version_gone D uid version w \<longleftrightarrow> \<not> has_version (D w) uid version"

text \<open>What others may do: not store the token again for something else, nor give the user the old version back.\<close>

definition reset_kept ::
    "('w \<Rightarrow> rstore) \<Rightarrow> ('w \<Rightarrow> database) \<Rightarrow> string \<Rightarrow> u64 \<Rightarrow> u64 \<Rightarrow> 'w \<Rightarrow> 'w \<Rightarrow> bool" where
  "reset_kept V D token uid version w w' \<longleftrightarrow>
     (token_for V token uid version w \<longrightarrow> token_for V token uid version w') \<and>
     (version_gone D uid version w \<longrightarrow> version_gone D uid version w')"

text \<open>How far a reset has got: it has been refused; or it reads, and goes on; or it is about to change the password.\<close>

definition reset_done :: "('w, 'h) externals \<Rightarrow> string \<Rightarrow> ('w, unit) prog" where
  "reset_done X token = act_ignoring (del_reset_token (ex_redis X) token) (Done (Inr ()))"

inductive resetting ::
    "('w, 'h) externals \<Rightarrow> ('w \<Rightarrow> rstore) \<Rightarrow> ('w \<Rightarrow> database) \<Rightarrow> string \<Rightarrow> u64 \<Rightarrow> u64 \<Rightarrow> ('w, unit) prog \<Rightarrow> bool"
  for X V D token uid version where
  gives_up: "resetting X V D token uid version (Done (Inl err))"
| reads: "(\<And>w p w'. token_for V token uid version w \<Longrightarrow> f w = (p, w') \<Longrightarrow>
     V w' = V w \<and> D w' = D w \<and> resetting X V D token uid version p) \<Longrightarrow> resetting X V D token uid version (Act f)"
| updates: "(\<And>e. resetting X V D token uid version (h e)) \<Longrightarrow> resetting X V D token uid version p \<Longrightarrow>
     resetting X V D token uid version
       (act_call (gm_updates (ex_users X) conn [Eq ''id'' (DUint uid), Eq ''token_version'' (DUint version)]
           [(''password'', Value (DText hash)), (''token_version'', PlusOne ''token_version'')])
         h (\<lambda>affected. if 0 < affected then reset_done X token else p))"

lemma reads_call:
  assumes "\<And>w r w'. m w = (r, w') \<Longrightarrow> V w' = V w \<and> D w' = D w" and "\<And>err. resetting X V D token uid version (h err)"
    and "\<And>w b w'. token_for V token uid version w \<Longrightarrow> m w = (Inr b, w') \<Longrightarrow> resetting X V D token uid version (k b)"
  shows "resetting X V D token uid version (act_call m h k)"
  unfolding act_call_def using assms by (intro resetting.reads) (auto split: prod.splits sum.splits)

lemma update_resetting:
  assumes world: "auth_world q X V D cust regd d" and refused: "\<And>e. resetting X V D token uid version (h e)"
  shows "resetting X V D token uid version
    (update_password_actions (ex_users X) (ex_db X) ctx uid hash version h (\<lambda>_. reset_done X token))"
proof -
  have user: "V w' = V w \<and> D w' = D w" if "user_get_by_id (ex_users X) (ex_db X) ctx uid w = (r, w')" for w r w'
    using user_get_by_id_reply [OF auth_worldD(3) [OF world] that] by simp
  have "resetting X V D token uid version (act_call (user_get_by_id (ex_users X) (ex_db X) ctx uid) h
      (\<lambda>user. case user of None \<Rightarrow> h ErrRecordNotFound | Some _ \<Rightarrow> h ErrTokenVersionConflict))"
    by (rule reads_call [OF user], assumption, rule refused) (simp add: refused split: option.split)
  from resetting.updates [OF refused this] show ?thesis by (simp add: update_password_actions_def)
qed

lemma reset_resetting:
  assumes world: "auth_world q X V D cust regd d"
  shows "resetting X V D (rq_reset_token req) uid version (reset_actions X ctx req)"
proof -
  have token: "V w' = V w \<and> D w' = D w" if "get_reset_token (ex_redis X) (rq_reset_token req) w = (r, w')" for w r w'
    using get_reset_stored [OF auth_worldD(1) [OF world] that]
      leavesD [OF get_reset_leaves [OF auth_worldD(2) [OF world]] that] by simp
  have data: "rd_user_id x = uid \<and> rd_token_version x = version"
    if "token_for V (rq_reset_token req) uid version w" "get_reset_token (ex_redis X) (rq_reset_token req) w = (Inr (Some x), w')" for w x w'
    using get_reset_stored [OF auth_worldD(1) [OF world] that(2)] that(1) by (simp add: token_for_def)
  have user: "V w' = V w \<and> D w' = D w" if "user_get_by_id (ex_users X) (ex_db X) ctx i w = (r, w')" for i w r w'
    using user_get_by_id_reply [OF auth_worldD(3) [OF world] that] by simp
  have hash: "V w' = V w \<and> D w' = D w" if "hash_password (ex_bcrypt X) 10 (rq_new_password req) w = (r, w')" for w r w'
    using leavesD [OF auth_worldD(6) [OF world], of "rq_new_password req" 10 w r w'] that by (simp add: hash_password_def)
  let ?R = "resetting X V D (rq_reset_token req) uid version"
  have last: "?R (update_password_actions (ex_users X) (ex_db X) ctx uid hashed version
      (\<lambda>e. if errors_is e ErrTokenVersionConflict then Done (Inl e1) else if errors_is e ErrRecordNotFound
        then Done (Inl e2) else Done (Inl e3)) (\<lambda>_. reset_done X (rq_reset_token req)))" for hashed e1 e2 e3
    by (rule update_resetting [OF world]) (simp add: resetting.gives_up)
  have main: "?R (act_call (user_get_by_id (ex_users X) (ex_db X) ctx uid) (\<lambda>_. Done (Inl e0)) (\<lambda>user.
      case user of None \<Rightarrow> Done (Inl e4) | Some u \<Rightarrow>
      act_call (hash_password (ex_bcrypt X) 10 (rq_new_password req)) (\<lambda>_. Done (Inl e5)) (\<lambda>hashed.
      update_password_actions (ex_users X) (ex_db X) ctx uid hashed version
        (\<lambda>e. if errors_is e ErrTokenVersionConflict then Done (Inl e1) else if errors_is e ErrRecordNotFound
          then Done (Inl e2) else Done (Inl e3)) (\<lambda>_. reset_done X (rq_reset_token req)))))" for e0 e1 e2 e3 e4 e5
    apply (rule reads_call [OF user], assumption, rule resetting.gives_up)
    apply (simp add: resetting.gives_up split: option.split)
    apply (intro impI allI)
    apply (rule reads_call [OF hash], assumption, rule resetting.gives_up)
    apply (rule last)
    done
  show ?thesis
    unfolding reset_actions_def
    apply (rule reads_call [OF token], assumption, rule resetting.gives_up)
    subgoal premises prems for w b w'
    proof (cases b)
      case None
      then show ?thesis by (simp add: resetting.gives_up)
    next
      case (Some x)
      with data [OF prems(1) prems(2) [unfolded Some]] show ?thesis
        by (simp add: main [unfolded reset_done_def] cong: option.case_cong)
    qed
    done
qed

text \<open>Once the password has been changed, the old version is gone whatever becomes of the request.\<close>

lemma resetting_step:
  assumes world: "auth_world q X V D cust regd d" and held: "token_for V token uid version w"
    and work: "resetting X V D token uid version (Act f)" and f: "f w = (p, w')"
  shows "V w' = V w \<and> (version_gone D uid version w \<longrightarrow> version_gone D uid version w') \<and>
    (resetting X V D token uid version p \<or>
     p = reset_done X token \<and> version_gone D uid version w' \<and> \<not> version_gone D uid version w)"
  using work
proof cases
  case reads
  from reads [OF held f] show ?thesis by (simp add: version_gone_def)
next
  case (updates h p' conn hash)
  obtain r where run: "gm_updates (ex_users X) conn [Eq ''id'' (DUint uid), Eq ''token_version'' (DUint version)]
      [(''password'', Value (DText hash)), (''token_version'', PlusOne ''token_version'')] w = (r, w')"
    and p: "p = (case r of Inl e \<Rightarrow> h e | Inr n \<Rightarrow> if 0 < n then reset_done X token else p')"
    using updates(1) f by (auto simp: act_call_def split: prod.splits sum.splits)
  have missing: "resetting X V D token uid version p \<and> V w' = V w"
    if "r = Inl e \<or> r = Inr 0" "V w' = V w" for e
    using that p updates(2,3) by auto
  from auth_worldD(3) [OF world] run update_password_rows show ?thesis
  proof (cases rule: updates_cases)
    case (failed e)
    with missing [of e] with_new_password_version show ?thesis by (auto simp: version_gone_def)
  next
    case (changed n)
    with p with_new_password_version show ?thesis by (auto simp: version_gone_def)
  next
    case missed
    with missing with_new_password_none [OF missed(2)] show ?thesis by (auto simp: version_gone_def)
  qed
qed

lemma reset_done_step:
  assumes world: "auth_world q X V D cust regd d" and "reset_done X token = Act f" and "f w = (p, w')"
  shows "reset_kept V D token uid version w w' \<and> p = Done (Inr ())"
proof -
  obtain r where del: "del_reset_token (ex_redis X) token w = (r, w')" and p: "p = Done (Inr ())"
    using assms(2,3) by (auto simp: reset_done_def act_ignoring_def) (metis prod.collapse)
  from del_reset_stored [OF auth_worldD(1) [OF world] del] leavesD [OF del_reset_leaves [OF auth_worldD(2) [OF world]] del] p
  show ?thesis by (auto simp: reset_kept_def token_for_def version_gone_def)
qed

interpretation reset_race: one_winner
    "auth_world q X V D cust regd d" "reset_kept V D token uid version" "\<lambda>r. r = Inr ()"
    "\<lambda>w p. token_for V token uid version w \<and> resetting X V D token uid version p"
    "\<lambda>p. p = Done (Inr ()) \<or> p = reset_done X token" "version_gone D uid version" "\<lambda>w. False"
  for q X V D cust regd d token uid version
proof (unfold_locales, goal_cases)
  case (1 w f p w')
  then have held: "token_for V token uid version w" and work: "resetting X V D token uid version (Act f)" by simp_all
  from resetting_step [OF 1(1) held work 1(3)] held show ?case
    by (auto simp: reset_kept_def token_for_def version_gone_def)
next
  case (2 f w p w')
  then have "reset_done X token = Act f" by simp
  from reset_done_step [OF 2(1) this 2(3)] show ?case by simp
next
  case (3 w r)
  then show ?case by (auto elim: resetting.cases simp: act_call_def)
next
  case (4 w p w')
  then show ?case by (simp add: reset_kept_def)
next
  case (5 w w')
  then show ?case by (simp add: reset_kept_def)
qed simp
section \<open>Properties of the reset\<close>

text \<open>C16 However many requests reset a password with one reset token at the same time, and however their actions interleave,
  with one another and with whatever else goes on that does not store the token anew or give the user the old version
  back, at most one succeeds: each reads the token and the user before any of them writes, but the statement that
  changes the password asks for the version again.\<close>

theorem concurrent_resets_one_winner:
  assumes world: "auth_world q X V D cust regd d" and stored: "stored_reset (V w) token = Some data"
    and run: "interleaved (reset_kept V D token (rd_user_id data) (rd_token_version data))
      (map (\<lambda>(ctx, pw). reset_actions X ctx \<lparr>rq_reset_token = token, rq_new_password = pw\<rparr>) reqs, w) (ps, w')"
  shows "length (winners (\<lambda>r. r = Inr ()) ps) \<le> 1"
proof (rule reset_race.at_most_one_winner [OF world _ run])
  have "resetting X V D token (rd_user_id data) (rd_token_version data)
      (reset_actions X ctx \<lparr>rq_reset_token = token, rq_new_password = pw\<rparr>)" for ctx pw
    using reset_resetting [OF world, of "\<lparr>rq_reset_token = token, rq_new_password = pw\<rparr>"] by simp
  then show "\<forall>p\<in>set (map (\<lambda>(ctx, pw). reset_actions X ctx \<lparr>rq_reset_token = token, rq_new_password = pw\<rparr>) reqs).
      token_for V token (rd_user_id data) (rd_token_version data) w \<and>
      resetting X V D token (rd_user_id data) (rd_token_version data) p"
    using stored by (auto simp: token_for_def)
qed simp

definition two_resets :: "(ref_world, unit) prog list" where
  "two_resets = map (\<lambda>(ctx, pw). reset_actions ref_externals ctx \<lparr>rq_reset_token = ''t'', rq_new_password = pw\<rparr>)
     [(None, ''x''), (None, ''y'')]"

theorem concurrent_resets_one_winner_witness:
  "map has_won (fst (turns lockstep (two_resets, reset_world))) = [True, False] \<and>
   length (winners (\<lambda>r. r = Inr ()) (fst (turns lockstep (two_resets, reset_world)))) \<le> 1"
proof
  show "map has_won (fst (turns lockstep (two_resets, reset_world))) = [True, False]" by code_simp
  have "stored_reset (fst reset_world) ''t'' \<noteq> None" by code_simp
  then obtain data where data: "stored_reset (fst reset_world) ''t'' = Some data" by blast
  have "interleaved (reset_kept fst snd ''t'' (rd_user_id data) (rd_token_version data)) (two_resets, reset_world)
      (fst (turns lockstep (two_resets, reset_world)), snd (turns lockstep (two_resets, reset_world)))"
    using turns_interleaved by simp
  then have run: "interleaved (reset_kept fst snd ''t'' (rd_user_id data) (rd_token_version data))
      (map (\<lambda>(ctx, pw). reset_actions ref_externals ctx \<lparr>rq_reset_token = ''t'', rq_new_password = pw\<rparr>)
        [(None, ''x''), (None, ''y'')], reset_world)
      (fst (turns lockstep (two_resets, reset_world)), snd (turns lockstep (two_resets, reset_world)))"
    by (simp only: two_resets_def)
  show "length (winners (\<lambda>r. r = Inr ()) (fst (turns lockstep (two_resets, reset_world)))) \<le> 1"
    by (rule concurrent_resets_one_winner [OF ref_auth_world data run])
qed

end
