(* ===== verification/Login.thy ===== *)
theory Login
  imports AuthSession
begin

text \<open>
  Logging in and registering over the real parts of the authentication service: what the checks are, what a
  success issues, and that the tokens it issues open a session.
\<close>

section \<open>Issuing tokens\<close>

lemma generate_result:
  assumes world: "auth_world q X V D cust regd d"
    and run: "generate_token (ex_jwt X) (ex_runtime X) cfg uid name role version secret expire w = (Inr token, w')"
    and utf8: "valid_utf8 name" "valid_utf8 role" "valid_utf8 (jc_issuer cfg)"
  shows "token \<noteq> [] \<and> (\<exists>i. cust token secret =
    Some (issued_claims cfg (fst (rt_now (ex_runtime X) w)) expire i uid name role version))"
proof -
  obtain i where "valid_utf8 i" and "sign_answer (\<lambda>token. cust token secret)
      (custom_text (issued_claims cfg (fst (rt_now (ex_runtime X) w)) expire i uid name role version))
      (issued_claims cfg (fst (rt_now (ex_runtime X) w)) expire i uid name role version) (Inr token)"
    using generate_token_reply [OF auth_worldD(4) [OF world] run] by blast
  with utf8 show ?thesis
    by (auto simp: sign_answer_def custom_text_def registered_text_def issued_claims_def numeric_dates_def whole_second_def)
qed

definition user_text :: "jwt_config \<Rightarrow> user \<Rightarrow> bool" where
  "user_text cfg u \<longleftrightarrow> valid_utf8 (us_username u) \<and> valid_utf8 (us_role u) \<and> valid_utf8 (jc_issuer cfg)"

lemma issue_reply:
  assumes world: "auth_world q X V D cust regd d" and run: "issue_tokens (new_auth_service X cfg ce) u w = (r, w')"
  shows "V w' = V w \<and> D w' = D w \<and>
    (r = Inl (BizError 500 (AuthMsg M_access_token_failed)) \<or> r = Inl (BizError 500 (AuthMsg M_refresh_token_failed)) \<or>
     (\<exists>access refresh. r = Inr (\<lparr>lo_access_token = access, lo_user_id = us_id u, lo_username = us_username u,
         lo_role = us_role u\<rparr>, refresh) \<and>
       (user_text cfg u \<longrightarrow> access \<noteq> [] \<and> (\<exists>i. cust access (jc_access_secret cfg) =
         Some (issued_claims cfg (fst (rt_now (ex_runtime X) w)) (jc_access_expire cfg) i (us_id u) (us_username u)
           (us_role u) (us_token_version u))))))"
proof -
  let ?gen = "\<lambda>secret expire. generate_token (ex_jwt X) (ex_runtime X) cfg (us_id u) (us_username u) (us_role u)
      (us_token_version u) secret expire"
  obtain r1 w1 where a: "?gen (jc_access_secret cfg) (jc_access_expire cfg) w = (r1, w1)" by fastforce
  obtain r2 w2 where b: "?gen (jc_refresh_secret cfg) (jc_refresh_expire cfg) w1 = (r2, w2)" by fastforce
  note av = generate_views [OF world a] and bv = generate_views [OF world b]
  have run': "(r, w') = (case r1 of Inl _ \<Rightarrow> (Inl (BizError 500 (AuthMsg M_access_token_failed)), w1)
    | Inr access \<Rightarrow> (case r2 of Inl _ \<Rightarrow> (Inl (BizError 500 (AuthMsg M_refresh_token_failed)), w2)
    | Inr refresh \<Rightarrow> (Inr (\<lparr>lo_access_token = access, lo_user_id = us_id u, lo_username = us_username u,
         lo_role = us_role u\<rparr>, refresh), w2)))"
    using run a b
    by (cases r1; cases r2)
      (auto simp: issue_tokens_def generate_access_token_def generate_refresh_token_def ret_def fail_def)
  show ?thesis
  proof (cases r1)
    case (Inl e)
    with run' av show ?thesis by simp
  next
    case (Inr access)
    have "user_text cfg u \<longrightarrow> access \<noteq> [] \<and> (\<exists>i. cust access (jc_access_secret cfg) =
         Some (issued_claims cfg (fst (rt_now (ex_runtime X) w)) (jc_access_expire cfg) i (us_id u) (us_username u)
           (us_role u) (us_token_version u)))"
      using generate_result [OF world a [unfolded Inr]] by (simp add: user_text_def)
    with run' av bv Inr show ?thesis by (cases r2) simp_all
  qed
qed

section \<open>The checks of \<open>Login\<close>\<close>

text \<open>What the user table says of a phone and a password.\<close>

definition login_check :: "server_config \<Rightarrow> 'w bcrypt_lib \<Rightarrow> database \<Rightarrow> string \<Rightarrow> string \<Rightarrow> go_err + user" where
  "login_check q B d phone password =
     (case lookup q d users [Eq ''phone'' (DText phone)] of
        None \<Rightarrow> Inl (BizError 401 (AuthMsg M_phone_or_password_wrong))
      | Some u \<Rightarrow>
          if \<not> compare_password B (us_password u) password
          then Inl (BizError 401 (AuthMsg M_phone_or_password_wrong))
          else if us_status u \<noteq> 1 then Inl (BizError 403 (AuthMsg M_account_disabled))
          else Inr u)"

lemma captcha_leaves: "redis_leaves R D \<Longrightarrow> leaves D (captcha_verify R i answer clear)"
  unfolding captcha_verify_def get_with_context_def redis_leaves_def by (intro leaves_intros) simp_all

lemma login_steps:
  assumes world: "auth_world q X V D cust regd d" and run: "login (new_auth_service X cfg ce) ctx req w = (r, w')"
  shows "\<exists>r1 w1. captcha_verify (ex_redis X) (lr_captcha_id req) (lr_captcha_code req) True w = (r1, w1) \<and> D w1 = D w \<and>
    V w' = V w1 \<and> D w' = D w \<and>
    (case r1 of
       Inl _ \<Rightarrow> r = Inl (BizError 503 (SessionMsg M_captcha_unavailable))
     | Inr False \<Rightarrow> r = Inl (BizError 400 (SessionMsg M_captcha_wrong))
     | Inr True \<Rightarrow> r = Inl (BizError 500 (AuthMsg M_login_failed)) \<or>
         (case login_check q (ex_bcrypt X) (D w) (lr_phone req) (lr_password req) of
            Inl e \<Rightarrow> r = Inl e
          | Inr u \<Rightarrow> \<exists>w2. V w2 = V w1 \<and> issue_tokens (new_auth_service X cfg ce) u w2 = (r, w')))"
proof -
  let ?S = "new_auth_service X cfg ce"
  obtain r1 w1 where c: "captcha_verify (ex_redis X) (lr_captcha_id req) (lr_captcha_code req) True w = (r1, w1)"
    by fastforce
  have D1: "D w1 = D w" by (rule leavesD [OF captcha_leaves [OF auth_worldD(2) [OF world]] c])
  obtain r2 w2 where g: "user_get_by_phone (ex_users X) (ex_db X) ctx (lr_phone req) w1 = (r2, w2)" by fastforce
  note gv = user_get_by_phone_reply [OF auth_worldD(3) [OF world] g]
  have "V w' = V w1 \<and> D w' = D w \<and> (case r1 of
     Inl _ \<Rightarrow> r = Inl (BizError 503 (SessionMsg M_captcha_unavailable))
   | Inr False \<Rightarrow> r = Inl (BizError 400 (SessionMsg M_captcha_wrong))
   | Inr True \<Rightarrow> r = Inl (BizError 500 (AuthMsg M_login_failed)) \<or>
       (case login_check q (ex_bcrypt X) (D w) (lr_phone req) (lr_password req) of
          Inl e \<Rightarrow> r = Inl e
        | Inr u \<Rightarrow> \<exists>w2. V w2 = V w1 \<and> issue_tokens ?S u w2 = (r, w')))"
  proof (cases "r1 = Inr True")
    case False
    with run c D1 show ?thesis by (cases r1) (auto simp: login_def split: bool.split)
  next
    case captcha: True
    show ?thesis
    proof (cases "\<exists>u. r2 = Inr (Some u) \<and> login_check q (ex_bcrypt X) (D w) (lr_phone req) (lr_password req) = Inr u")
      case True
      then obtain u where u: "r2 = Inr (Some u)" "login_check q (ex_bcrypt X) (D w) (lr_phone req) (lr_password req) = Inr u"
        by blast
      have "lookup q (D w) users [Eq ''phone'' (DText (lr_phone req))] = Some u"
        using u(1) gv D1 by auto
      then have "compare_password (ex_bcrypt X) (us_password u) (lr_password req)" "us_status u = 1"
        using u(2) by (auto simp: login_check_def split: if_splits)
      with run c captcha g u(1) have i: "issue_tokens ?S u w2 = (r, w')" by (simp add: login_def)
      from issue_reply [OF world i] gv D1 i u(2) captcha show ?thesis by auto
    next
      case False
      with run c captcha g gv D1 show ?thesis
        by (cases r2) (auto simp: login_def login_check_def split: option.splits if_splits)
    qed
  qed
  with c D1 show ?thesis by blast
qed

section \<open>The steps of \<open>Register\<close>\<close>

lemma consume_code_success:
  assumes law: "redis_law R V" and run: "consume_code R phone g w = (Inr True, w')"
  shows "no_code (V w') phone \<and>
    (\<exists>h t. live (V w) (sms_code_prefix @ phone) = Some (RHash h, t) \<and> map_of h ''code'' = Some g)"
  using law run
proof (cases rule: consume_code_cases)
  case (reply n)
  have "n = 1" using reply(2) by (simp split: if_splits)
  with reply(1) show ?thesis
    by (cases "as_hash (live (V w) (sms_code_prefix @ phone))")
      (auto simp: consume_code_lua_def no_code_def call_def cmd_hget_def cmd_del_def cmd_hincrby_def as_hash_def
        split: option.splits prod.splits rval.splits if_splits sum.splits)
qed (simp_all add: lost_reply_def)

lemma consume_code_leaves: "redis_leaves R D \<Longrightarrow> leaves D (consume_code R phone code)"
  unfolding consume_code_def redis_leaves_def by (intro leaves_intros) simp_all

lemma verify_leaves: "redis_leaves R D \<Longrightarrow> leaves D (verify_code (new_sms_cache R) phone code)"
  unfolding verify_code_def by (intro leaves_intros) (simp add: new_sms_cache_def consume_code_leaves)

lemma verify_success:
  assumes "redis_law R V" and "verify_code (new_sms_cache R) phone code w = (Inr True, w')"
  shows "no_code (V w') phone \<and>
    (\<exists>h t. live (V w) (sms_code_prefix @ phone) = Some (RHash h, t) \<and> map_of h ''code'' = Some code)"
proof -
  have "consume_code R phone code w = (Inr True, w')"
    using assms(2) by (auto simp: verify_code_def new_sms_cache_def split: call_split_asm if_splits)
  from consume_code_success [OF assms(1) this] show ?thesis .
qed

text \<open>The row \<open>Register\<close> stores.\<close>

definition registered_user :: "database \<Rightarrow> register_req \<Rightarrow> string \<Rightarrow> user" where
  "registered_user d req hash =
     \<lparr>us_id = tb_next (db_users d), us_created_at = db_now d, us_updated_at = db_now d, us_username = rr_username req,
      us_password = hash, us_phone = rr_phone req, us_email = None, us_role = ''user'', us_status = 1,
      us_token_version = 1\<rparr>"

definition with_user :: "database \<Rightarrow> user \<Rightarrow> database" where
  "with_user d u = d\<lparr>db_users := \<lparr>tb_rows = rows users d @ [u], tb_next = tb_next (db_users d) + 1\<rparr>\<rparr>"

lemma stmt_create_user:
  assumes "stmt_create q users \<lparr>us_id = 0, us_created_at = 0, us_updated_at = 0, us_username = rr_username req,
      us_password = hash, us_phone = rr_phone req, us_email = None, us_role = ''user'', us_status = 1,
      us_token_version = 1\<rparr> d = (r, d')"
  shows "(r = Inl ErrDuplicatedKey \<and> d' = d) \<or>
    (r = Inr (registered_user d req hash) \<and> d' = with_user d (registered_user d req hash) \<and>
     unique_rows q users (rows users d @ [registered_user d req hash]))"
  using assms
  by (auto simp: stmt_create_def Let_def user_schema_def registered_user_def with_user_def rows_def split: if_splits)

lemma register_steps:
  assumes world: "auth_world q X V D cust regd d"
    and run: "register_user (new_auth_service X cfg ce) ctx req w = (Inr (resp, refresh), w')"
  shows "lookup q (D w) users [Eq ''username'' (DText (rr_username req))] = None \<and>
    lookup q (D w) users [Eq ''phone'' (DText (rr_phone req))] = None \<and>
    (\<exists>h t. live (V w) (sms_code_prefix @ rr_phone req) = Some (RHash h, t) \<and> map_of h ''code'' = Some (rr_sms_code req)) \<and>
    no_code (V w') (rr_phone req) \<and>
    (\<exists>hash w2 w3. fst (hash_password (ex_bcrypt X) 10 (rr_password req) w2) = Inr hash \<and>
      unique_rows q users (rows users (D w) @ [registered_user (D w) req hash]) \<and>
      D w' = with_user (D w) (registered_user (D w) req hash) \<and>
      issue_tokens (new_auth_service X cfg ce) (registered_user (D w) req hash) w3 = (Inr (resp, refresh), w'))"
proof -
  let ?S = "new_auth_service X cfg ce" and ?ph = "rr_phone req"
  let ?row = "\<lambda>hash. \<lparr>us_id = 0, us_created_at = 0, us_updated_at = 0, us_username = rr_username req,
      us_password = hash, us_phone = ?ph, us_email = None, us_role = ''user'', us_status = 1, us_token_version = 1\<rparr>"
  from run obtain w1 w2 w3 w4 hash w5 u where
    a: "user_get_by_username (ex_users X) (ex_db X) ctx (rr_username req) w = (Inr None, w1)" and
    b: "user_get_by_phone (ex_users X) (ex_db X) ctx ?ph w1 = (Inr None, w2)" and
    c: "verify_code (new_sms_cache (ex_redis X)) ?ph (rr_sms_code req) w2 = (Inr True, w3)" and
    e: "hash_password (ex_bcrypt X) 10 (rr_password req) w3 = (Inr hash, w4)" and
    f: "user_create (ex_users X) (ex_db X) ctx (?row hash) w4 = (Inr u, w5)" and
    i: "issue_tokens ?S u w5 = (Inr (resp, refresh), w')"
    by (auto simp: register_user_def split: call_split_asm if_splits)
  note av = user_get_by_username_reply [OF auth_worldD(3) [OF world] a]
  note bv = user_get_by_phone_reply [OF auth_worldD(3) [OF world] b]
  have D3: "D w3 = D w2" by (rule leavesD [OF verify_leaves [OF auth_worldD(2) [OF world]] c])
  note cv = verify_success [OF auth_worldD(1) [OF world] c]
  have "bl_generate (ex_bcrypt X) (rr_password req) 10 w3 = (Inr hash, w4)" using e by (simp add: hash_password_def)
  from leavesD [OF auth_worldD(6) [OF world] this] have ev: "V w4 = V w3" "D w4 = D w3" by simp_all
  have D4: "D w4 = D w" using av bv D3 ev by simp
  have create: "stmt_create q users (?row hash) (D w4) = (Inr u, D w5) \<and> V w5 = V w4"
    by (rule statement_cases [OF model_lawD(1) [OF auth_worldD(3) [OF world]] f [unfolded user_create_def]]) auto
  have fv: "u = registered_user (D w) req hash" "D w5 = with_user (D w) u"
    "unique_rows q users (rows users (D w) @ [registered_user (D w) req hash])"
    using stmt_create_user [OF conjunct1 [OF create]] by (simp_all add: D4)
  note iv = issue_reply [OF world i]
  have "no_code (V w') ?ph" using cv iv create ev by simp
  moreover have "\<exists>h t. live (V w) (sms_code_prefix @ ?ph) = Some (RHash h, t) \<and> map_of h ''code'' = Some (rr_sms_code req)"
    using cv av bv by simp
  moreover have "D w' = with_user (D w) (registered_user (D w) req hash)" using iv fv by simp
  moreover have "fst (hash_password (ex_bcrypt X) 10 (rr_password req) w3) = Inr hash" using e by simp
  ultimately show ?thesis using av bv fv i by auto
qed

section \<open>Sessions\<close>

lemma issued_authenticates:
  assumes world: "auth_world q X V D cust regd d" and u: "user_with_id (D w2) (us_id u) = Some u" "us_status u = 1"
    and token: "access \<noteq> []" "cust access (jc_access_secret cfg) = Some (issued_claims cfg t (jc_access_expire cfg) i
      (us_id u) (us_username u) (us_role u) (us_token_version u))"
    and fresh: "\<not> blacklisted (V w2) access"
    and time: "t div 1000000000 * 1000000000 \<le> fst (rt_now (ex_runtime X) w2)"
      "fst (rt_now (ex_runtime X) w2) < (t + jc_access_expire cfg) div 1000000000 * 1000000000"
    and run: "authenticate (new_auth_service X cfg ce) ctx access w2 = (r, w3)"
  shows "r = Inr \<lparr>id_user_id = us_id u, id_username = us_username u, id_role = us_role u\<rparr> \<or>
    r = Inl (BizError 500 (AuthMsg M_identity_unavailable))"
  using authenticate_reply [OF world run] assms(2-8)
  by (auto simp: auth_verdict_def issued_claims_def passes_def)

text \<open>A successful login, all it shows.\<close>

lemma login_opens:
  assumes world: "auth_world q X V D cust regd d" and unique: "db_unique q (D w)"
    and utf8: "\<forall>u\<in>set (rows users (D w)). user_text cfg u"
    and run: "login (new_auth_service X cfg ce) ctx req w = (Inr (resp, refresh), w1)"
  shows "no_captcha V (lr_captcha_id req) w1 \<and>
    (\<exists>u t. u \<in> set (rows users (D w)) \<and> sq_text_eq q (us_phone u) (lr_phone req) \<and>
      compare_password (ex_bcrypt X) (us_password u) (lr_password req) \<and> us_status u = 1 \<and>
      lo_user_id resp = us_id u \<and> lo_username resp = us_username u \<and> lo_role resp = us_role u \<and>
      t div 1000000 = fst (rt_now (ex_runtime X) w) div 1000000 \<and>
      (\<forall>w2 r w3. user_with_id (D w2) (us_id u) = Some u \<and> \<not> blacklisted (V w2) (lo_access_token resp) \<and>
        t div 1000000000 * 1000000000 \<le> fst (rt_now (ex_runtime X) w2) \<and>
        fst (rt_now (ex_runtime X) w2) < (t + jc_access_expire cfg) div 1000000000 * 1000000000 \<and>
        authenticate (new_auth_service X cfg ce) ctx (lo_access_token resp) w2 = (r, w3) \<longrightarrow>
        r = Inr \<lparr>id_user_id = us_id u, id_username = us_username u, id_role = us_role u\<rparr> \<or>
        r = Inl (BizError 500 (AuthMsg M_identity_unavailable))) \<and>
      user_with_id (D w1) (us_id u) = Some u)"
proof -
  let ?S = "new_auth_service X cfg ce"
  obtain r1 w0 where c: "captcha_verify (ex_redis X) (lr_captcha_id req) (lr_captcha_code req) True w = (r1, w0)"
    and views: "V w1 = V w0" "D w1 = D w" and body: "case r1 of
       Inl _ \<Rightarrow> Inr (resp, refresh) = Inl (BizError 503 (SessionMsg M_captcha_unavailable))
     | Inr False \<Rightarrow> Inr (resp, refresh) = Inl (BizError 400 (SessionMsg M_captcha_wrong))
     | Inr True \<Rightarrow> Inr (resp, refresh) = Inl (BizError 500 (AuthMsg M_login_failed)) \<or>
         (case login_check q (ex_bcrypt X) (D w) (lr_phone req) (lr_password req) of
            Inl e \<Rightarrow> Inr (resp, refresh) = Inl e
          | Inr u \<Rightarrow> \<exists>w2. V w2 = V w0 \<and> issue_tokens ?S u w2 = (Inr (resp, refresh), w1))"
    using login_steps [OF world run] by blast
  from body obtain u w2 where r1: "r1 = Inr True" and
    u: "login_check q (ex_bcrypt X) (D w) (lr_phone req) (lr_password req) = Inr u" and
    w2: "V w2 = V w0" and i: "issue_tokens ?S u w2 = (Inr (resp, refresh), w1)"
    by (auto split: sum.splits bool.splits)
  have row: "u \<in> set (rows users (D w))" "sq_text_eq q (us_phone u) (lr_phone req)"
    and checks: "compare_password (ex_bcrypt X) (us_password u) (lr_password req)" "us_status u = 1"
    using u lookup_SomeD [of q "D w" users "[Eq ''phone'' (DText (lr_phone req))]" u]
    by (auto simp: login_check_def split: option.splits if_splits)
  have used: "no_captcha V (lr_captcha_id req) w1"
    using captcha_verify_reply [OF auth_worldD(1) [OF world] c] r1 views by (simp add: no_captcha_def)
  have "now_ms (V w2) = now_ms (V w)"
    using captcha_frame(1) [OF auth_worldD(1) [OF world] c] w2 by simp
  then have ms: "fst (rt_now (ex_runtime X) w2) div 1000000 = fst (rt_now (ex_runtime X) w) div 1000000"
    using auth_worldD(5) [OF world, of w2] auth_worldD(5) [OF world, of w] by simp
  obtain iid where resp: "lo_user_id resp = us_id u" "lo_username resp = us_username u" "lo_role resp = us_role u"
    and token: "lo_access_token resp \<noteq> []" "cust (lo_access_token resp) (jc_access_secret cfg) =
      Some (issued_claims cfg (fst (rt_now (ex_runtime X) w2)) (jc_access_expire cfg) iid (us_id u) (us_username u)
        (us_role u) (us_token_version u))"
    using issue_reply [OF world i] utf8 row(1) by auto
  have id: "user_with_id (D w1) (us_id u) = Some u" using user_id_unique [OF unique row(1)] views by simp
  show ?thesis
    using used row checks resp ms id issued_authenticates [OF world _ checks(2) token] by blast
qed

section \<open>Properties\<close>

text \<open>C28 \<open>Login\<close> does its checks in their order and gives away no more than that: the captcha is used up first, whatever
  follows; then a phone that is not registered and a wrong password get the same answer; only who knows the
  password learns that the account is disabled; and only when all checks pass are tokens issued, for the user
  of that phone. No call changes the database, and after the captcha Redis is left alone.\<close>

theorem login_implements_checks:
  assumes "auth_world q X V D cust regd d" and "login (new_auth_service X cfg ce) ctx req w = (r, w')"
  shows "\<exists>r1 w1. captcha_verify (ex_redis X) (lr_captcha_id req) (lr_captcha_code req) True w = (r1, w1) \<and> D w1 = D w \<and>
    V w' = V w1 \<and> D w' = D w \<and>
    (case r1 of
       Inl _ \<Rightarrow> r = Inl (BizError 503 (SessionMsg M_captcha_unavailable))
     | Inr False \<Rightarrow> r = Inl (BizError 400 (SessionMsg M_captcha_wrong))
     | Inr True \<Rightarrow> r = Inl (BizError 500 (AuthMsg M_login_failed)) \<or>
         (case login_check q (ex_bcrypt X) (D w) (lr_phone req) (lr_password req) of
            Inl e \<Rightarrow> r = Inl e
          | Inr u \<Rightarrow> \<exists>w2. V w2 = V w1 \<and> issue_tokens (new_auth_service X cfg ce) u w2 = (r, w')))"
  by (rule login_steps [OF assms])

definition login_world :: ref_world where
  "login_world = (snd (store_set ref_redis captcha_prefix 300000000000 ''i'' ''1234'' (at_us 0)), sample_db)"

definition sample_login :: "string \<Rightarrow> login_req" where
  "sample_login pw = \<lparr>lr_phone = ''1'', lr_password = pw, lr_captcha_id = ''i'', lr_captcha_code = ''1234''\<rparr>"

theorem login_implements_checks_witness:
  "fst (login sample_service None (sample_login ''wrong'') login_world) =
     Inl (BizError 401 (AuthMsg M_phone_or_password_wrong)) \<and>
   snd (snd (login sample_service None (sample_login ''wrong'') login_world)) = sample_db"
proof
  show "fst (login sample_service None (sample_login ''wrong'') login_world) =
     Inl (BizError 401 (AuthMsg M_phone_or_password_wrong))"
    by code_simp
  have run: "login sample_service None (sample_login ''wrong'') login_world =
      (fst (login sample_service None (sample_login ''wrong'') login_world),
       snd (login sample_service None (sample_login ''wrong'') login_world))"
    by simp
  from login_implements_checks [OF ref_auth_world run]
  show "snd (snd (login sample_service None (sample_login ''wrong'') login_world)) = sample_db"
    by (elim exE conjE) (simp add: login_world_def)
qed

text \<open>C27 A login opens a session. When \<open>Login\<close> succeeds, the captcha was right and is used up, the answer names an
  enabled user with that phone and password, and the access token is accepted by \<open>Authenticate\<close> as that user
  at every time from the second of the login to before its expiry, as long as the user stays enabled with the same token
  version and the token is not revoked, unless a store fails.\<close>

theorem login_opens_session:
  assumes world: "auth_world q X V D cust regd d" and unique: "db_unique q (D w)"
    and utf8: "\<forall>u\<in>set (rows users (D w)). user_text cfg u"
    and run: "login (new_auth_service X cfg ce) ctx req w = (Inr (resp, refresh), w1)"
  shows "no_captcha V (lr_captcha_id req) w1 \<and>
    (\<exists>u t. u \<in> set (rows users (D w)) \<and> sq_text_eq q (us_phone u) (lr_phone req) \<and>
      compare_password (ex_bcrypt X) (us_password u) (lr_password req) \<and> us_status u = 1 \<and>
      lo_user_id resp = us_id u \<and> lo_username resp = us_username u \<and> lo_role resp = us_role u \<and>
      t div 1000000 = fst (rt_now (ex_runtime X) w) div 1000000 \<and>
      (\<forall>w2 r w3. user_with_id (D w2) (us_id u) = Some u \<and> \<not> blacklisted (V w2) (lo_access_token resp) \<and>
        t div 1000000000 * 1000000000 \<le> fst (rt_now (ex_runtime X) w2) \<and>
        fst (rt_now (ex_runtime X) w2) < (t + jc_access_expire cfg) div 1000000000 * 1000000000 \<and>
        authenticate (new_auth_service X cfg ce) ctx (lo_access_token resp) w2 = (r, w3) \<longrightarrow>
        r = Inr \<lparr>id_user_id = us_id u, id_username = us_username u, id_role = us_role u\<rparr> \<or>
        r = Inl (BizError 500 (AuthMsg M_identity_unavailable))) \<and>
      user_with_id (D w1) (us_id u) = Some u)"
  by (rule login_opens [OF assms])

theorem login_opens_session_witness:
  "\<exists>resp refresh w1. login sample_service None (sample_login ''pw'') login_world = (Inr (resp, refresh), w1) \<and>
     lo_user_id resp = 7 \<and> no_captcha fst ''i'' w1"
proof -
  let ?run = "login sample_service None (sample_login ''pw'') login_world"
  have "case fst ?run of Inl _ \<Rightarrow> False | Inr (resp, _) \<Rightarrow> lo_user_id resp = 7" by code_simp
  then obtain resp refresh where ok: "?run = (Inr (resp, refresh), snd ?run)" and uid: "lo_user_id resp = 7"
    by (cases ?run; cases "fst ?run") auto
  have utf8: "\<forall>u\<in>set (rows users (snd login_world)). user_text sample_cfg u" by code_simp
  have unique: "db_unique ref_server (snd login_world)" by code_simp
  from login_opens_session [OF ref_auth_world unique utf8 ok, THEN conjunct1]
  have "no_captcha fst ''i'' (snd ?run)" by (simp add: sample_login_def)
  with ok uid show ?thesis by blast
qed

text \<open>C29 A registration makes one account. When \<open>Register\<close> succeeds, nobody had that user name or that phone in
  the sense of the database's text comparison, the SMS code stored for the phone was the one given and is used up,
  exactly one row was added to the users, enabled, with role \<open>user\<close>, token version 1, the hash of the password and a new id,
  and user names and phones are still unique.\<close>

theorem register_creates_one_account:
  assumes world: "auth_world q X V D cust regd d" and unique: "db_unique q (D w)"
    and run: "register_user (new_auth_service X cfg ce) ctx req w = (Inr (resp, refresh), w')"
  shows "(\<forall>u\<in>set (rows users (D w)). \<not> sq_text_eq q (us_username u) (rr_username req) \<and>
      \<not> sq_text_eq q (us_phone u) (rr_phone req)) \<and>
    (\<exists>h t. live (V w) (sms_code_prefix @ rr_phone req) = Some (RHash h, t) \<and> map_of h ''code'' = Some (rr_sms_code req)) \<and>
    no_code (V w') (rr_phone req) \<and>
    (\<exists>hash w2. fst (hash_password (ex_bcrypt X) 10 (rr_password req) w2) = Inr hash \<and>
      rows users (D w') = rows users (D w) @ [registered_user (D w) req hash] \<and>
      lo_user_id resp = us_id (registered_user (D w) req hash)) \<and>
    db_unique q (D w')"
proof -
  note steps = register_steps [OF world run]
  then obtain hash w2 w3 where
    hash: "fst (hash_password (ex_bcrypt X) 10 (rr_password req) w2) = Inr hash" and
    u: "unique_rows q users (rows users (D w) @ [registered_user (D w) req hash])" and
    new: "D w' = with_user (D w) (registered_user (D w) req hash)" and
    i: "issue_tokens (new_auth_service X cfg ce) (registered_user (D w) req hash) w3 = (Inr (resp, refresh), w')"
    by blast
  have rows: "rows users (D w') = rows users (D w) @ [registered_user (D w) req hash]"
    "rows servers (D w') = rows servers (D w)" "rows dsts (D w') = rows dsts (D w)" "rows tasks (D w') = rows tasks (D w)"
    by (simp_all add: new with_user_def rows_def)
  have "db_unique q (D w')" using unique u by (simp add: db_unique_def rows)
  moreover have "lo_user_id resp = us_id (registered_user (D w) req hash)" using issue_reply [OF world i] by auto
  moreover have "\<not> sq_text_eq q (us_username u) (rr_username req) \<and> \<not> sq_text_eq q (us_phone u) (rr_phone req)"
    if "u \<in> set (rows users (D w))" for u
    using steps lookup_NoneD [OF _ that, of q "[Eq ''username'' (DText (rr_username req))]"]
      lookup_NoneD [OF _ that, of q "[Eq ''phone'' (DText (rr_phone req))]"]
    by simp
  ultimately show ?thesis using steps hash rows(1) by blast
qed

definition register_world :: ref_world where
  "register_world = (snd (set_code ref_redis ''2'' ''123456'' (minutes 5) (at_us 0)), sample_db)"

definition sample_registration :: register_req where
  "sample_registration = \<lparr>rr_username = ''m'', rr_password = ''secret'', rr_phone = ''2'', rr_sms_code = ''123456''\<rparr>"

theorem register_creates_one_account_witness:
  "\<exists>resp refresh w1. register_user sample_service None sample_registration register_world = (Inr (resp, refresh), w1) \<and>
     lo_user_id resp = 8 \<and> no_code (fst w1) ''2''"
proof -
  let ?run = "register_user sample_service None sample_registration register_world"
  have "case fst ?run of Inl _ \<Rightarrow> False | Inr (resp, _) \<Rightarrow> lo_user_id resp = 8" by code_simp
  then obtain resp refresh where ok: "?run = (Inr (resp, refresh), snd ?run)" and uid: "lo_user_id resp = 8"
    by (cases ?run; cases "fst ?run") auto
  have unique: "db_unique ref_server (snd register_world)" by code_simp
  from register_creates_one_account [OF ref_auth_world unique ok]
  have "no_code (fst (snd ?run)) ''2''" by (simp add: sample_registration_def)
  with ok uid show ?thesis by blast
qed

end
