(* ===== verification/ConcurrentRegister.thy ===== *)
theory ConcurrentRegister
  imports Login Interleaving
begin

text \<open>
  \<open>Register\<close> of \<open>src/internal/service/auth\<close> as a program of atomic actions, and any number of registrations of one phone
  number at the same time. Several of them may find the number free; the unique index of the database decides.
\<close>

section \<open>The operation as a program\<close>

definition issue_actions :: "('w, 'h) auth_parts \<Rightarrow> user \<Rightarrow> ('w, login_resp \<times> string) prog" where
  "issue_actions s u =
     act_call (tm_generate_access_token (ap_jwt s) (us_id u) (us_username u) (us_role u) (us_token_version u))
       (\<lambda>_. Done (Inl (BizError 500 (AuthMsg M_access_token_failed))))
       (\<lambda>access_token.
     act_call (tm_generate_refresh_token (ap_jwt s) (us_id u) (us_username u) (us_role u) (us_token_version u))
       (\<lambda>_. Done (Inl (BizError 500 (AuthMsg M_refresh_token_failed))))
       (\<lambda>refresh_token.
     Done (Inr (\<lparr>lo_access_token = access_token, lo_user_id = us_id u, lo_username = us_username u,
       lo_role = us_role u\<rparr>, refresh_token))))"

definition register_actions :: "('w, 'h) auth_parts \<Rightarrow> 'h ctx \<Rightarrow> register_req \<Rightarrow> ('w, login_resp \<times> string) prog" where
  "register_actions s ctx req =
     act_call (ur_get_by_username (ap_users s) ctx (rr_username req))
       (\<lambda>_. Done (Inl (BizError 500 (AuthMsg M_register_failed))))
       (\<lambda>exist_user.
     if exist_user \<noteq> None then Done (Inl (BizError 409 (AuthMsg M_username_taken)))
     else
     act_call (ur_get_by_phone (ap_users s) ctx (rr_phone req))
       (\<lambda>_. Done (Inl (BizError 500 (AuthMsg M_register_failed))))
       (\<lambda>exist_user.
     if exist_user \<noteq> None then Done (Inl (BizError 409 (AuthMsg M_phone_taken)))
     else
     act_call (ss_verify_code (ap_sms s) (rr_phone req) (rr_sms_code req)) (\<lambda>e. Done (Inl e))
       (\<lambda>valid.
     if \<not> valid then Done (Inl (BizError 400 (AuthMsg M_sms_code_wrong)))
     else
     act_call (ph_hash_password (ap_hasher s) (rr_password req))
       (\<lambda>_. Done (Inl (BizError 500 (AuthMsg M_hash_failed))))
       (\<lambda>hashed.
     act_call (ur_create (ap_users s) ctx
         \<lparr>us_id = 0, us_created_at = 0, us_updated_at = 0, us_username = rr_username req, us_password = hashed,
          us_phone = rr_phone req, us_email = None, us_role = ''user'', us_status = 1, us_token_version = 1\<rparr>)
       (\<lambda>e. if errors_is e ErrDuplicatedKey then Done (Inl (BizError 409 (AuthMsg M_username_or_phone_taken)))
            else Done (Inl (BizError 500 (AuthMsg M_register_failed))))
       (\<lambda>new_user. issue_actions s new_user)))))"

lemma perform_issue: "perform (issue_actions s u) = issue_tokens s u"
  by (simp add: issue_actions_def issue_tokens_def)

lemma perform_register: "perform (register_actions s ctx req) = register_user s ctx req"
  by (simp add: register_actions_def register_user_def perform_issue cong: if_cong)

section \<open>How far a registration has got\<close>

text \<open>The text equality of the database is a parameter, its reflexivity is relied on.\<close>

definition phone_taken :: "server_config \<Rightarrow> ('w \<Rightarrow> database) \<Rightarrow> string \<Rightarrow> 'w \<Rightarrow> bool" where
  "phone_taken q D phone w \<longleftrightarrow> (\<exists>u\<in>set (rows users (D w)). sq_text_eq q (us_phone u) phone)"

definition stays_taken :: "server_config \<Rightarrow> ('w \<Rightarrow> database) \<Rightarrow> string \<Rightarrow> 'w \<Rightarrow> 'w \<Rightarrow> bool" where
  "stays_taken q D phone w w' \<longleftrightarrow> (phone_taken q D phone w \<longrightarrow> phone_taken q D phone w')"

text \<open>After the account exists only tokens are made; before, the database is only read.\<close>

inductive issuing :: "('w \<Rightarrow> database) \<Rightarrow> ('w, login_resp \<times> string) prog \<Rightarrow> bool" for D where
  ended: "issuing D (Done r)"
| signs: "(\<And>w p w'. f w = (p, w') \<Longrightarrow> D w' = D w \<and> issuing D p) \<Longrightarrow> issuing D (Act f)"

inductive registering ::
    "('w, 'h) externals \<Rightarrow> ('w \<Rightarrow> database) \<Rightarrow> string \<Rightarrow> ('w, login_resp \<times> string) prog \<Rightarrow> bool" for X D phone where
  declined: "registering X D phone (Done (Inl err))"
| checks: "(\<And>w p w'. f w = (p, w') \<Longrightarrow> D w' = D w \<and> registering X D phone p) \<Longrightarrow> registering X D phone (Act f)"
| creates: "rr_phone (req :: register_req) = phone \<Longrightarrow> (\<And>e. registering X D phone (h e)) \<Longrightarrow> (\<And>u. issuing D (k u)) \<Longrightarrow>
     registering X D phone (act_call (user_create (ex_users X) (ex_db X) ctx
       \<lparr>us_id = 0, us_created_at = 0, us_updated_at = 0, us_username = rr_username req, us_password = hash,
        us_phone = rr_phone req, us_email = None, us_role = ''user'', us_status = 1, us_token_version = 1\<rparr>) h k)"

lemma signs_call:
  assumes "\<And>w r w'. m w = (r, w') \<Longrightarrow> D w' = D w" and "\<And>err. issuing D (h err)" and "\<And>b. issuing D (k b)"
  shows "issuing D (act_call m h k)"
  unfolding act_call_def using assms by (intro issuing.signs) (auto split: prod.splits sum.splits)

lemma checks_call:
  assumes "\<And>w r w'. m w = (r, w') \<Longrightarrow> D w' = D w" and "\<And>err. registering X D phone (h err)"
    and "\<And>b. registering X D phone (k b)"
  shows "registering X D phone (act_call m h k)"
  unfolding act_call_def using assms by (intro registering.checks) (auto split: prod.splits sum.splits)

lemma issue_issuing:
  assumes world: "auth_world q X V D cust regd d"
  shows "issuing D (issue_actions (new_auth_service X cfg ce) u)"
proof -
  have access: "D w' = D w" if "generate_access_token (ex_jwt X) (ex_runtime X) cfg i n ro v w = (r, w')" for i n ro v w r w'
    using that generate_views(2) [OF world] by (simp add: generate_access_token_def)
  have refresh: "D w' = D w" if "generate_refresh_token (ex_jwt X) (ex_runtime X) cfg i n ro v w = (r, w')" for i n ro v w r w'
    using that generate_views(2) [OF world] by (simp add: generate_refresh_token_def)
  show ?thesis
    unfolding issue_actions_def new_auth_service_simps
    apply (rule signs_call [OF access], assumption, rule issuing.ended)
    apply (rule signs_call [OF refresh], assumption, rule issuing.ended)
    apply (rule issuing.ended)
    done
qed

lemma register_registering:
  assumes world: "auth_world q X V D cust regd d"
  shows "registering X D (rr_phone req) (register_actions (new_auth_service X cfg ce) ctx req)"
proof -
  have name: "D w' = D w" if "user_get_by_username (ex_users X) (ex_db X) ctx n w = (r, w')" for n w r w'
    using user_get_by_username_reply [OF auth_worldD(3) [OF world] that] by simp
  have phone: "D w' = D w" if "user_get_by_phone (ex_users X) (ex_db X) ctx n w = (r, w')" for n w r w'
    using user_get_by_phone_reply [OF auth_worldD(3) [OF world] that] by simp
  have code: "D w' = D w" if "verify_code (new_sms_cache (ex_redis X)) ph c w = (r, w')" for ph c w r w'
    by (rule leavesD [OF verify_leaves [OF auth_worldD(2) [OF world]] that])
  have hash: "D w' = D w" if "hash_password (ex_bcrypt X) 10 pw w = (r, w')" for pw w r w'
    using leavesD [OF auth_worldD(6) [OF world], of pw 10 w r w'] that by (simp add: hash_password_def)
  have declined: "registering X D (rr_phone req) (if b then Done (Inl e) else Done (Inl e'))" for b e e'
    by (simp add: registering.declined)
  show ?thesis
    unfolding register_actions_def new_auth_service_simps
    apply (rule checks_call [OF name], assumption, rule registering.declined)
    apply (simp only: if_split registering.declined, intro conjI impI TrueI)
    apply (rule checks_call [OF phone], assumption, rule registering.declined)
    apply (simp only: if_split registering.declined, intro conjI impI TrueI)
    apply (rule checks_call [OF code], assumption, rule registering.declined)
    apply (simp only: if_split registering.declined, intro conjI impI TrueI)
    apply (rule checks_call [OF hash], assumption, rule registering.declined)
    apply (rule registering.creates [OF refl declined issue_issuing [OF world]])
    done
qed

section \<open>The insert\<close>

lemma unique_rows_last: "unique_rows q en (rs @ [r]) \<Longrightarrow> x \<in> set rs \<Longrightarrow> \<not> clash q en x r"
  by (induction rs) auto

lemma phone_clash: "sq_text_eq q (us_phone u) (us_phone u') \<Longrightarrow> clash q users u u'"
  by (simp add: clash_def user_schema_def user_column_def)

lemma create_step:
  fixes req :: register_req
  assumes world: "auth_world q X V D cust regd d" and refl: "sq_text_eq q (rr_phone req) (rr_phone req)"
    and run: "user_create (ex_users X) (ex_db X) ctx
       \<lparr>us_id = 0, us_created_at = 0, us_updated_at = 0, us_username = rr_username req, us_password = hash,
        us_phone = rr_phone req, us_email = None, us_role = ''user'', us_status = 1, us_token_version = 1\<rparr> w = (r, w')"
  shows "stays_taken q D (rr_phone req) w w'"
    and "r = Inr u \<Longrightarrow> phone_taken q D (rr_phone req) w' \<and> \<not> phone_taken q D (rr_phone req) w"
proof -
  let ?new = "registered_user (D w) req hash"
  have phone: "us_phone ?new = rr_phone req" by (simp add: registered_user_def)
  have rows: "rows users (with_user (D w) ?new) = rows users (D w) @ [?new]" by (simp add: with_user_def rows_def)
  have added: "phone_taken q D (rr_phone req) w'" if "D w' = with_user (D w) ?new"
    using refl by (simp add: phone_taken_def that rows phone)
  have fresh: "\<not> phone_taken q D (rr_phone req) w" if "unique_rows q users (rows users (D w) @ [?new])"
    using unique_rows_last [OF that] phone_clash [of q _ ?new] by (auto simp: phone_taken_def phone)
  note stmt = stmt_create_user [of q req hash "D w"]
  from model_lawD(1) [OF auth_worldD(3) [OF world]] run [unfolded user_create_def]
  have "D w' = D w \<and> (\<forall>u. r \<noteq> Inr u) \<or>
    D w' = with_user (D w) ?new \<and> ((\<exists>u. r = Inr u) \<longrightarrow> unique_rows q users (rows users (D w) @ [?new]))"
  proof (cases rule: statement_cases)
    case reply
    from stmt [OF reply(1)] show ?thesis by auto
  next
    case (lost m)
    with stmt [OF surjective_pairing] show ?thesis by auto
  qed
  with added fresh show "stays_taken q D (rr_phone req) w w'"
    and "r = Inr u \<Longrightarrow> phone_taken q D (rr_phone req) w' \<and> \<not> phone_taken q D (rr_phone req) w"
    by (auto simp: stays_taken_def phone_taken_def)
qed

lemma registering_step:
  assumes world: "auth_world q X V D cust regd d" and refl: "sq_text_eq q phone phone"
    and work: "registering X D phone (Act f)" and f: "f w = (p, w')"
  shows "stays_taken q D phone w w' \<and>
    (registering X D phone p \<or> issuing D p \<and> phone_taken q D phone w' \<and> \<not> phone_taken q D phone w)"
  using work
proof cases
  case checks
  from checks [OF f] show ?thesis by (simp add: stays_taken_def phone_taken_def)
next
  case (creates req h k ctx hash)
  obtain r where run: "user_create (ex_users X) (ex_db X) ctx
       \<lparr>us_id = 0, us_created_at = 0, us_updated_at = 0, us_username = rr_username req, us_password = hash,
        us_phone = rr_phone req, us_email = None, us_role = ''user'', us_status = 1, us_token_version = 1\<rparr> w = (r, w')"
    and p: "p = (case r of Inl e \<Rightarrow> h e | Inr u \<Rightarrow> k u)"
    using creates(1) f by (auto simp: act_call_def split: prod.splits sum.splits)
  have refl': "sq_text_eq q (rr_phone req) (rr_phone req)" using refl creates(2) by simp
  from create_step [OF world refl' run] creates p show ?thesis by (cases r) auto
qed

lemma issuing_step: "issuing D (Act f) \<Longrightarrow> f w = (p, w') \<Longrightarrow> D w' = D w \<and> issuing D p"
  by (auto elim: issuing.cases)

interpretation register_race: one_winner
    "auth_world q X V D cust regd d \<and> sq_text_eq q phone phone" "stays_taken q D phone" "\<lambda>r. \<exists>a. r = Inr a"
    "\<lambda>w. registering X D phone" "issuing D" "phone_taken q D phone" "\<lambda>w. False"
  for q X V D cust regd d phone
proof (unfold_locales, goal_cases)
  case (1 w f p w')
  from registering_step [OF _ _ 1(2,3)] 1(1) show ?case by blast
next
  case (2 f w p w')
  from issuing_step [OF 2(2,3)] show ?case by (simp add: stays_taken_def phone_taken_def)
next
  case (3 w r)
  from 3(2) show ?case by (cases rule: registering.cases) (auto simp: act_call_def)
next
  case (5 w w')
  then show ?case by (simp add: stays_taken_def)
qed simp_all

section \<open>At most one account\<close>

text \<open>C17 However many requests register accounts with one phone number at the same time, and however their actions interleave,
  with one another and with whatever else goes on that leaves a user with that number in the table, at most one
  succeeds: several may have found the number free and their SMS code right, but the insert of the second is refused by
  the unique index. That the text comparison of the database finds the number equal to itself is a hypothesis.\<close>

theorem concurrent_registrations_one_winner:
  assumes world: "auth_world q X V D cust regd d" and refl: "sq_text_eq q phone phone"
    and same: "\<forall>(ctx, req)\<in>set reqs. rr_phone req = phone"
    and run: "interleaved (stays_taken q D phone)
      (map (\<lambda>(ctx, req). register_actions (new_auth_service X cfg ce) ctx req) reqs, w) (ps, w')"
  shows "length (winners (\<lambda>r. \<exists>a. r = Inr a) ps) \<le> 1"
  by (rule register_race.at_most_one_winner [OF conjI [OF world refl] _ run])
    (use same register_registering [OF world] in auto)

definition two_registrations :: "(ref_world, login_resp \<times> string) prog list" where
  "two_registrations = map (\<lambda>(ctx, req). register_actions sample_service ctx req)
     [(None, sample_registration), (None, sample_registration\<lparr>rr_username := ''n''\<rparr>)]"

definition both_registered :: "(ref_world, login_resp \<times> string) running" where
  "both_registered = turns (lockstep @ lockstep) (two_registrations, register_world)"

theorem concurrent_registrations_one_winner_witness:
  "length (rows users (snd (snd both_registered))) = length (rows users sample_db) + 1 \<and>
   map has_won (fst both_registered) = [True, False] \<and>
   length (winners (\<lambda>r. \<exists>a. r = Inr a) (fst both_registered)) \<le> 1"
proof (intro conjI)
  show "length (rows users (snd (snd both_registered))) = length (rows users sample_db) + 1" by code_simp
  show "map has_won (fst both_registered) = [True, False]" by code_simp
  have refl: "sq_text_eq ref_server ''2'' ''2''" by code_simp
  have same: "\<forall>(ctx, req)\<in>set [(None :: unit ctx, sample_registration), (None, sample_registration\<lparr>rr_username := ''n''\<rparr>)].
      rr_phone req = ''2''"
    by (simp add: sample_registration_def)
  have "interleaved (stays_taken ref_server snd ''2'') (two_registrations, register_world)
      (fst both_registered, snd both_registered)"
    using turns_interleaved by (simp add: both_registered_def)
  from concurrent_registrations_one_winner [OF ref_auth_world refl same this [unfolded two_registrations_def]]
  show "length (winners (\<lambda>r. \<exists>a. r = Inr a) (fst both_registered)) \<le> 1" .
qed

end
