(* ===== verification/Owned.thy ===== *)
theory Owned
  imports Gorm
begin

text \<open>
  What servers, saved worlds and tasks have in common: every row belongs to a user, lists come in pages, and the
  operations made in a user's name must not reach the rows of another. The last is a contract, the locale
  \<open>tenant\<close>; its client's lemma is that whatever others do, in any sequence, a user's rows stay as they are.
\<close>

section \<open>Lists\<close>

lemma find_filter_list: "find P (filter Q xs) = (case filter (\<lambda>x. P x \<and> Q x) xs of [] \<Rightarrow> None | x # _ \<Rightarrow> Some x)"
  by (induction xs) auto

text \<open>What a page of a list is.\<close>

definition page_of :: "int \<Rightarrow> int \<Rightarrow> 'r list \<Rightarrow> 'r list" where
  "page_of page psize rs = take (nat psize) (drop (nat ((page - 1) * psize)) rs)"

lemma page_of_subset: "set (page_of page psize rs) \<subseteq> set rs"
  unfolding page_of_def using set_take_subset set_drop_subset by fastforce

lemma page_of_length: "length (page_of page psize rs) \<le> nat psize"
  by (simp add: page_of_def)

lemma filter_map_other:
  "(\<And>x. P x \<Longrightarrow> \<not> Q x) \<Longrightarrow> (\<And>x. P (f x) = P x) \<Longrightarrow> filter P (map (\<lambda>x. if Q x then f x else x) xs) = filter P xs"
  by (induction xs) auto

section \<open>The contract of a tenant\<close>

text \<open>
  \<open>step\<close> is one request with its answer, \<open>actor\<close> the user in whose name it runs, \<open>owned\<close> the rows of a user, and
  \<open>lawful\<close> says that the services the provider rests on behave as documented.
\<close>

fun requests :: "('q \<Rightarrow> 'w \<Rightarrow> 'a \<times> 'w) \<Rightarrow> 'q list \<Rightarrow> 'w \<Rightarrow> 'w" where
  "requests step [] w = w"
| "requests step (q # qs) w = requests step qs (snd (step q w))"

locale tenant =
  fixes lawful :: bool
    and step :: "'q \<Rightarrow> 'w \<Rightarrow> 'a \<times> 'w"
    and actor :: "'q \<Rightarrow> u64"
    and owned :: "u64 \<Rightarrow> 'w \<Rightarrow> 'r"
  assumes isolated: "lawful \<Longrightarrow> actor q \<noteq> uid \<Longrightarrow> owned uid (snd (step q w)) = owned uid w"
begin

lemma others_leave_alone:
  assumes lawful and "\<forall>q\<in>set qs. actor q \<noteq> uid"
  shows "owned uid (requests step qs w) = owned uid w"
  using assms(2) by (induction qs arbitrary: w) (simp_all add: isolated [OF assms(1)])

end

end
