(* ===== verification/ServerRepo.thy ===== *)
theory ServerRepo
  imports Owned
begin

text \<open>
  The server repository, \<open>src/internal/repository/server/repository.go\<close>.
\<close>

section \<open>Operations\<close>

record ('w, 'h) server_repo =
  sp_exists_by_id :: "'h ctx \<Rightarrow> u64 \<Rightarrow> ('w, bool) go"
  sp_create :: "'h ctx \<Rightarrow> server \<Rightarrow> ('w, server) go"
  sp_get_by_id :: "'h ctx \<Rightarrow> u64 \<Rightarrow> u64 \<Rightarrow> ('w, server option) go"
  sp_list :: "'h ctx \<Rightarrow> u64 \<Rightarrow> int \<Rightarrow> int \<Rightarrow> ('w, server list \<times> int) go"
  sp_update :: "'h ctx \<Rightarrow> u64 \<Rightarrow> u64 \<Rightarrow> (string \<times> assignment) list \<Rightarrow> ('w, unit) go"
  sp_delete :: "'h ctx \<Rightarrow> u64 \<Rightarrow> u64 \<Rightarrow> ('w, unit) go"

definition server_exists_by_id :: "('w, 'h, server) model \<Rightarrow> 'h \<Rightarrow> 'h ctx \<Rightarrow> u64 \<Rightarrow> ('w, bool) go" where
  "server_exists_by_id M db ctx sid =
     call (gm_count M (get_db_from_ctx ctx db) [Eq ''id'' (DUint sid)]) fail (\<lambda>count. ret (0 < count))"

definition server_create :: "('w, 'h, server) model \<Rightarrow> 'h \<Rightarrow> 'h ctx \<Rightarrow> server \<Rightarrow> ('w, server) go" where
  "server_create M db ctx s = gm_create M (get_db_from_ctx ctx db) s"

definition server_get_by_id :: "('w, 'h, server) model \<Rightarrow> 'h \<Rightarrow> 'h ctx \<Rightarrow> u64 \<Rightarrow> u64 \<Rightarrow> ('w, server option) go" where
  "server_get_by_id M db ctx uid sid =
     first_or_nil (gm_first M (get_db_from_ctx ctx db) [Eq ''id'' (DUint sid), Eq ''user_id'' (DUint uid)])"

definition server_list ::
    "('w, 'h, server) model \<Rightarrow> 'h \<Rightarrow> 'h ctx \<Rightarrow> u64 \<Rightarrow> int \<Rightarrow> int \<Rightarrow> ('w, server list \<times> int) go" where
  "server_list M db ctx uid page page_size =
     call (gm_count M (get_db_from_ctx ctx db) [Eq ''user_id'' (DUint uid)]) fail (\<lambda>total.
     call (gm_find M (get_db_from_ctx ctx db) [Eq ''user_id'' (DUint uid)] (Desc ''id'')
         ((page - 1) * page_size) page_size) fail (\<lambda>ss. ret (ss, total)))"

definition server_update ::
    "('w, 'h, server) model \<Rightarrow> 'h \<Rightarrow> 'h ctx \<Rightarrow> u64 \<Rightarrow> u64 \<Rightarrow> (string \<times> assignment) list \<Rightarrow> ('w, unit) go" where
  "server_update M db ctx uid sid ups =
     call (gm_updates M (get_db_from_ctx ctx db) [Eq ''id'' (DUint sid), Eq ''user_id'' (DUint uid)] ups) fail
       (\<lambda>affected.
     if 0 < affected then ret ()
     else
       call (server_get_by_id M db ctx uid sid) fail (\<lambda>s.
         case s of None \<Rightarrow> fail ErrRecordNotFound | Some _ \<Rightarrow> ret ()))"

definition server_delete :: "('w, 'h, server) model \<Rightarrow> 'h \<Rightarrow> 'h ctx \<Rightarrow> u64 \<Rightarrow> u64 \<Rightarrow> ('w, unit) go" where
  "server_delete M db ctx uid sid =
     call (gm_delete M (get_db_from_ctx ctx db)
         [Eq ''id'' (DUint sid), Eq ''user_id'' (DUint uid), NotExists ''dst'' [(''server_id'', DUint sid)]]) fail
       (\<lambda>affected.
     if 0 < affected then ret ()
     else
       call (server_get_by_id M db ctx uid sid) fail (\<lambda>s.
         case s of None \<Rightarrow> fail ErrRecordNotFound | Some _ \<Rightarrow> fail ErrServerHasDst))"

definition new_server_repo :: "('w, 'h, server) model \<Rightarrow> 'h \<Rightarrow> ('w, 'h) server_repo" where
  "new_server_repo M db =
     \<lparr>sp_exists_by_id = server_exists_by_id M db, sp_create = server_create M db,
      sp_get_by_id = server_get_by_id M db, sp_list = server_list M db, sp_update = server_update M db,
      sp_delete = server_delete M db\<rparr>"

section \<open>Servers on the abstract database\<close>

definition owned_servers :: "database \<Rightarrow> u64 \<Rightarrow> server list" where
  "owned_servers d uid = filter (\<lambda>s. sv_user_id s = uid) (rows servers d)"

definition owned_server :: "database \<Rightarrow> u64 \<Rightarrow> u64 \<Rightarrow> server option" where
  "owned_server d uid sid = find (\<lambda>s. sv_id s = sid) (owned_servers d uid)"

definition has_dst :: "database \<Rightarrow> u64 \<Rightarrow> bool" where
  "has_dst d sid \<longleftrightarrow> (\<exists>z\<in>set (rows dsts d). ds_server_id z = sid)"

lemma matching_server [simp]:
  "matching q d servers [Eq ''id'' (DUint sid)] = (\<lambda>s. sv_id s = sid)"
  "matching q d servers [Eq ''user_id'' (DUint uid)] = (\<lambda>s. sv_user_id s = uid)"
  "matching q d servers [Eq ''id'' (DUint sid), Eq ''user_id'' (DUint uid)] =
     (\<lambda>s. sv_id s = sid \<and> sv_user_id s = uid)"
  by (simp_all add: matching_def server_schema_def server_column_def fun_eq_iff)

lemma row_exists_dst: "row_exists q d ''dst'' [(''server_id'', DUint sid)] \<longleftrightarrow> has_dst d sid"
  by (simp add: row_exists_def list_ex_iff matches_all_def has_dst_def dst_schema_def dst_column_def)

lemma matching_server_delete [simp]:
  "matching q d servers [Eq ''id'' (DUint sid), Eq ''user_id'' (DUint uid), NotExists ''dst'' [(''server_id'', DUint sid)]] =
     (\<lambda>s. sv_id s = sid \<and> sv_user_id s = uid \<and> \<not> has_dst d sid)"
  by (simp add: matching_def server_schema_def server_column_def fun_eq_iff row_exists_dst)

lemma lookup_server: "lookup q d servers [Eq ''id'' (DUint sid), Eq ''user_id'' (DUint uid)] = owned_server d uid sid"
  by (simp add: lookup_def select_def owned_server_def owned_servers_def find_filter_list)

lemma owned_server_None: "owned_server d uid sid = None \<longleftrightarrow>
    \<not> (\<exists>s\<in>set (rows servers d). sv_id s = sid \<and> sv_user_id s = uid)"
  by (auto simp: owned_server_def owned_servers_def find_None_iff)

lemma owned_server_Some: "owned_server d uid sid = Some s \<Longrightarrow> s \<in> set (owned_servers d uid) \<and> sv_id s = sid"
  by (auto simp: owned_server_def find_Some_iff)

lemma server_get_reply:
  assumes "model_law q servers M D V" and "server_get_by_id M db ctx uid sid w = (r, w')"
  shows "D w' = D w \<and> V w' = V w \<and> (r = Inr (owned_server (D w) uid sid) \<or> (\<exists>m. r = Inl (LibError m)))"
  using first_or_nil_reply [OF model_lawD(2) [OF assms(1)] assms(2) [unfolded server_get_by_id_def]]
  by (simp add: lookup_server)

lemma server_exists_reply:
  assumes "model_law q servers M D V" and "server_exists_by_id M db ctx sid w = (r, w')"
  shows "D w' = D w \<and> V w' = V w \<and>
    (r = Inr (\<exists>s\<in>set (rows servers (D w)). sv_id s = sid) \<or> (\<exists>m. r = Inl (LibError m)))"
proof -
  obtain r1 w1 where c: "gm_count M (get_db_from_ctx ctx db) [Eq ''id'' (DUint sid)] w = (r1, w1)" by fastforce
  note read_reply [OF model_lawD(3) [OF assms(1)] reads_count c]
  moreover have "r = (case r1 of Inl e \<Rightarrow> Inl e | Inr n \<Rightarrow> Inr (0 < n))" "w' = w1"
    using assms(2) c by (cases r1; simp add: server_exists_by_id_def)+
  ultimately show ?thesis by (auto simp: stmt_count_def filter_empty_conv)
qed

lemma server_list_reply:
  assumes law: "model_law q servers M D V" and run: "server_list M db ctx uid page psize w = (r, w')"
  shows "D w' = D w \<and> V w' = V w \<and>
    (r = Inr (page_of page psize (in_order servers (Desc ''id'') (owned_servers (D w) uid)),
       int (length (owned_servers (D w) uid))) \<or> (\<exists>m. r = Inl (LibError m)))"
proof -
  obtain r1 w1 where c: "gm_count M (get_db_from_ctx ctx db) [Eq ''user_id'' (DUint uid)] w = (r1, w1)" by fastforce
  obtain r2 w2 where f: "gm_find M (get_db_from_ctx ctx db) [Eq ''user_id'' (DUint uid)] (Desc ''id'')
      ((page - 1) * psize) psize w1 = (r2, w2)" by fastforce
  note cv = read_reply [OF model_lawD(3) [OF law] reads_count c]
    and fv = read_reply [OF model_lawD(4) [OF law] reads_find f]
  have "(r, w') = (case r1 of Inl e \<Rightarrow> (Inl e, w1)
    | Inr n \<Rightarrow> (case r2 of Inl e \<Rightarrow> (Inl e, w2) | Inr ss \<Rightarrow> (Inr (ss, n), w2)))"
    using run c f by (cases r1; cases r2) (auto simp: server_list_def)
  then show ?thesis
    using cv fv by (cases r1; cases r2) (auto simp: stmt_count_def stmt_find_def owned_servers_def page_of_def)
qed

section \<open>Updates and deletes\<close>

text \<open>What an update may do to a row: everything but its id and its owner.\<close>

lemma server_set_keeps [simp]:
  "sv_id (server_set c v s) = sv_id s" "sv_user_id (server_set c v s) = sv_user_id s"
  by (simp_all add: server_set_def)

lemma assign_server_keeps:
  "sv_id (assign servers old a s) = sv_id s \<and> sv_user_id (assign servers old a s) = sv_user_id s"
  by (simp add: assign_def server_schema_def split: prod.split assignment.split dbval.split)

lemma updated_server_keeps [simp]:
  "sv_id (updated servers now ups s) = sv_id s" "sv_user_id (updated servers now ups s) = sv_user_id s"
proof -
  have "sv_id (fold (assign servers old) ups s) = sv_id s \<and>
      sv_user_id (fold (assign servers old) ups s) = sv_user_id s" for old
    by (induction ups arbitrary: s) (simp_all add: assign_server_keeps)
  then show "sv_id (updated servers now ups s) = sv_id s" "sv_user_id (updated servers now ups s) = sv_user_id s"
    by (simp_all add: updated_def server_schema_def)
qed

definition with_updated_server :: "database \<Rightarrow> u64 \<Rightarrow> u64 \<Rightarrow> (string \<times> assignment) list \<Rightarrow> database" where
  "with_updated_server d uid sid ups =
     put_rows servers (map (\<lambda>s. if sv_id s = sid \<and> sv_user_id s = uid then updated servers (db_now d) ups s else s)
       (rows servers d)) d"

definition without_server :: "database \<Rightarrow> u64 \<Rightarrow> u64 \<Rightarrow> database" where
  "without_server d uid sid =
     put_rows servers (filter (\<lambda>s. \<not> (sv_id s = sid \<and> sv_user_id s = uid)) (rows servers d)) d"

lemma put_servers_same: "put_rows servers (rows servers d) d = d"
  by (simp add: put_rows_def rows_def)

lemma with_updated_server_none: "owned_server d uid sid = None \<Longrightarrow> with_updated_server d uid sid ups = d"
proof -
  assume "owned_server d uid sid = None"
  then have "map (\<lambda>s. if sv_id s = sid \<and> sv_user_id s = uid then updated servers (db_now d) ups s else s)
      (rows servers d) = rows servers d"
    by (intro map_idI) (auto simp: owned_server_None)
  then show ?thesis by (simp add: with_updated_server_def put_servers_same)
qed

lemma without_server_none: "owned_server d uid sid = None \<Longrightarrow> without_server d uid sid = d"
proof -
  assume "owned_server d uid sid = None"
  then have "filter (\<lambda>s. \<not> (sv_id s = sid \<and> sv_user_id s = uid)) (rows servers d) = rows servers d"
    by (intro filter_True) (auto simp: owned_server_None)
  then show ?thesis by (simp add: without_server_def put_servers_same)
qed

lemma owned_other:
  assumes "uid' \<noteq> uid"
  shows "owned_servers (with_updated_server d uid sid ups) uid' = owned_servers d uid'"
    and "owned_servers (without_server d uid sid) uid' = owned_servers d uid'"
proof -
  show "owned_servers (with_updated_server d uid sid ups) uid' = owned_servers d uid'"
    unfolding owned_servers_def with_updated_server_def rows_put_rows
    by (rule filter_map_other) (use assms in auto)
  show "owned_servers (without_server d uid sid) uid' = owned_servers d uid'"
    unfolding owned_servers_def without_server_def rows_put_rows filter_filter
    by (rule filter_cong) (use assms in auto)
qed

lemma update_server_rows:
  "stmt_updates q servers [Eq ''id'' (DUint sid), Eq ''user_id'' (DUint uid)] ups d = (Inl ErrDuplicatedKey, d) \<or>
   (\<exists>n. stmt_updates q servers [Eq ''id'' (DUint sid), Eq ''user_id'' (DUint uid)] ups d =
        (Inr (int n), with_updated_server d uid sid ups) \<and>
      (0 < n \<longrightarrow> owned_server d uid sid \<noteq> None) \<and> (n = 0 \<longrightarrow> True))"
proof -
  have "owned_server d uid sid \<noteq> None"
    if "0 < length (filter (\<lambda>s. (sv_id s = sid \<and> sv_user_id s = uid) \<and> Q s) (rows servers d))" for Q
    using that by (auto simp: owned_server_None filter_empty_conv)
  then show ?thesis
    unfolding stmt_updates_def Let_def matching_server with_updated_server_def by simp
qed

lemma owned_server_updated:
  "owned_server (with_updated_server d uid sid ups) uid sid = None \<longleftrightarrow> owned_server d uid sid = None"
proof -
  have keep: "sv_id (if b then updated servers now ups s else s) = sv_id s"
    "sv_user_id (if b then updated servers now ups s else s) = sv_user_id s" for b now s
    by simp_all
  show ?thesis
    by (simp only: owned_server_None with_updated_server_def rows_put_rows set_map bex_simps keep)
qed

lemma server_update_reply:
  assumes law: "model_law q servers M D V" and run: "server_update M db ctx uid sid ups w = (r, w')"
  shows "V w' = V w \<and> (D w' = D w \<or> D w' = with_updated_server (D w) uid sid ups) \<and>
    (r = Inr () \<longrightarrow> owned_server (D w) uid sid \<noteq> None \<and> D w' = with_updated_server (D w) uid sid ups) \<and>
    (r = Inl ErrRecordNotFound \<longrightarrow> owned_server (D w) uid sid = None \<and> D w' = D w) \<and>
    (r = Inl ErrDuplicatedKey \<longrightarrow> D w' = D w) \<and>
    (\<forall>e. r = Inl e \<longrightarrow> e = ErrDuplicatedKey \<or> e = ErrRecordNotFound \<or> (\<exists>m. e = LibError m))"
proof -
  obtain r1 w1 where up: "gm_updates M (get_db_from_ctx ctx db) [Eq ''id'' (DUint sid), Eq ''user_id'' (DUint uid)] ups w =
      (r1, w1)" by fastforce
  obtain r2 w2 where get: "server_get_by_id M db ctx uid sid w1 = (r2, w2)" by fastforce
  note gv = server_get_reply [OF law get]
  have body: "(r, w') = (case r1 of Inl e \<Rightarrow> (Inl e, w1) | Inr n \<Rightarrow> if 0 < n then (Inr (), w1)
      else (case r2 of Inl e \<Rightarrow> (Inl e, w2) | Inr None \<Rightarrow> (Inl ErrRecordNotFound, w2)
        | Inr (Some s) \<Rightarrow> (Inr (), w2)))"
    using run up get
    by (cases r1; cases r2) (auto simp: server_update_def ret_def fail_def split: option.splits if_splits)
  from law up update_server_rows show ?thesis
  proof (cases rule: updates_cases)
    case (failed e)
    with body show ?thesis by auto
  next
    case (changed n)
    with body show ?thesis by auto
  next
    case missed
    with body gv owned_server_updated [of "D w" uid sid ups] with_updated_server_none [of "D w" uid sid ups] show ?thesis
      by (auto split: sum.splits option.splits)
  qed
qed

lemma server_delete_reply:
  assumes law: "model_law q servers M D V" and run: "server_delete M db ctx uid sid w = (r, w')"
  shows "V w' = V w \<and> (D w' = D w \<or> \<not> has_dst (D w) sid \<and> D w' = without_server (D w) uid sid) \<and>
    (r = Inr () \<longrightarrow> owned_server (D w) uid sid \<noteq> None \<and> \<not> has_dst (D w) sid \<and>
       D w' = without_server (D w) uid sid) \<and>
    (r = Inl ErrRecordNotFound \<longrightarrow> owned_server (D w) uid sid = None \<and> D w' = D w) \<and>
    (r = Inl ErrServerHasDst \<longrightarrow> owned_server (D w) uid sid \<noteq> None \<and> has_dst (D w) sid \<and> D w' = D w) \<and>
    (\<forall>e. r = Inl e \<longrightarrow> e = ErrServerHasDst \<or> e = ErrRecordNotFound \<or> (\<exists>m. e = LibError m))"
proof -
  let ?cs = "[Eq ''id'' (DUint sid), Eq ''user_id'' (DUint uid), NotExists ''dst'' [(''server_id'', DUint sid)]]"
  obtain r1 w1 where del: "gm_delete M (get_db_from_ctx ctx db) ?cs w = (r1, w1)" by fastforce
  obtain r2 w2 where get: "server_get_by_id M db ctx uid sid w1 = (r2, w2)" by fastforce
  note gv = server_get_reply [OF law get]
  have body: "(r, w') = (case r1 of Inl e \<Rightarrow> (Inl e, w1) | Inr n \<Rightarrow> if 0 < n then (Inr (), w1)
      else (case r2 of Inl e \<Rightarrow> (Inl e, w2) | Inr None \<Rightarrow> (Inl ErrRecordNotFound, w2)
        | Inr (Some s) \<Rightarrow> (Inl ErrServerHasDst, w2)))"
    using run del get
    by (cases r1; cases r2) (auto simp: server_delete_def ret_def fail_def split: option.splits if_splits)
  have stmt: "\<exists>n. stmt_delete q servers ?cs (D w) =
      (Inr (int n), if has_dst (D w) sid then D w else without_server (D w) uid sid) \<and>
      (0 < n \<longleftrightarrow> \<not> has_dst (D w) sid \<and> owned_server (D w) uid sid \<noteq> None)"
  proof -
    have "filter (\<lambda>s. \<not> (sv_id s = sid \<and> sv_user_id s = uid \<and> \<not> has_dst (D w) sid)) (rows servers (D w)) =
      (if has_dst (D w) sid then rows servers (D w)
       else filter (\<lambda>s. \<not> (sv_id s = sid \<and> sv_user_id s = uid)) (rows servers (D w)))"
      by (auto intro: filter_cong)
    then show ?thesis
      unfolding stmt_delete_def Let_def matching_server_delete
      by (auto simp: without_server_def put_servers_same owned_server_None filter_empty_conv)
  qed
  from model_lawD(6) [OF law] del show ?thesis
  proof (cases rule: statement_cases)
    case (lost m)
    with body stmt show ?thesis by (auto split: if_splits)
  next
    case reply
    with stmt obtain n where n: "r1 = Inr (int n)"
      "D w1 = (if has_dst (D w) sid then D w else without_server (D w) uid sid)"
      "0 < n \<longleftrightarrow> \<not> has_dst (D w) sid \<and> owned_server (D w) uid sid \<noteq> None"
      by auto
    show ?thesis
    proof (cases "0 < n")
      case True
      with body n reply(2) show ?thesis by auto
    next
      case False
      then have "D w1 = D w" using n without_server_none [of "D w" uid sid] by (auto split: if_splits)
      with False body n reply(2) gv show ?thesis
        by (cases "owned_server (D w) uid sid") (auto split: sum.splits option.splits if_splits)
    qed
  qed
qed
section \<open>Creating a server\<close>

definition stamped_server :: "database \<Rightarrow> server \<Rightarrow> server" where
  "stamped_server d s =
     s\<lparr>sv_id := tb_next (db_servers d), sv_created_at := db_now d, sv_updated_at := db_now d,
       sv_port := if sv_port s = 0 then 22 else sv_port s\<rparr>"

definition stored_server :: "server \<Rightarrow> server" where
  "stored_server s = s\<lparr>sv_game_env := json_strings (sv_game_env s), sv_mods := json_strings (sv_mods s)\<rparr>"

definition with_server :: "database \<Rightarrow> server \<Rightarrow> database" where
  "with_server d s = d\<lparr>db_servers := \<lparr>tb_rows = rows servers d @ [stored_server (stamped_server d s)],
     tb_next = tb_next (db_servers d) + 1\<rparr>\<rparr>"

lemma stored_server_keeps [simp]:
  "sv_id (stored_server s) = sv_id s" "sv_user_id (stored_server s) = sv_user_id s"
  by (simp_all add: stored_server_def)

lemma stamped_server_keeps [simp]:
  "sv_id (stamped_server d s) = tb_next (db_servers d)" "sv_user_id (stamped_server d s) = sv_user_id s"
  by (simp_all add: stamped_server_def)

lemma stmt_create_server:
  "stmt_create q servers s d = (Inl ErrDuplicatedKey, d) \<or>
   stmt_create q servers s d = (Inr (stamped_server d s), with_server d s)"
  by (simp add: stmt_create_def Let_def server_schema_def stamped_server_def with_server_def stored_server_def rows_def)

lemma server_create_reply:
  assumes law: "model_law q servers M D V" and run: "server_create M db ctx s w = (r, w')"
  shows "V w' = V w \<and> (D w' = D w \<or> D w' = with_server (D w) s) \<and>
    (\<forall>s'. r = Inr s' \<longrightarrow> s' = stamped_server (D w) s \<and> D w' = with_server (D w) s) \<and>
    (\<forall>e. r = Inl e \<longrightarrow> e = ErrDuplicatedKey \<or> (\<exists>m. e = LibError m))"
  using model_lawD(1) [OF law] run [unfolded server_create_def]
  by (cases rule: statement_cases) (use stmt_create_server [of q s "D w"] in auto)

lemma with_server_rows [simp]:
  "rows users (with_server d s) = rows users d"
  "rows servers (with_server d s) = rows servers d @ [stored_server (stamped_server d s)]"
  "rows dsts (with_server d s) = rows dsts d" "rows tasks (with_server d s) = rows tasks d"
  by (simp_all add: with_server_def rows_def)

end
