(* ===== verification/TaskRepo.thy ===== *)
theory TaskRepo
  imports Owned
begin

text \<open>
  The task repository, \<open>src/internal/repository/task/repository.go\<close>.
\<close>

section \<open>Operations\<close>

record list_query =
  lq_page :: int
  lq_page_size :: int
  lq_type :: string
  lq_status :: string
  lq_resource_type :: string
  lq_resource_id :: u64

record ('w, 'h) task_repo =
  tp_create :: "'h ctx \<Rightarrow> task \<Rightarrow> ('w, task) go"
  tp_get_by_id :: "'h ctx \<Rightarrow> u64 \<Rightarrow> u64 \<Rightarrow> ('w, task option) go"
  tp_list :: "'h ctx \<Rightarrow> u64 \<Rightarrow> list_query \<Rightarrow> ('w, task list \<times> int) go"

definition task_create :: "('w, 'h, task) model \<Rightarrow> 'h \<Rightarrow> 'h ctx \<Rightarrow> task \<Rightarrow> ('w, task) go" where
  "task_create M db ctx t = gm_create M (get_db_from_ctx ctx db) t"

definition task_get_by_id :: "('w, 'h, task) model \<Rightarrow> 'h \<Rightarrow> 'h ctx \<Rightarrow> u64 \<Rightarrow> u64 \<Rightarrow> ('w, task option) go" where
  "task_get_by_id M db ctx uid i =
     first_or_nil (gm_first M (get_db_from_ctx ctx db) [Eq ''id'' (DUint i), Eq ''user_id'' (DUint uid)])"

text \<open>The conditions the chain of \<open>Where\<close> calls collects.\<close>

definition task_conds :: "u64 \<Rightarrow> list_query \<Rightarrow> cond list" where
  "task_conds uid q =
     [Eq ''user_id'' (DUint uid)] @
     (if lq_type q \<noteq> [] then [Eq ''type'' (DText (lq_type q))] else []) @
     (if lq_status q \<noteq> [] then [Eq ''status'' (DText (lq_status q))] else []) @
     (if lq_resource_type q \<noteq> [] then [Eq ''resource_type'' (DText (lq_resource_type q))] else []) @
     (if lq_resource_id q \<noteq> 0 then [Eq ''resource_id'' (DUint (lq_resource_id q))] else [])"

definition task_list :: "('w, 'h, task) model \<Rightarrow> 'h \<Rightarrow> 'h ctx \<Rightarrow> u64 \<Rightarrow> list_query \<Rightarrow> ('w, task list \<times> int) go" where
  "task_list M db ctx uid query =
     call (gm_count M (get_db_from_ctx ctx db) (task_conds uid query)) fail (\<lambda>total.
     call (gm_find M (get_db_from_ctx ctx db) (task_conds uid query) (Desc ''id'')
         ((lq_page query - 1) * lq_page_size query) (lq_page_size query)) fail (\<lambda>ts. ret (ts, total)))"

definition new_task_repo :: "('w, 'h, task) model \<Rightarrow> 'h \<Rightarrow> ('w, 'h) task_repo" where
  "new_task_repo M db =
     \<lparr>tp_create = task_create M db, tp_get_by_id = task_get_by_id M db, tp_list = task_list M db\<rparr>"

section \<open>Tasks on the abstract database\<close>

definition owned_tasks :: "database \<Rightarrow> u64 \<Rightarrow> task list" where
  "owned_tasks d uid = filter (\<lambda>t. tk_user_id t = uid) (rows tasks d)"

definition owned_task :: "database \<Rightarrow> u64 \<Rightarrow> u64 \<Rightarrow> task option" where
  "owned_task d uid i = find (\<lambda>t. tk_id t = i) (owned_tasks d uid)"

text \<open>What a list query asks for, an empty or zero filter meaning no filter; text is compared by the database.\<close>

definition asked_for :: "(string \<Rightarrow> string \<Rightarrow> bool) \<Rightarrow> list_query \<Rightarrow> task \<Rightarrow> bool" where
  "asked_for eq q t \<longleftrightarrow>
     (lq_type q = [] \<or> eq (tk_type t) (lq_type q)) \<and>
     (lq_status q = [] \<or> eq (tk_status t) (lq_status q)) \<and>
     (lq_resource_type q = [] \<or> eq (tk_resource_type t) (lq_resource_type q)) \<and>
     (lq_resource_id q = 0 \<or> tk_resource_id t = lq_resource_id q)"

lemma matching_task [simp]:
  "matching q d tasks [Eq ''id'' (DUint i), Eq ''user_id'' (DUint uid)] = (\<lambda>t. tk_id t = i \<and> tk_user_id t = uid)"
  by (simp add: matching_def task_schema_def task_column_def fun_eq_iff)

lemma matching_task_conds: "matching q d tasks (task_conds uid lq) = (\<lambda>t. tk_user_id t = uid \<and> asked_for (sq_text_eq q) lq t)"
  by (auto simp: matching_def task_conds_def asked_for_def task_schema_def task_column_def fun_eq_iff)

lemma select_task_conds: "filter (matching q d tasks (task_conds uid lq)) (rows tasks d) =
    filter (asked_for (sq_text_eq q) lq) (owned_tasks d uid)"
  by (auto simp: matching_task_conds owned_tasks_def intro: filter_cong)

lemma lookup_task: "lookup q d tasks [Eq ''id'' (DUint i), Eq ''user_id'' (DUint uid)] = owned_task d uid i"
  by (simp add: lookup_def select_def owned_task_def owned_tasks_def find_filter_list)

lemma task_get_reply:
  assumes "model_law q tasks M D V" and "task_get_by_id M db ctx uid i w = (r, w')"
  shows "D w' = D w \<and> V w' = V w \<and> (r = Inr (owned_task (D w) uid i) \<or> (\<exists>m. r = Inl (LibError m)))"
  using first_or_nil_reply [OF model_lawD(2) [OF assms(1)] assms(2) [unfolded task_get_by_id_def]]
  by (simp add: lookup_task)

lemma task_list_reply:
  assumes law: "model_law q tasks M D V" and run: "task_list M db ctx uid lq w = (r, w')"
  shows "D w' = D w \<and> V w' = V w \<and>
    (r = Inr (page_of (lq_page lq) (lq_page_size lq)
         (in_order tasks (Desc ''id'') (filter (asked_for (sq_text_eq q) lq) (owned_tasks (D w) uid))),
       int (length (filter (asked_for (sq_text_eq q) lq) (owned_tasks (D w) uid)))) \<or> (\<exists>m. r = Inl (LibError m)))"
proof -
  obtain r1 w1 where c: "gm_count M (get_db_from_ctx ctx db) (task_conds uid lq) w = (r1, w1)" by fastforce
  obtain r2 w2 where f: "gm_find M (get_db_from_ctx ctx db) (task_conds uid lq) (Desc ''id'')
      ((lq_page lq - 1) * lq_page_size lq) (lq_page_size lq) w1 = (r2, w2)" by fastforce
  note cv = read_reply [OF model_lawD(3) [OF law] reads_count c]
    and fv = read_reply [OF model_lawD(4) [OF law] reads_find f]
  have "(r, w') = (case r1 of Inl e \<Rightarrow> (Inl e, w1)
    | Inr n \<Rightarrow> (case r2 of Inl e \<Rightarrow> (Inl e, w2) | Inr ts \<Rightarrow> (Inr (ts, n), w2)))"
    using run c f by (cases r1; cases r2) (auto simp: task_list_def)
  then show ?thesis
    using cv fv by (cases r1; cases r2) (auto simp: stmt_count_def stmt_find_def select_task_conds page_of_def)
qed

section \<open>Creating a task\<close>

definition stamped_task :: "database \<Rightarrow> task \<Rightarrow> task" where
  "stamped_task d t =
     t\<lparr>tk_id := tb_next (db_tasks d), tk_created_at := db_now d, tk_updated_at := db_now d,
       tk_status := if tk_status t = [] then TaskStatusPending else tk_status t\<rparr>"

definition with_task :: "database \<Rightarrow> task \<Rightarrow> database" where
  "with_task d t = d\<lparr>db_tasks := \<lparr>tb_rows = rows tasks d @ [stamped_task d t], tb_next = tb_next (db_tasks d) + 1\<rparr>\<rparr>"

lemma stmt_create_task:
  "stmt_create q tasks t d = (Inl ErrDuplicatedKey, d) \<or>
   stmt_create q tasks t d = (Inr (stamped_task d t), with_task d t)"
  by (simp add: stmt_create_def Let_def task_schema_def stamped_task_def with_task_def rows_def)

lemma task_create_reply:
  assumes law: "model_law q tasks M D V" and run: "task_create M db ctx t w = (r, w')"
  shows "V w' = V w \<and> (D w' = D w \<or> D w' = with_task (D w) t) \<and>
    (\<forall>t'. r = Inr t' \<longrightarrow> t' = stamped_task (D w) t \<and> D w' = with_task (D w) t) \<and>
    (\<forall>e. r = Inl e \<longrightarrow> e = ErrDuplicatedKey \<or> (\<exists>m. e = LibError m))"
  using model_lawD(1) [OF law] run [unfolded task_create_def]
  by (cases rule: statement_cases) (use stmt_create_task [of q t "D w"] in auto)

lemma with_task_rows [simp]:
  "rows users (with_task d t) = rows users d" "rows servers (with_task d t) = rows servers d"
  "rows dsts (with_task d t) = rows dsts d" "rows tasks (with_task d t) = rows tasks d @ [stamped_task d t]"
  by (simp_all add: with_task_def rows_def)

end
