(* ===== verification/NetAddr.thy ===== *)
theory NetAddr
  imports GoStrings
begin

text \<open>
  IP addresses as the standard library's \<open>net/netip\<close> reads and writes them: \<open>ParseAddr\<close>, \<open>Addr.Unmap\<close> and
  \<open>Addr.String\<close>, of which the server service makes the address it stores. An IPv6 address is its eight groups
  of sixteen bits and its zone.
\<close>

datatype addr = Addr4 "nat list" | Addr6 "nat list" string

fun addr_ok :: "addr \<Rightarrow> bool" where
  "addr_ok (Addr4 fs) \<longleftrightarrow> length fs = 4 \<and> list_all (\<lambda>b. b \<le> 255) fs"
| "addr_ok (Addr6 gs z) \<longleftrightarrow> length gs = 8 \<and> list_all (\<lambda>g. g \<le> 65535) gs"

section \<open>Parsing\<close>

text \<open>
  \<open>parseIPv4Fields\<close>: \<open>start\<close> says that no character precedes or that the last one was a dot, \<open>n\<close> counts the
  digits of the current field.
\<close>

fun ipv4_fields :: "bool \<Rightarrow> nat \<Rightarrow> nat \<Rightarrow> nat list \<Rightarrow> string \<Rightarrow> nat list option" where
  "ipv4_fields start val n fs [] = (if length fs < 3 then None else Some (fs @ [val]))"
| "ipv4_fields start val n fs (c # cs) =
     (if is_digit c then
        if n = 1 \<and> val = 0 then None
        else if 255 < val * 10 + digit_val c then None
        else ipv4_fields False (val * 10 + digit_val c) (n + 1) fs cs
      else if c = CHR ''.'' then
        if start \<or> cs = [] then None
        else if length fs = 3 then None
        else ipv4_fields True 0 0 (fs @ [val]) cs
      else None)"

definition parse_ipv4 :: "string \<Rightarrow> addr option" where
  "parse_ipv4 s = map_option Addr4 (ipv4_fields True 0 0 [] s)"

text \<open>The digits of one group: their number, their value and what follows.\<close>

fun hex_group :: "nat \<Rightarrow> nat \<Rightarrow> string \<Rightarrow> (nat \<times> nat \<times> string) option" where
  "hex_group off acc [] = Some (off, acc, [])"
| "hex_group off acc (c # cs) =
     (case hex_val c of
        None \<Rightarrow> Some (off, acc, c # cs)
      | Some d \<Rightarrow>
          if 3 < off then None
          else if 65535 < acc * 16 + d then None
          else hex_group (off + 1) (acc * 16 + d) cs)"

text \<open>The loop of \<open>parseIPv6\<close>: the groups so far, where the ellipsis stands among them, and the rest.\<close>

function ipv6_groups ::
    "nat list \<Rightarrow> nat option \<Rightarrow> string \<Rightarrow> (nat list \<times> nat option \<times> string) option" where
  "ipv6_groups gs ell s =
     (if 8 \<le> length gs then Some (gs, ell, s)
      else
        case hex_group 0 0 s of
          None \<Rightarrow> None
        | Some (off, acc, rest) \<Rightarrow>
            if off = 0 then None
            else
              (case rest of
                 [] \<Rightarrow> Some (gs @ [acc], ell, [])
               | c # more \<Rightarrow>
                  if c = CHR ''.'' then
                    if ell = None \<and> length gs \<noteq> 6 then None
                    else if 8 < length gs + 2 then None
                    else
                      (case ipv4_fields True 0 0 [] s of
                         None \<Rightarrow> None
                       | Some fs \<Rightarrow> Some (gs @ [fs ! 0 * 256 + fs ! 1, fs ! 2 * 256 + fs ! 3], ell, []))
                  else if c \<noteq> CHR '':'' then None
                  else
                    (case more of
                       [] \<Rightarrow> None
                     | c' # more' \<Rightarrow>
                         if c' = CHR '':'' then
                           if ell \<noteq> None then None
                           else if more' = [] then Some (gs @ [acc], Some (length gs + 1), [])
                           else ipv6_groups (gs @ [acc]) (Some (length gs + 1)) more'
                         else ipv6_groups (gs @ [acc]) ell more)))"
  by pat_completeness auto
termination by (relation "measure (\<lambda>(gs, ell, s). 8 - length gs)") auto

declare ipv6_groups.simps [simp del]

text \<open>Expanding the ellipsis.\<close>

definition expand :: "nat list \<Rightarrow> nat option \<Rightarrow> nat list option" where
  "expand gs ell =
     (if length gs < 8 then
        case ell of None \<Rightarrow> None | Some e \<Rightarrow> Some (take e gs @ replicate (8 - length gs) 0 @ drop e gs)
      else if ell \<noteq> None then None
      else Some gs)"

definition finish_ipv6 :: "string \<Rightarrow> (nat list \<times> nat option \<times> string) option \<Rightarrow> addr option" where
  "finish_ipv6 zone res =
     (case res of
        None \<Rightarrow> None
      | Some (gs, ell, rest) \<Rightarrow> if rest \<noteq> [] then None else map_option (\<lambda>gs. Addr6 gs zone) (expand gs ell))"

definition parse_ipv6_body :: "string \<Rightarrow> string \<Rightarrow> addr option" where
  "parse_ipv6_body zone s =
     (if has_prefix s ''::'' then
        if s = ''::'' then Some (Addr6 (replicate 8 0) zone)
        else finish_ipv6 zone (ipv6_groups [] (Some 0) (drop 2 s))
      else finish_ipv6 zone (ipv6_groups [] None s))"

definition parse_ipv6 :: "string \<Rightarrow> addr option" where
  "parse_ipv6 s =
     (case dropWhile (\<lambda>c. c \<noteq> CHR ''%'') s of
        [] \<Rightarrow> parse_ipv6_body [] s
      | _ # zone \<Rightarrow> if zone = [] then None else parse_ipv6_body zone (takeWhile (\<lambda>c. c \<noteq> CHR ''%'') s))"

fun parse_by_first :: "string \<Rightarrow> string \<Rightarrow> addr option" where
  "parse_by_first s [] = None"
| "parse_by_first s (c # cs) =
     (if c = CHR ''.'' then parse_ipv4 s
      else if c = CHR '':'' then parse_ipv6 s
      else if c = CHR ''%'' then None
      else parse_by_first s cs)"

definition parse_addr :: "string \<Rightarrow> addr option" where
  "parse_addr s = parse_by_first s s"

section \<open>Unmapping and printing\<close>

fun is4in6 :: "addr \<Rightarrow> bool" where
  "is4in6 (Addr4 fs) \<longleftrightarrow> False"
| "is4in6 (Addr6 gs z) \<longleftrightarrow> take 6 gs = [0, 0, 0, 0, 0, 65535]"

fun unmap :: "addr \<Rightarrow> addr" where
  "unmap (Addr4 fs) = Addr4 fs"
| "unmap (Addr6 gs z) =
     (if is4in6 (Addr6 gs z) then Addr4 [gs ! 6 div 256, gs ! 6 mod 256, gs ! 7 div 256, gs ! 7 mod 256]
      else Addr6 gs z)"

fun join :: "string \<Rightarrow> string list \<Rightarrow> string" where
  "join sep [] = []"
| "join sep [x] = x"
| "join sep (x # y # xs) = x @ sep @ join sep (y # xs)"

definition show_ipv4 :: "nat list \<Rightarrow> string" where
  "show_ipv4 fs = join ''.'' (map show_nat fs)"

fun show_hex :: "nat \<Rightarrow> string" where
  "show_hex n = (if n < 16 then [hex_digit n] else show_hex (n div 16) @ [hex_digit (n mod 16)])"

declare show_hex.simps [simp del]

text \<open>The first longest run of at least two zero groups.\<close>

definition longer_run :: "nat list \<Rightarrow> nat \<Rightarrow> nat \<times> nat \<Rightarrow> nat \<times> nat" where
  "longer_run gs i = (\<lambda>(zs, ze).
     let l = length (takeWhile (\<lambda>g. g = 0) (drop i gs)) in if 2 \<le> l \<and> ze - zs < l then (i, i + l) else (zs, ze))"

definition zero_run :: "nat list \<Rightarrow> nat \<times> nat" where
  "zero_run gs = fold (longer_run gs) [0..<8] (255, 255)"

function show_groups :: "nat list \<Rightarrow> nat \<Rightarrow> nat \<Rightarrow> nat \<Rightarrow> string" where
  "show_groups gs zs ze i =
     (if 8 \<le> i then []
      else if i = zs then
        ''::'' @ (if 8 \<le> ze \<or> ze < i then [] else show_hex (gs ! ze) @ show_groups gs zs ze (ze + 1))
      else (if 0 < i then '':'' else []) @ show_hex (gs ! i) @ show_groups gs zs ze (i + 1))"
  by pat_completeness auto
termination by (relation "measure (\<lambda>(gs, zs, ze, i). 8 - i)") auto

declare show_groups.simps [simp del]

definition show_ipv6 :: "nat list \<Rightarrow> string \<Rightarrow> string" where
  "show_ipv6 gs z =
     (case zero_run gs of (zs, ze) \<Rightarrow> show_groups gs zs ze 0) @ (if z \<noteq> [] then ''%'' @ z else [])"

fun show_addr :: "addr \<Rightarrow> string" where
  "show_addr (Addr4 fs) = show_ipv4 fs"
| "show_addr (Addr6 gs z) =
     (if is4in6 (Addr6 gs z) then
        (case unmap (Addr6 gs z) of
           Addr4 fs \<Rightarrow> ''::ffff:'' @ show_ipv4 fs @ (if z \<noteq> [] then ''%'' @ z else [])
         | Addr6 _ _ \<Rightarrow> [])
      else show_ipv6 gs z)"

definition canonical_ip :: "string \<Rightarrow> string option" where
  "canonical_ip s = map_option (\<lambda>a. show_addr (unmap a)) (parse_addr s)"
section \<open>Only well-formed addresses\<close>

lemma ipv4_fields_ok:
  "ipv4_fields start val n fs s = Some fs' \<Longrightarrow> length fs \<le> 3 \<Longrightarrow> val \<le> 255 \<Longrightarrow> list_all (\<lambda>b. b \<le> 255) fs \<Longrightarrow>
   length fs' = 4 \<and> list_all (\<lambda>b. b \<le> 255) fs'"
  by (induction start val n fs s rule: ipv4_fields.induct) (auto split: if_splits)

lemma hex_group_ok: "hex_group off acc s = Some (off', acc', rest) \<Longrightarrow> acc \<le> 65535 \<Longrightarrow> acc' \<le> 65535"
  by (induction off acc s rule: hex_group.induct) (auto split: option.splits if_splits)

lemma ipv4_groups_ok:
  assumes "ipv4_fields True 0 0 [] s = Some fs"
  shows "fs ! 0 * 256 + fs ! 1 \<le> 65535 \<and> fs ! 2 * 256 + fs ! 3 \<le> 65535"
proof -
  have fs: "length fs = 4" "\<forall>b\<in>set fs. b \<le> 255" using ipv4_fields_ok [OF assms] by (simp_all add: list_all_iff)
  then have b: "fs ! 0 \<le> 255" "fs ! 1 \<le> 255" "fs ! 2 \<le> 255" "fs ! 3 \<le> 255" by simp_all
  then show ?thesis by linarith
qed

definition groups_ok :: "nat list \<times> nat option \<times> string \<Rightarrow> bool" where
  "groups_ok = (\<lambda>(gs, ell, rest). length gs \<le> 8 \<and> list_all (\<lambda>g. g \<le> 65535) gs \<and>
     (\<forall>e. ell = Some e \<longrightarrow> e \<le> length gs))"

lemma ipv6_groups_ok:
  "ipv6_groups gs ell s = Some res \<Longrightarrow> groups_ok (gs, ell, s) \<Longrightarrow> groups_ok res"
proof (induction gs ell s arbitrary: res rule: ipv6_groups.induct)
  case (1 gs ell s)
  show ?case
  proof (cases "8 \<le> length gs")
    case True
    with 1(3,4) show ?thesis by (auto simp: ipv6_groups.simps [of gs ell s])
  next
    case False
    with 1(3) obtain off acc rest where g: "hex_group 0 0 s = Some (off, acc, rest)"
      by (cases "hex_group 0 0 s") (auto simp: ipv6_groups.simps [of gs ell s])
    have off: "off \<noteq> 0"
    proof
      assume "off = 0"
      with 1(3) False g show False by (simp add: ipv6_groups.simps [of gs ell s])
    qed
    have acc: "acc \<le> 65535" by (rule hex_group_ok [OF g]) simp
    have step: "groups_ok (gs @ [acc], ell, t)" "groups_ok (gs @ [acc], Some (length gs + 1), t)" for t
      using 1(4) acc False by (auto simp: groups_ok_def le_SucI)
    note IH = 1(1,2) [OF False g refl refl off]
    show ?thesis
    proof (cases rest)
      case Nil
      with 1(3) False g off step show ?thesis by (auto simp: ipv6_groups.simps [of gs ell s])
    next
      case (Cons c more)
      show ?thesis
      proof (cases "c = CHR ''.''")
        case True
        with 1(3,4) False g off Cons show ?thesis
          by (auto simp: ipv6_groups.simps [of gs ell s] groups_ok_def le_SucI split: option.splits if_splits
              dest!: ipv4_groups_ok)
      next
        case dot: False
        show ?thesis
        proof (cases more)
          case Nil
          with 1(3) False g off Cons dot show ?thesis
            by (auto simp: ipv6_groups.simps [of gs ell s] split: if_splits)
        next
          case more: (Cons c' more')
          have "c = CHR '':''" using 1(3) False g off Cons dot more
            by (auto simp: ipv6_groups.simps [of gs ell s] split: if_splits)
          with 1(3) False g off Cons dot more step show ?thesis
            by (auto simp: ipv6_groups.simps [of gs ell s] split: if_splits
                intro: IH(1) [OF Cons dot _ more] IH(2) [OF Cons dot _ more])
        qed
      qed
    qed
  qed
qed

lemma finish_ipv6_ok:
  assumes "finish_ipv6 zone (ipv6_groups [] ell s) = Some a" and "ell = None \<or> ell = Some 0"
  shows "addr_ok a"
proof -
  obtain gs ell' where g: "ipv6_groups [] ell s = Some (gs, ell', [])" and a: "map_option (\<lambda>gs. Addr6 gs zone) (expand gs ell') = Some a"
    using assms(1) by (auto simp: finish_ipv6_def split: option.splits if_splits)
  have "groups_ok (gs, ell', [])"
    by (rule ipv6_groups_ok [OF g]) (use assms(2) in \<open>auto simp: groups_ok_def\<close>)
  with a show ?thesis
    by (fastforce simp: groups_ok_def expand_def list_all_iff split: if_splits option.splits
        dest: in_set_takeD in_set_dropD)
qed

lemma parse_ipv6_body_ok: "parse_ipv6_body zone s = Some a \<Longrightarrow> addr_ok a"
  by (auto simp: parse_ipv6_body_def list_all_iff split: if_splits dest: finish_ipv6_ok)

lemma parse_by_first_ok: "parse_by_first s t = Some a \<Longrightarrow> addr_ok a"
  by (induction t)
    (auto simp: parse_ipv4_def parse_ipv6_def split: if_splits list.splits dest: parse_ipv6_body_ok ipv4_fields_ok)

lemma parse_addr_ok: "parse_addr s = Some a \<Longrightarrow> addr_ok a"
  by (simp add: parse_addr_def parse_by_first_ok)

lemma unmap_ok:
  assumes "addr_ok a"
  shows "addr_ok (unmap a) \<and> \<not> is4in6 (unmap a)"
proof (cases a)
  case (Addr6 gs z)
  have "g div 256 \<le> 255 \<and> g mod 256 \<le> 255" if "g \<le> 65535" for g :: nat
    using that div_le_mono [OF that, of 256] mod_less_divisor [of 256 g] by linarith
  with assms Addr6 show ?thesis by (auto simp: list_all_iff)
qed (use assms in simp)
section \<open>Printing and parsing\<close>

subsection \<open>Fields of an IPv4 address\<close>

lemma digit_chars:
  "d < 10 \<Longrightarrow> is_digit (char_of (48 + d))" "d < 10 \<Longrightarrow> digit_val (char_of (48 + d)) = d"
  using digit_char by blast+

lemma show_nat_step: "d < 10 \<Longrightarrow> n \<noteq> 0 \<Longrightarrow> show_nat (n * 10 + d) = show_nat n @ [char_of (48 + d)]"
  by (subst show_nat.simps) simp

lemma show_nat_digit: "d < 10 \<Longrightarrow> show_nat d = [char_of (48 + d)]"
  by (subst show_nat.simps) simp

lemma field_digits:
  assumes "n \<le> 255"
  shows "\<exists>m. ipv4_fields start 0 0 fs (show_nat n @ rest) = ipv4_fields False n m fs rest"
proof -
  define a b c where d: "a = n div 10 div 10" "b = n div 10 mod 10" "c = n mod 10"
  have n: "n = (a * 10 + b) * 10 + c" unfolding d by (simp only: div_mult_mod_eq)
  then have flat: "n = a * 100 + b * 10 + c" by simp
  have lt: "a < 10" using flat assms by linarith
  have lt: "a < 10" "b < 10" "c < 10" using lt unfolding d(2,3) by simp_all
  have pre: "a * 10 + b \<le> 255" using flat assms by linarith
  show ?thesis
  proof (cases "a = 0")
    case True
    then show ?thesis
      using n lt assms by (cases "b = 0") (auto simp: show_nat_step show_nat_digit digit_chars)
  next
    case False
    then have "show_nat n = [char_of (48 + a), char_of (48 + b), char_of (48 + c)]"
      unfolding n using lt by (simp add: show_nat_step show_nat_digit del: distrib_right_numeral)
    with False n lt assms pre show ?thesis by (auto simp: digit_chars)
  qed
qed

lemma dot_not_digit: "\<not> is_digit (CHR ''.'')"
  by (simp add: is_digit_def)

lemma field_dot:
  assumes "n \<le> 255" and "length fs < 3" and "rest \<noteq> []"
  shows "ipv4_fields True 0 0 fs (show_nat n @ CHR ''.'' # rest) = ipv4_fields True 0 0 (fs @ [n]) rest"
proof -
  obtain m where "ipv4_fields True 0 0 fs (show_nat n @ CHR ''.'' # rest) = ipv4_fields False n m fs (CHR ''.'' # rest)"
    using field_digits [OF assms(1)] by blast
  with assms(2,3) show ?thesis by (simp add: dot_not_digit)
qed

lemma field_last:
  assumes "n \<le> 255" and "length fs = 3"
  shows "ipv4_fields True 0 0 fs (show_nat n) = Some (fs @ [n])"
  using field_digits [OF assms(1), of True fs "[]"] assms(2) by auto

lemma parse_show_ipv4:
  assumes "addr_ok (Addr4 fs)"
  shows "ipv4_fields True 0 0 [] (show_ipv4 fs) = Some fs"
proof -
  obtain a b c d where fs: "fs = [a, b, c, d]"
    using assms by (auto simp: numeral_eq_Suc length_Suc_conv)
  have ne: "show_nat n \<noteq> []" for n using show_nat_digits by blast
  from assms show ?thesis
    by (simp add: fs show_ipv4_def field_dot field_last ne)
qed

lemma first_dot:
  "list_all is_digit ds \<Longrightarrow> parse_by_first s (ds @ CHR ''.'' # t) = parse_ipv4 s"
  by (induction ds) (auto simp: is_digit_def)

lemma parse_addr_show4:
  assumes "addr_ok (Addr4 fs)"
  shows "parse_addr (show_ipv4 fs) = Some (Addr4 fs)"
proof -
  obtain a b c d where fs: "fs = [a, b, c, d]"
    using assms by (auto simp: numeral_eq_Suc length_Suc_conv)
  have "parse_addr (show_ipv4 fs) = parse_ipv4 (show_ipv4 fs)"
    using show_nat_digits [of a] unfolding parse_addr_def by (simp add: fs show_ipv4_def first_dot)
  then show ?thesis by (simp add: parse_ipv4_def parse_show_ipv4 [OF assms])
qed

subsection \<open>Groups of an IPv6 address\<close>

lemma hex_digit_not: "d < 16 \<Longrightarrow> hex_digit d \<noteq> CHR '':'' \<and> hex_digit d \<noteq> CHR ''.'' \<and> hex_digit d \<noteq> CHR ''%''"
  using hex_val_digit [of d] by (auto simp: hex_val_def in_range_def is_digit_def split: if_splits)

lemma show_hex_chars: "set (show_hex n) \<subseteq> hex_digit ` {..<16} \<and> show_hex n \<noteq> []"
proof (induction n rule: show_hex.induct)
  case (1 n)
  show ?case
  proof (cases "n < 16")
    case True
    then show ?thesis by (subst (1 2) show_hex.simps) simp
  next
    case False
    have "hex_digit (n mod 16) \<in> hex_digit ` {..<16}" by (rule imageI) simp
    with 1 False show ?thesis by (subst (1 2) show_hex.simps) simp
  qed
qed

lemma show_hex_not: "c \<in> set (show_hex n) \<Longrightarrow> c \<noteq> CHR '':'' \<and> c \<noteq> CHR ''.'' \<and> c \<noteq> CHR ''%''"
proof -
  assume "c \<in> set (show_hex n)"
  with show_hex_chars [of n] have "c \<in> hex_digit ` {..<16}" by (rule subsetD [OF conjunct1])
  then obtain d where "d < 16" "c = hex_digit d" by (elim imageE) simp
  with hex_digit_not [of d] show ?thesis by simp
qed

lemma show_hex_ne [simp]: "show_hex n \<noteq> []"
  using show_hex_chars by blast

text \<open>What may follow a group.\<close>

definition ends_group :: "string \<Rightarrow> bool" where
  "ends_group s \<longleftrightarrow> s = [] \<or> hex_val (hd s) = None"

lemma hex_group_end: "ends_group rest \<Longrightarrow> hex_group off acc rest = Some (off, acc, rest)"
  by (cases rest) (auto simp: ends_group_def)

lemma show_hex_step: "d < 16 \<Longrightarrow> n \<noteq> 0 \<Longrightarrow> show_hex (n * 16 + d) = show_hex n @ [hex_digit d]"
  by (subst show_hex.simps) simp

lemma show_hex_digit: "d < 16 \<Longrightarrow> show_hex d = [hex_digit d]"
  by (subst show_hex.simps) simp

lemma hex_group_step:
  "d < 16 \<Longrightarrow> off \<le> 3 \<Longrightarrow> acc * 16 + d \<le> 65535 \<Longrightarrow>
   hex_group off acc (hex_digit d # rest) = hex_group (off + 1) (acc * 16 + d) rest"
  by (simp add: hex_val_digit)

lemma hex_group_show:
  assumes "g \<le> 65535" and "ends_group rest"
  shows "\<exists>off. off \<noteq> 0 \<and> hex_group 0 0 (show_hex g @ rest) = Some (off, g, rest)"
proof -
  define a b c d where abcd: "a = g div 16 div 16 div 16" "b = g div 16 div 16 mod 16" "c = g div 16 mod 16" "d = g mod 16"
  have g: "g = ((a * 16 + b) * 16 + c) * 16 + d" unfolding abcd by (simp only: div_mult_mod_eq)
  then have flat: "g = a * 4096 + b * 256 + c * 16 + d" by simp
  have lt: "a < 16" using flat assms(1) by linarith
  have lt: "a < 16" "b < 16" "c < 16" "d < 16" using lt unfolding abcd(2,3,4) by simp_all
  have le: "a * 16 + b \<le> 65535" "(a * 16 + b) * 16 + c \<le> 65535" "a \<le> 65535" "b \<le> 65535" "c \<le> 65535" "d \<le> 65535"
    "b * 16 + c \<le> 65535" "(b * 16 + c) * 16 + d \<le> 65535" "c * 16 + d \<le> 65535"
    using flat assms(1) by (simp_all add: algebra_simps)
  consider "a \<noteq> 0" | "a = 0" "b \<noteq> 0" | "a = 0" "b = 0" "c \<noteq> 0" | "a = 0" "b = 0" "c = 0" by blast
  then show ?thesis
  proof cases
    case 1
    then have "show_hex g = [hex_digit a, hex_digit b, hex_digit c, hex_digit d]"
      unfolding g using lt by (simp add: show_hex_step show_hex_digit del: distrib_right_numeral)
    with g lt le assms(1) show ?thesis by (simp add: hex_group_step hex_group_end [OF assms(2)] del: hex_group.simps)
  next
    case 2
    then have "show_hex g = [hex_digit b, hex_digit c, hex_digit d]"
      unfolding g using lt by (simp add: show_hex_step show_hex_digit del: distrib_right_numeral)
    with 2 g lt le assms(1) show ?thesis by (simp add: hex_group_step hex_group_end [OF assms(2)] del: hex_group.simps)
  next
    case 3
    then have "show_hex g = [hex_digit c, hex_digit d]"
      unfolding g using lt by (simp add: show_hex_step show_hex_digit del: distrib_right_numeral)
    with 3 g lt le assms(1) show ?thesis by (simp add: hex_group_step hex_group_end [OF assms(2)] del: hex_group.simps)
  next
    case 4
    then have "show_hex g = [hex_digit d]"
      unfolding g using lt by (simp add: show_hex_step show_hex_digit del: distrib_right_numeral)
    with 4 g lt le assms(1) show ?thesis by (simp add: hex_group_step hex_group_end [OF assms(2)] del: hex_group.simps)
  qed
qed
subsection \<open>The loop over the groups\<close>

definition hex_list :: "nat list \<Rightarrow> string" where
  "hex_list gs = join '':'' (map show_hex gs)"

lemma ends_group_colon [simp]: "ends_group (CHR '':'' # s)" "ends_group []"
  by (simp_all add: ends_group_def hex_val_def in_range_def is_digit_def)

lemma hex_list_Cons: "hex_list (g # gs) = show_hex g @ (if gs = [] then [] else CHR '':'' # hex_list gs)"
  by (cases gs) (simp_all add: hex_list_def)

lemma hex_list_Nil [simp]: "hex_list [] = []"
  by (simp add: hex_list_def)

lemma hex_list_single [simp]: "hex_list [g] = show_hex g"
  by (simp add: hex_list_def)

lemma hex_list_Nil_iff: "hex_list gs = [] \<longleftrightarrow> gs = []"
  by (cases gs) (simp_all add: hex_list_Cons)

lemma hex_list_front:
  "gs \<noteq> [] \<Longrightarrow> \<exists>c cs. hex_list gs = c # cs \<and> c \<noteq> CHR '':''"
proof -
  assume "gs \<noteq> []"
  then obtain g gs' where gs: "gs = g # gs'" by (cases gs) auto
  obtain c cs where c: "show_hex g = c # cs" by (cases "show_hex g") auto
  then have "c \<noteq> CHR '':''" using show_hex_not [of c g] by simp
  with gs c show ?thesis by (simp add: hex_list_Cons)
qed

lemma groups_end:
  assumes "length gs < 8" and "g \<le> 65535"
  shows "ipv6_groups gs ell (show_hex g) = Some (gs @ [g], ell, [])"
proof -
  obtain off where "off \<noteq> 0" "hex_group 0 0 (show_hex g) = Some (off, g, [])"
    using hex_group_show [OF assms(2), of "[]"] by auto
  with assms(1) show ?thesis by (simp add: ipv6_groups.simps [of gs ell])
qed

lemma groups_colon:
  assumes "length gs < 8" and "g \<le> 65535" and "c \<noteq> CHR '':''"
  shows "ipv6_groups gs ell (show_hex g @ CHR '':'' # c # cs) = ipv6_groups (gs @ [g]) ell (c # cs)"
proof -
  obtain off where "off \<noteq> 0" "hex_group 0 0 (show_hex g @ CHR '':'' # c # cs) = Some (off, g, CHR '':'' # c # cs)"
    using hex_group_show [OF assms(2), of "CHR '':'' # c # cs"] by auto
  with assms(1,3) show ?thesis by (simp add: ipv6_groups.simps [of gs ell])
qed

lemma groups_ellipsis:
  assumes "length gs < 8" and "g \<le> 65535"
  shows "ipv6_groups gs None (show_hex g @ CHR '':'' # CHR '':'' # t) =
    (if t = [] then Some (gs @ [g], Some (length gs + 1), []) else ipv6_groups (gs @ [g]) (Some (length gs + 1)) t)"
proof -
  obtain off where "off \<noteq> 0" "hex_group 0 0 (show_hex g @ CHR '':'' # CHR '':'' # t) = Some (off, g, CHR '':'' # CHR '':'' # t)"
    using hex_group_show [OF assms(2), of "CHR '':'' # CHR '':'' # t"] by auto
  with assms(1) show ?thesis by (simp add: ipv6_groups.simps [of gs None])
qed

lemma groups_list:
  "hs \<noteq> [] \<Longrightarrow> length gs + length hs \<le> 8 \<Longrightarrow> list_all (\<lambda>g. g \<le> 65535) hs \<Longrightarrow>
   ipv6_groups gs ell (hex_list hs) = Some (gs @ hs, ell, [])"
proof (induction hs arbitrary: gs)
  case (Cons g hs)
  show ?case
  proof (cases "hs = []")
    case True
    with Cons show ?thesis by (simp add: groups_end)
  next
    case False
    from hex_list_front [OF this] obtain c cs where "hex_list hs = c # cs" "c \<noteq> CHR '':''" by blast
    with Cons False show ?thesis by (simp add: hex_list_Cons groups_colon)
  qed
qed simp

lemma groups_list_ellipsis:
  "hs \<noteq> [] \<Longrightarrow> length gs + length hs \<le> 8 \<Longrightarrow> list_all (\<lambda>g. g \<le> 65535) hs \<Longrightarrow>
   ipv6_groups gs None (hex_list hs @ ''::'' @ t) =
     (if t = [] then Some (gs @ hs, Some (length gs + length hs), [])
      else ipv6_groups (gs @ hs) (Some (length gs + length hs)) t)"
proof (induction hs arbitrary: gs)
  case (Cons g hs)
  show ?case
  proof (cases "hs = []")
    case True
    with Cons show ?thesis by (simp add: groups_ellipsis)
  next
    case False
    from hex_list_front [OF this] obtain c cs where "hex_list hs = c # cs" "c \<noteq> CHR '':''" by blast
    with Cons False show ?thesis
      using Cons.IH [of "gs @ [g]"] by (simp add: hex_list_Cons groups_colon)
  qed
qed simp

subsection \<open>The zero run\<close>

definition run_ok :: "nat list \<Rightarrow> nat \<times> nat \<Rightarrow> bool" where
  "run_ok gs = (\<lambda>(zs, ze). (zs, ze) = (255, 255) \<or>
     zs + 2 \<le> ze \<and> ze \<le> length gs \<and> take (ze - zs) (drop zs gs) = replicate (ze - zs) 0)"

lemma takeWhile_zeros: "takeWhile (\<lambda>g. g = 0) xs = replicate (length (takeWhile (\<lambda>g. g = 0) xs)) (0 :: nat)"
  by (induction xs) auto

lemma longer_run_ok: "i < length gs \<Longrightarrow> run_ok gs z \<Longrightarrow> run_ok gs (longer_run gs i z)"
proof -
  assume i: "i < length gs" and ok: "run_ok gs z"
  let ?t = "takeWhile (\<lambda>g. g = 0) (drop i gs)"
  have "take (length ?t) (drop i gs) = replicate (length ?t) 0"
    using takeWhile_zeros [of "drop i gs"] by (metis takeWhile_eq_take)
  moreover have "length ?t \<le> length gs - i"
    using length_takeWhile_le [of "\<lambda>g. g = 0" "drop i gs"] by simp
  ultimately show ?thesis using i ok by (cases z) (auto simp: run_ok_def longer_run_def Let_def)
qed

lemma zero_run_ok: "length gs = 8 \<Longrightarrow> run_ok gs (zero_run gs)"
proof -
  assume len: "length gs = 8"
  have "run_ok gs (fold (longer_run gs) is z)" if "run_ok gs z" "\<forall>i\<in>set is. i < 8" for "is" z
    using that by (induction "is" arbitrary: z) (simp_all add: longer_run_ok len)
  then show ?thesis unfolding zero_run_def by (simp add: run_ok_def)
qed

subsection \<open>What is printed\<close>

lemma show_groups_rest:
  "length gs = 8 \<Longrightarrow> zs < i \<or> 8 \<le> zs \<Longrightarrow> i < 8 \<Longrightarrow>
   show_groups gs zs ze i = (if 0 < i then '':'' else []) @ hex_list (drop i gs)"
proof (induction gs zs ze i rule: show_groups.induct)
  case (1 gs zs ze i)
  have d: "drop i gs = gs ! i # drop (i + 1) gs" using 1(3,5) by (simp add: Cons_nth_drop_Suc)
  show ?case
  proof (cases "i + 1 < 8")
    case True
    then have "drop (i + 1) gs \<noteq> []" using 1(3) by simp
    with 1 True show ?thesis unfolding d by (subst show_groups.simps) (auto simp: hex_list_Cons)
  next
    case False
    then have "drop (i + 1) gs = []" using 1(3) by simp
    with 1 False show ?thesis unfolding d
      by (subst show_groups.simps) (auto simp: show_groups.simps [of gs zs ze "Suc i"])
  qed
qed

lemma show_groups_run:
  "length gs = 8 \<Longrightarrow> i \<le> zs \<Longrightarrow> zs < ze \<Longrightarrow> ze \<le> 8 \<Longrightarrow>
   show_groups gs zs ze i =
     (if 0 < i \<and> i < zs then '':'' else []) @ hex_list (take (zs - i) (drop i gs)) @ ''::'' @ hex_list (drop ze gs)"
proof (induction gs zs ze i rule: show_groups.induct)
  case (1 gs zs ze i)
  show ?case
  proof (cases "i = zs")
    case True
    have "hex_list (drop ze gs) = (if 8 \<le> ze then [] else show_hex (gs ! ze) @ show_groups gs zs ze (ze + 1))"
    proof (cases "ze < 8")
      case lt: True
      have d: "drop ze gs = gs ! ze # drop (ze + 1) gs" using lt 1(3) by (simp add: Cons_nth_drop_Suc)
      have "show_groups gs zs ze (ze + 1) = (if drop (ze + 1) gs = [] then [] else CHR '':'' # hex_list (drop (ze + 1) gs))"
      proof (cases "ze + 1 < 8")
        case True
        then show ?thesis using 1(3,5) by (simp add: show_groups_rest)
      next
        case False
        then show ?thesis using 1(3) by (subst show_groups.simps) simp
      qed
      with lt show ?thesis unfolding d hex_list_Cons by simp
    qed (use 1(3) in simp)
    with True 1 show ?thesis by (subst show_groups.simps) auto
  next
    case False
    then have lt: "i < zs" "i < 8" using 1(4-6) by simp_all
    have d: "drop i gs = gs ! i # drop (i + 1) gs" using lt 1(3) by (simp add: Cons_nth_drop_Suc)
    have t: "take (zs - i) (drop i gs) = gs ! i # take (zs - (i + 1)) (drop (i + 1) gs)"
      unfolding d using lt by (simp add: take_Cons')
    have e: "take (zs - (i + 1)) (drop (i + 1) gs) = [] \<longleftrightarrow> zs = i + 1" using lt 1(3,5,6) by auto
    show ?thesis unfolding t hex_list_Cons
      using 1 lt e by (subst show_groups.simps) auto
  qed
qed
subsection \<open>The round trip\<close>

lemma split_run:
  assumes "run_ok gs (zs, ze)" and "(zs, ze) \<noteq> (255, 255)"
  shows "take zs gs @ replicate (ze - zs) 0 @ drop ze gs = gs"
proof -
  from assms have r: "take (ze - zs) (drop zs gs) = replicate (ze - zs) 0" "zs + 2 \<le> ze" by (auto simp: run_ok_def)
  then have "drop ze gs = drop (ze - zs) (drop zs gs)" by simp
  then show ?thesis by (metis r(1) append_take_drop_id)
qed

lemma groups_small_parts:
  "list_all (\<lambda>g. g \<le> 65535) gs \<Longrightarrow> list_all (\<lambda>g. g \<le> 65535) (take n gs) \<and> list_all (\<lambda>g. g \<le> 65535) (drop n gs)"
  by (auto simp: list_all_iff dest: in_set_takeD in_set_dropD)

text \<open>The text of a list of groups without a run of zeros, with a run at the front, and with a run behind some groups.\<close>

lemma body_plain:
  assumes len: "length gs = 8" and le: "list_all (\<lambda>g. g \<le> 65535) gs"
  shows "parse_ipv6_body zone (hex_list gs) = Some (Addr6 gs zone)"
proof -
  have ne: "gs \<noteq> []" using len by auto
  from hex_list_front [OF this] obtain c cs where "hex_list gs = c # cs" "c \<noteq> CHR '':''" by blast
  then have "\<not> has_prefix (hex_list gs) ''::''" by (simp add: has_prefix_def starts_with_def)
  moreover have "ipv6_groups [] None (hex_list gs) = Some (gs, None, [])"
    using groups_list [OF ne, of "[]" None] len le by simp
  ultimately show ?thesis using len by (simp add: parse_ipv6_body_def finish_ipv6_def expand_def)
qed

lemma body_front_run:
  assumes len: "length gs = 8" and le: "list_all (\<lambda>g. g \<le> 65535) gs" and ze: "2 \<le> ze" "ze \<le> 8"
    and whole: "replicate ze 0 @ drop ze gs = gs"
  shows "parse_ipv6_body zone (''::'' @ hex_list (drop ze gs)) = Some (Addr6 gs zone)"
proof (cases "ze = 8")
  case True
  with whole len have "replicate 8 0 = gs" by simp
  with True len show ?thesis by (simp add: parse_ipv6_body_def has_prefix_def starts_with_def)
next
  case False
  with ze len have ne: "drop ze gs \<noteq> []" by simp
  then have "ipv6_groups [] (Some 0) (hex_list (drop ze gs)) = Some (drop ze gs, Some 0, [])"
    using groups_list [OF ne, of "[]" "Some 0"] groups_small_parts [OF le, of ze] ze len by simp
  with ne whole len ze show ?thesis
    by (simp add: parse_ipv6_body_def has_prefix_def starts_with_def hex_list_Nil_iff finish_ipv6_def expand_def)
qed

lemma body_inner_run:
  assumes len: "length gs = 8" and le: "list_all (\<lambda>g. g \<le> 65535) gs" and r: "zs \<noteq> 0" "zs + 2 \<le> ze" "ze \<le> 8"
    and whole: "take zs gs @ replicate (ze - zs) 0 @ drop ze gs = gs"
  shows "parse_ipv6_body zone (hex_list (take zs gs) @ ''::'' @ hex_list (drop ze gs)) = Some (Addr6 gs zone)"
proof -
  let ?text = "hex_list (take zs gs) @ ''::'' @ hex_list (drop ze gs)"
  note parts = groups_small_parts [OF le]
  from len r(1) have ne: "take zs gs \<noteq> []" by (cases gs) auto
  obtain c cs where front: "hex_list (take zs gs) = c # cs" "c \<noteq> CHR '':''" using hex_list_front [OF ne] by blast
  have pre: "\<not> has_prefix ?text ''::''"
    unfolding front(1) using front(2) by (simp add: has_prefix_def starts_with_def)
  have lt: "length (take zs gs) = zs" using len r by simp
  have "ipv6_groups [] None ?text = Some (take zs gs @ drop ze gs, Some zs, [])"
  proof (cases "drop ze gs = []")
    case True
    then show ?thesis using groups_list_ellipsis [OF ne, of "[]" "[]"] parts lt r by simp
  next
    case False
    have "zs + (8 - ze) \<le> 8" "zs < 8" using r by simp_all
    then show ?thesis
      using groups_list_ellipsis [OF ne, of "[]" "hex_list (drop ze gs)"] parts lt r len False
        groups_list [OF False, of "take zs gs" "Some zs"]
      by (simp add: hex_list_Nil_iff)
  qed
  moreover have "8 - (zs + (8 - ze)) = ze - zs" "zs + (8 - ze) < 8" using r by simp_all
  ultimately show ?thesis using pre lt whole len by (simp add: parse_ipv6_body_def finish_ipv6_def expand_def)
qed

lemma body_roundtrip:
  assumes ok: "addr_ok (Addr6 gs zone)"
  shows "parse_ipv6_body zone (case zero_run gs of (zs, ze) \<Rightarrow> show_groups gs zs ze 0) = Some (Addr6 gs zone)"
proof -
  obtain zs ze where run: "zero_run gs = (zs, ze)" by fastforce
  have len: "length gs = 8" and le: "list_all (\<lambda>g. g \<le> 65535) gs" using ok by simp_all
  have "run_ok gs (zs, ze)" using zero_run_ok [OF len] run by simp
  then consider (none) "zs = 255" "ze = 255" | (run) "zs + 2 \<le> ze" "ze \<le> 8" "(zs, ze) \<noteq> (255, 255)"
    using len by (auto simp: run_ok_def)
  then show ?thesis
  proof cases
    case none
    then show ?thesis using run body_plain [OF len le] show_groups_rest [OF len, of zs 0 ze] by simp
  next
    case r: run
    have whole: "take zs gs @ replicate (ze - zs) 0 @ drop ze gs = gs"
      by (rule split_run [OF \<open>run_ok gs (zs, ze)\<close> r(3)])
    have shown: "show_groups gs zs ze 0 = hex_list (take zs gs) @ ''::'' @ hex_list (drop ze gs)"
      using show_groups_run [OF len, of 0 zs ze] r by simp
    show ?thesis
    proof (cases "zs = 0")
      case True
      with body_front_run [OF len le, of ze zone] whole shown run r show ?thesis by simp
    next
      case False
      from body_inner_run [OF len le False r(1,2) whole] shown run show ?thesis by simp
    qed
  qed
qed

lemma show_groups_chars:
  "c \<in> set (show_groups gs zs ze i) \<Longrightarrow> c = CHR '':'' \<or> c \<in> hex_digit ` {..<16}"
proof (induction gs zs ze i rule: show_groups.induct)
  case (1 gs zs ze i)
  have h: "c \<in> set (show_hex n) \<Longrightarrow> c \<in> hex_digit ` {..<16}" for n using show_hex_chars [of n] by blast
  consider "8 \<le> i" | "i < 8" "i = zs" "8 \<le> ze \<or> ze < i" | "i < 8" "i = zs" "ze < 8" "i \<le> ze" | "i < 8" "i \<noteq> zs"
    by linarith
  then show ?case
  proof cases
    case 3
    with 1(3) consider "c = CHR '':''" | "c \<in> set (show_hex (gs ! ze))" | "c \<in> set (show_groups gs zs ze (ze + 1))"
      by (subst (asm) show_groups.simps) auto
    then show ?thesis using 1(1) 3 h by cases auto
  next
    case 4
    with 1(3) consider "c = CHR '':''" | "c \<in> set (show_hex (gs ! i))" | "c \<in> set (show_groups gs zs ze (i + 1))"
      by (subst (asm) show_groups.simps) (auto split: if_splits)
    then show ?thesis using 1(2) 4 h by cases auto
  qed (use 1(3) in \<open>subst (asm) show_groups.simps, auto\<close>)+
qed

lemma hex_digit_image: "c \<in> hex_digit ` {..<16} \<Longrightarrow> c \<noteq> CHR '':'' \<and> c \<noteq> CHR ''.'' \<and> c \<noteq> CHR ''%''"
  by (elim imageE) (use hex_digit_not in auto)

lemma parse_by_first_colon:
  "\<forall>c\<in>set t. c \<noteq> CHR ''.'' \<and> c \<noteq> CHR ''%'' \<Longrightarrow> CHR '':'' \<in> set t \<Longrightarrow> parse_by_first s (t @ u) = parse_ipv6 s"
  by (induction t) auto
lemma colon_printed: "length gs = 8 \<Longrightarrow> CHR '':'' \<in> set (show_groups gs zs ze 0)"
proof -
  have "CHR '':'' \<in> set (show_groups gs zs ze 1)" if "0 \<noteq> zs" using that by (subst show_groups.simps) auto
  then show ?thesis by (subst show_groups.simps) auto
qed

lemma parse_ipv6_zone:
  assumes "CHR ''%'' \<notin> set b"
  shows "parse_ipv6 (b @ (if z \<noteq> [] then ''%'' @ z else [])) = parse_ipv6_body z b"
proof -
  have "\<forall>c\<in>set b. c \<noteq> CHR ''%''" using assms by auto
  then have d: "dropWhile (\<lambda>c. c \<noteq> CHR ''%'') (b @ t) = dropWhile (\<lambda>c. c \<noteq> CHR ''%'') t"
    and k: "takeWhile (\<lambda>c. c \<noteq> CHR ''%'') (b @ t) = b @ takeWhile (\<lambda>c. c \<noteq> CHR ''%'') t" for t
    by (simp_all add: dropWhile_append2 takeWhile_append2)
  show ?thesis using d [of "[]"] by (simp add: parse_ipv6_def d k)
qed

lemma parse_show_addr:
  assumes "addr_ok a" and "\<not> is4in6 a"
  shows "parse_addr (show_addr a) = Some a"
proof (cases a)
  case (Addr4 fs)
  with assms(1) show ?thesis by (simp add: parse_addr_show4)
next
  case (Addr6 gs z)
  obtain zs ze where run: "zero_run gs = (zs, ze)" by fastforce
  let ?b = "show_groups gs zs ze 0"
  have len: "length gs = 8" using assms(1) Addr6 by simp
  have chars: "\<forall>c\<in>set ?b. c \<noteq> CHR ''.'' \<and> c \<noteq> CHR ''%''"
    using show_groups_chars hex_digit_image by blast
  then have no_zone: "CHR ''%'' \<notin> set ?b" by blast
  have "parse_addr (show_addr a) = parse_ipv6 (show_addr a)"
    using assms(2) Addr6 parse_by_first_colon [OF chars colon_printed [OF len]]
    by (simp add: parse_addr_def show_ipv6_def run)
  also have "\<dots> = parse_ipv6_body z ?b"
    using assms(2) Addr6 parse_ipv6_zone [OF no_zone, of z] by (simp add: show_ipv6_def run)
  also have "\<dots> = Some a" using body_roundtrip [of gs z] assms(1) Addr6 by (simp add: run)
  finally show ?thesis .
qed

lemma canonical_parse:
  assumes "canonical_ip s = Some t"
  shows "\<exists>a. parse_addr s = Some a \<and> t = show_addr (unmap a) \<and> parse_addr t = Some (unmap a)"
proof -
  obtain a where a: "parse_addr s = Some a" "t = show_addr (unmap a)" using assms by (auto simp: canonical_ip_def)
  with unmap_ok [OF parse_addr_ok [OF a(1)]] show ?thesis by (simp add: parse_show_addr)
qed

text \<open>C40: the address the server service stores for a text that parses is a text again of the same address
  (an IPv4 address for an IPv4-mapped one), and two texts are stored alike exactly when they denote the same
  address; so the unique index on user, address and port is one on addresses.\<close>

theorem stored_address_canonical:
  assumes "parse_addr s = Some a" and "parse_addr s' = Some b"
  shows "(\<exists>t. canonical_ip s = Some t \<and> parse_addr t = Some (unmap a)) \<and>
    (canonical_ip s = canonical_ip s' \<longleftrightarrow> unmap a = unmap b)"
proof
  have t: "canonical_ip s = Some (show_addr (unmap a))" "canonical_ip s' = Some (show_addr (unmap b))"
    using assms by (simp_all add: canonical_ip_def)
  have r: "parse_addr (show_addr (unmap a)) = Some (unmap a)" "parse_addr (show_addr (unmap b)) = Some (unmap b)"
    using parse_show_addr unmap_ok [OF parse_addr_ok [OF assms(1)]] unmap_ok [OF parse_addr_ok [OF assms(2)]] by blast+
  show "\<exists>t. canonical_ip s = Some t \<and> parse_addr t = Some (unmap a)" using t(1) r(1) by simp
  show "canonical_ip s = canonical_ip s' \<longleftrightarrow> unmap a = unmap b" using t r by (metis option.inject)
qed

lemma stored_address_canonical_witness:
  "canonical_ip ''2001:DB8:0::0:1'' = canonical_ip ''2001:0db8::1'' \<and>
   canonical_ip ''::ffff:10.0.0.7'' = canonical_ip ''10.0.0.7'' \<and>
   (\<exists>t. canonical_ip ''::ffff:10.0.0.7'' = Some t \<and> parse_addr t = Some (Addr4 [10, 0, 0, 7]))"
proof -
  have r: "replicate 3 (0 :: nat) = [0, 0, 0]" "replicate 5 (0 :: nat) = [0, 0, 0, 0, 0]"
    by (simp_all add: eval_nat_numeral)
  have p: "parse_addr ''2001:DB8:0::0:1'' = Some (Addr6 [8193, 3512, 0, 0, 0, 0, 0, 1] [])"
    "parse_addr ''2001:0db8::1'' = Some (Addr6 [8193, 3512, 0, 0, 0, 0, 0, 1] [])"
    "parse_addr ''::ffff:10.0.0.7'' = Some (Addr6 [0, 0, 0, 0, 0, 65535, 2560, 7] [])"
    "parse_addr ''10.0.0.7'' = Some (Addr4 [10, 0, 0, 7])"
    by (simp_all add: r parse_addr_def parse_ipv4_def parse_ipv6_def parse_ipv6_body_def has_prefix_def starts_with_def
        ipv6_groups.simps hex_val_def in_range_def is_digit_def digit_val_def finish_ipv6_def expand_def)
  have u: "unmap (Addr6 [0, 0, 0, 0, 0, 65535, 2560, 7] []) = Addr4 [10, 0, 0, 7]" by simp
  note a = stored_address_canonical [OF p(1,2)] and b = stored_address_canonical [OF p(3,4), unfolded u]
  from a have "canonical_ip ''2001:DB8:0::0:1'' = canonical_ip ''2001:0db8::1''" by (simp only: simp_thms)
  moreover from b have "canonical_ip ''::ffff:10.0.0.7'' = canonical_ip ''10.0.0.7''" by (simp only: unmap.simps simp_thms)
  ultimately show ?thesis using conjunct1 [OF b] by (intro conjI)
qed

end
