(* ===== verification/ServerService.thy ===== *)
theory ServerService
  imports ServerRepo TaskRepo NetAddr Crypto
begin

text \<open>
  The server service, \<open>src/internal/service/server/service.go\<close>, with its requests and responses
  (\<open>src/internal/model/request/server.go\<close>, \<open>src/internal/model/response/server.go\<close>).
\<close>

section \<open>Requests and responses\<close>

record create_server_req =
  cr_name :: string
  cr_ip :: string
  cr_port :: int
  cr_username :: string
  cr_password :: string

record update_server_req =
  up_name :: string
  up_ip :: string
  up_port :: int
  up_username :: string
  up_password :: string

record list_server_req =
  lr_page :: int
  lr_page_size :: int

record server_resp =
  vr_id :: u64
  vr_name :: string
  vr_ip :: string
  vr_port :: int
  vr_username :: string
  vr_cpu :: int
  vr_ram :: int
  vr_disk :: int
  vr_os_name :: string
  vr_game_env :: "string list"
  vr_mods :: "string list"
  vr_created_at :: int
  vr_updated_at :: int

record server_list_resp =
  vl_list :: "server_resp list"
  vl_total :: int
  vl_page :: int
  vl_page_size :: int

definition or_empty :: "string list option \<Rightarrow> string list" where
  "or_empty xs = (case xs of None \<Rightarrow> [] | Some l \<Rightarrow> l)"

definition to_server_resp :: "server \<Rightarrow> server_resp" where
  "to_server_resp s =
     \<lparr>vr_id = sv_id s, vr_name = sv_name s, vr_ip = sv_ip s, vr_port = sv_port s, vr_username = sv_username s,
      vr_cpu = sv_cpu s, vr_ram = sv_ram s, vr_disk = sv_disk s, vr_os_name = sv_os_name s,
      vr_game_env = or_empty (sv_game_env s), vr_mods = or_empty (sv_mods s),
      vr_created_at = sv_created_at s, vr_updated_at = sv_updated_at s\<rparr>"

section \<open>The service\<close>

text \<open>
  Its parts. \<open>AgentHub\<close> has the one method \<open>Disconnect\<close>, which returns nothing; \<open>ExecTx\<close> is used with a
  function whose effect is the created row.
\<close>

record ('w, 'h) server_parts =
  sr_server_repo :: "('w, 'h) server_repo"
  sr_task_repo :: "('w, 'h) task_repo"
  sr_exec_tx :: "'h ctx \<Rightarrow> ('h ctx \<Rightarrow> ('w, server) go) \<Rightarrow> ('w, server) go"
  sr_encryptor :: "'w encryptor"
  sr_disconnect :: "u64 \<Rightarrow> 'w \<Rightarrow> 'w"

text \<open>The UTF-8 text of the name of the deployment task (five Chinese characters and \<open>Agent\<close>).\<close>

definition deploy_task_name :: string where
  "deploy_task_name =
     map char_of [0xE9 :: nat, 0x83, 0xA8, 0xE7, 0xBD, 0xB2, 0xE6, 0x9C, 0x8D, 0xE5, 0x8A, 0xA1, 0xE5, 0x99, 0xA8] @
     '' Agent''"

definition new_server :: "u64 \<Rightarrow> string \<Rightarrow> string \<Rightarrow> int \<Rightarrow> string \<Rightarrow> string \<Rightarrow> server" where
  "new_server uid name ip port username password =
     \<lparr>sv_id = 0, sv_created_at = 0, sv_updated_at = 0, sv_name = name, sv_ip = ip, sv_port = port,
      sv_username = username, sv_password = password, sv_cpu = 0, sv_ram = 0, sv_disk = 0, sv_os_name = [],
      sv_game_env = Some [], sv_mods = Some [], sv_user_id = uid\<rparr>"

definition deploy_task :: "u64 \<Rightarrow> u64 \<Rightarrow> task" where
  "deploy_task uid sid =
     \<lparr>tk_id = 0, tk_created_at = 0, tk_updated_at = 0, tk_name = deploy_task_name, tk_type = TaskTypeAgentDeploy,
      tk_status = TaskStatusPending, tk_stage = ''queued'', tk_resource_type = TaskResourceServer,
      tk_resource_id = sid, tk_user_id = uid, tk_error_message = [], tk_started_at = None, tk_finished_at = None\<rparr>"

definition create_in_tx :: "('w, 'h) server_parts \<Rightarrow> u64 \<Rightarrow> server \<Rightarrow> 'h ctx \<Rightarrow> ('w, server) go" where
  "create_in_tx s uid row tx_ctx =
     call (sp_create (sr_server_repo s) tx_ctx row) fail (\<lambda>server.
     call (tp_create (sr_task_repo s) tx_ctx (deploy_task uid (sv_id server))) fail (\<lambda>_. ret server))"

definition svc_create_server ::
    "('w, 'h) server_parts \<Rightarrow> 'h ctx \<Rightarrow> u64 \<Rightarrow> create_server_req \<Rightarrow> ('w, server_resp) go" where
  "svc_create_server s ctx uid req =
     (let name = trim_space (cr_name req);
          username = trim_space (cr_username req)
      in if name = [] \<or> username = [] then fail (BizError 400 (ServerMsg M_server_name_empty))
         else
           case canonical_ip (cr_ip req) of
             None \<Rightarrow> fail (BizError 400 (ServerMsg M_server_ip_invalid))
           | Some ip \<Rightarrow>
               call (en_encrypt (sr_encryptor s) (cr_password req))
                 (\<lambda>_. fail (BizError 500 (ServerMsg M_server_create_failed)))
                 (\<lambda>password.
               call (sr_exec_tx s ctx (create_in_tx s uid (new_server uid name ip (cr_port req) username password)))
                 (\<lambda>e. if errors_is e ErrDuplicatedKey then fail (BizError 409 (ServerMsg M_server_exists))
                      else fail (BizError 500 (ServerMsg M_server_create_failed)))
                 (\<lambda>server. ret (to_server_resp server))))"

definition svc_get_server :: "('w, 'h) server_parts \<Rightarrow> 'h ctx \<Rightarrow> u64 \<Rightarrow> u64 \<Rightarrow> ('w, server_resp) go" where
  "svc_get_server s ctx uid sid =
     call (sp_get_by_id (sr_server_repo s) ctx uid sid)
       (\<lambda>_. fail (BizError 500 (ServerMsg M_server_query_failed)))
       (\<lambda>server. case server of
          None \<Rightarrow> fail (BizError 404 (ServerMsg M_server_absent))
        | Some row \<Rightarrow> ret (to_server_resp row))"

definition paging_invalid :: "int \<Rightarrow> int \<Rightarrow> bool" where
  "paging_invalid page page_size \<longleftrightarrow> page < 1 \<or> 1000000 < page \<or> page_size < 1 \<or> 100 < page_size"

definition svc_list_servers ::
    "('w, 'h) server_parts \<Rightarrow> 'h ctx \<Rightarrow> u64 \<Rightarrow> list_server_req \<Rightarrow> ('w, server_list_resp) go" where
  "svc_list_servers s ctx uid req =
     (if paging_invalid (lr_page req) (lr_page_size req) then fail (BizError 400 (ServerMsg M_paging_invalid))
      else
        call (sp_list (sr_server_repo s) ctx uid (lr_page req) (lr_page_size req))
          (\<lambda>_. fail (BizError 500 (ServerMsg M_server_list_failed)))
          (\<lambda>(ss, total). ret \<lparr>vl_list = map to_server_resp ss, vl_total = total, vl_page = lr_page req,
             vl_page_size = lr_page_size req\<rparr>))"

definition server_updates :: "string \<Rightarrow> string \<Rightarrow> int \<Rightarrow> string \<Rightarrow> (string \<times> assignment) list" where
  "server_updates name ip port username =
     [(''name'', Value (DText name)), (''ip'', Value (DText ip)), (''port'', Value (DInt port)),
      (''username'', Value (DText username))]"

definition update_rows ::
    "('w, 'h) server_parts \<Rightarrow> 'h ctx \<Rightarrow> u64 \<Rightarrow> u64 \<Rightarrow> (string \<times> assignment) list \<Rightarrow> ('w, unit) go" where
  "update_rows s ctx uid sid ups =
     call (sp_update (sr_server_repo s) ctx uid sid ups)
       (\<lambda>e. if errors_is e ErrRecordNotFound then fail (BizError 404 (ServerMsg M_server_absent))
            else if errors_is e ErrDuplicatedKey then fail (BizError 409 (ServerMsg M_server_exists))
            else fail (BizError 500 (ServerMsg M_server_update_failed)))
       (\<lambda>_. ret ())"

definition svc_update_server ::
    "('w, 'h) server_parts \<Rightarrow> 'h ctx \<Rightarrow> u64 \<Rightarrow> u64 \<Rightarrow> update_server_req \<Rightarrow> ('w, unit) go" where
  "svc_update_server s ctx uid sid req =
     (let name = trim_space (up_name req);
          username = trim_space (up_username req)
      in if name = [] \<or> username = [] then fail (BizError 400 (ServerMsg M_server_name_empty))
         else
           case canonical_ip (up_ip req) of
             None \<Rightarrow> fail (BizError 400 (ServerMsg M_server_ip_invalid))
           | Some ip \<Rightarrow>
               let updates = server_updates name ip (up_port req) username
               in if up_password req = [] then update_rows s ctx uid sid updates
                  else
                    call (en_encrypt (sr_encryptor s) (up_password req))
                      (\<lambda>_. fail (BizError 500 (ServerMsg M_server_update_failed)))
                      (\<lambda>password. update_rows s ctx uid sid (updates @ [(''password'', Value (DText password))])))"

definition svc_delete_server :: "('w, 'h) server_parts \<Rightarrow> 'h ctx \<Rightarrow> u64 \<Rightarrow> u64 \<Rightarrow> ('w, unit) go" where
  "svc_delete_server s ctx uid sid =
     call (sp_delete (sr_server_repo s) ctx uid sid)
       (\<lambda>e. if errors_is e ErrServerHasDst then fail (BizError 409 (ServerMsg M_server_has_dst))
            else if errors_is e ErrRecordNotFound then fail (BizError 404 (ServerMsg M_server_absent))
            else fail (BizError 500 (ServerMsg M_server_delete_failed)))
       (\<lambda>_ w. ret () (sr_disconnect s sid w))"

definition new_server_service ::
    "('w, 'h) server_repo \<Rightarrow> ('w, 'h) task_repo \<Rightarrow> ('w, 'h, server) transaction \<Rightarrow> 'w encryptor \<Rightarrow>
      (u64 \<Rightarrow> 'w \<Rightarrow> 'w) \<Rightarrow> ('w, 'h) server_parts" where
  "new_server_service sr tr transaction enc disconnect =
     \<lparr>sr_server_repo = sr, sr_task_repo = tr, sr_exec_tx = exec_tx transaction, sr_encryptor = enc,
      sr_disconnect = disconnect\<rparr>"

end
