(* ===== verification/DstRepo.thy ===== *)
theory DstRepo
  imports Owned
begin

text \<open>
  The repository of saved worlds, \<open>src/internal/repository/dst/repository.go\<close>.
\<close>

section \<open>Operations\<close>

record ('w, 'h) dst_repo =
  dp_create :: "'h ctx \<Rightarrow> dst \<Rightarrow> ('w, dst) go"
  dp_get_by_id :: "'h ctx \<Rightarrow> u64 \<Rightarrow> u64 \<Rightarrow> ('w, dst option) go"
  dp_list :: "'h ctx \<Rightarrow> u64 \<Rightarrow> u64 \<Rightarrow> int \<Rightarrow> int \<Rightarrow> ('w, dst list \<times> int) go"
  dp_update :: "'h ctx \<Rightarrow> u64 \<Rightarrow> u64 \<Rightarrow> (string \<times> assignment) list \<Rightarrow> ('w, unit) go"
  dp_delete :: "'h ctx \<Rightarrow> u64 \<Rightarrow> u64 \<Rightarrow> ('w, unit) go"

definition dst_create :: "('w, 'h, dst) model \<Rightarrow> 'h \<Rightarrow> 'h ctx \<Rightarrow> dst \<Rightarrow> ('w, dst) go" where
  "dst_create M db ctx z = gm_create M (get_db_from_ctx ctx db) z"

definition dst_get_by_id :: "('w, 'h, dst) model \<Rightarrow> 'h \<Rightarrow> 'h ctx \<Rightarrow> u64 \<Rightarrow> u64 \<Rightarrow> ('w, dst option) go" where
  "dst_get_by_id M db ctx uid i =
     first_or_nil (gm_first M (get_db_from_ctx ctx db) [Eq ''id'' (DUint i), Eq ''user_id'' (DUint uid)])"

definition dst_list ::
    "('w, 'h, dst) model \<Rightarrow> 'h \<Rightarrow> 'h ctx \<Rightarrow> u64 \<Rightarrow> u64 \<Rightarrow> int \<Rightarrow> int \<Rightarrow> ('w, dst list \<times> int) go" where
  "dst_list M db ctx uid sid page page_size =
     call (gm_count M (get_db_from_ctx ctx db) [Eq ''user_id'' (DUint uid), Eq ''server_id'' (DUint sid)]) fail (\<lambda>total.
     call (gm_find M (get_db_from_ctx ctx db) [Eq ''user_id'' (DUint uid), Eq ''server_id'' (DUint sid)] (Asc ''slot'')
         ((page - 1) * page_size) page_size) fail (\<lambda>zs. ret (zs, total)))"

definition dst_update ::
    "('w, 'h, dst) model \<Rightarrow> 'h \<Rightarrow> 'h ctx \<Rightarrow> u64 \<Rightarrow> u64 \<Rightarrow> (string \<times> assignment) list \<Rightarrow> ('w, unit) go" where
  "dst_update M db ctx uid i ups =
     call (gm_updates M (get_db_from_ctx ctx db) [Eq ''id'' (DUint i), Eq ''user_id'' (DUint uid)] ups) fail
       (\<lambda>affected.
     if 0 < affected then ret ()
     else
       call (dst_get_by_id M db ctx uid i) fail (\<lambda>z.
         case z of None \<Rightarrow> fail ErrRecordNotFound | Some _ \<Rightarrow> ret ()))"

definition dst_delete :: "('w, 'h, dst) model \<Rightarrow> 'h \<Rightarrow> 'h ctx \<Rightarrow> u64 \<Rightarrow> u64 \<Rightarrow> ('w, unit) go" where
  "dst_delete M db ctx uid i =
     call (gm_delete M (get_db_from_ctx ctx db) [Eq ''id'' (DUint i), Eq ''user_id'' (DUint uid)]) fail
       (\<lambda>affected. if affected = 0 then fail ErrRecordNotFound else ret ())"

definition new_dst_repo :: "('w, 'h, dst) model \<Rightarrow> 'h \<Rightarrow> ('w, 'h) dst_repo" where
  "new_dst_repo M db =
     \<lparr>dp_create = dst_create M db, dp_get_by_id = dst_get_by_id M db, dp_list = dst_list M db,
      dp_update = dst_update M db, dp_delete = dst_delete M db\<rparr>"

section \<open>Saved worlds on the abstract database\<close>

definition owned_dsts :: "database \<Rightarrow> u64 \<Rightarrow> dst list" where
  "owned_dsts d uid = filter (\<lambda>z. ds_user_id z = uid) (rows dsts d)"

definition owned_dst :: "database \<Rightarrow> u64 \<Rightarrow> u64 \<Rightarrow> dst option" where
  "owned_dst d uid i = find (\<lambda>z. ds_id z = i) (owned_dsts d uid)"

definition server_dsts :: "database \<Rightarrow> u64 \<Rightarrow> u64 \<Rightarrow> dst list" where
  "server_dsts d uid sid = filter (\<lambda>z. ds_server_id z = sid) (owned_dsts d uid)"

lemma matching_dst [simp]:
  "matching q d dsts [Eq ''id'' (DUint i), Eq ''user_id'' (DUint uid)] = (\<lambda>z. ds_id z = i \<and> ds_user_id z = uid)"
  "matching q d dsts [Eq ''user_id'' (DUint uid), Eq ''server_id'' (DUint sid)] =
     (\<lambda>z. ds_user_id z = uid \<and> ds_server_id z = sid)"
  by (simp_all add: matching_def dst_schema_def dst_column_def fun_eq_iff)

lemma lookup_dst: "lookup q d dsts [Eq ''id'' (DUint i), Eq ''user_id'' (DUint uid)] = owned_dst d uid i"
  by (simp add: lookup_def select_def owned_dst_def owned_dsts_def find_filter_list)

lemma owned_dst_None: "owned_dst d uid i = None \<longleftrightarrow>
    \<not> (\<exists>z\<in>set (rows dsts d). ds_id z = i \<and> ds_user_id z = uid)"
  by (auto simp: owned_dst_def owned_dsts_def find_None_iff)

lemma owned_dst_Some: "owned_dst d uid i = Some z \<Longrightarrow> z \<in> set (owned_dsts d uid) \<and> ds_id z = i"
  by (auto simp: owned_dst_def find_Some_iff)

lemma dst_get_reply:
  assumes "model_law q dsts M D V" and "dst_get_by_id M db ctx uid i w = (r, w')"
  shows "D w' = D w \<and> V w' = V w \<and> (r = Inr (owned_dst (D w) uid i) \<or> (\<exists>m. r = Inl (LibError m)))"
  using first_or_nil_reply [OF model_lawD(2) [OF assms(1)] assms(2) [unfolded dst_get_by_id_def]]
  by (simp add: lookup_dst)

lemma dst_list_reply:
  assumes law: "model_law q dsts M D V" and run: "dst_list M db ctx uid sid page psize w = (r, w')"
  shows "D w' = D w \<and> V w' = V w \<and>
    (r = Inr (page_of page psize (in_order dsts (Asc ''slot'') (server_dsts (D w) uid sid)),
       int (length (server_dsts (D w) uid sid))) \<or> (\<exists>m. r = Inl (LibError m)))"
proof -
  let ?cs = "[Eq ''user_id'' (DUint uid), Eq ''server_id'' (DUint sid)]"
  obtain r1 w1 where c: "gm_count M (get_db_from_ctx ctx db) ?cs w = (r1, w1)" by fastforce
  obtain r2 w2 where f: "gm_find M (get_db_from_ctx ctx db) ?cs (Asc ''slot'') ((page - 1) * psize) psize w1 = (r2, w2)"
    by fastforce
  note cv = read_reply [OF model_lawD(3) [OF law] reads_count c]
    and fv = read_reply [OF model_lawD(4) [OF law] reads_find f]
  have "(r, w') = (case r1 of Inl e \<Rightarrow> (Inl e, w1)
    | Inr n \<Rightarrow> (case r2 of Inl e \<Rightarrow> (Inl e, w2) | Inr zs \<Rightarrow> (Inr (zs, n), w2)))"
    using run c f by (cases r1; cases r2) (auto simp: dst_list_def)
  moreover have "filter (\<lambda>z. ds_user_id z = uid \<and> ds_server_id z = sid) (rows dsts (D w)) = server_dsts (D w) uid sid"
    by (auto simp: server_dsts_def owned_dsts_def intro: filter_cong)
  ultimately show ?thesis
    using cv fv by (cases r1; cases r2) (auto simp: stmt_count_def stmt_find_def page_of_def)
qed

section \<open>Inserts, updates and deletes\<close>

lemma dst_set_keeps [simp]:
  "ds_id (dst_set c v z) = ds_id z" "ds_user_id (dst_set c v z) = ds_user_id z"
  "ds_server_id (dst_set c v z) = ds_server_id z" "ds_slot (dst_set c v z) = ds_slot z"
  by (simp_all add: dst_set_def)

lemma assign_dst_keeps:
  "ds_id (assign dsts old a z) = ds_id z \<and> ds_user_id (assign dsts old a z) = ds_user_id z \<and>
   ds_server_id (assign dsts old a z) = ds_server_id z \<and> ds_slot (assign dsts old a z) = ds_slot z"
  by (simp add: assign_def dst_schema_def split: prod.split assignment.split dbval.split)

lemma updated_dst_keeps [simp]:
  "ds_id (updated dsts now ups z) = ds_id z" "ds_user_id (updated dsts now ups z) = ds_user_id z"
  "ds_server_id (updated dsts now ups z) = ds_server_id z" "ds_slot (updated dsts now ups z) = ds_slot z"
proof -
  have "ds_id (fold (assign dsts old) ups z) = ds_id z \<and> ds_user_id (fold (assign dsts old) ups z) = ds_user_id z \<and>
      ds_server_id (fold (assign dsts old) ups z) = ds_server_id z \<and> ds_slot (fold (assign dsts old) ups z) = ds_slot z"
    for old
    by (induction ups arbitrary: z) (simp_all add: assign_dst_keeps)
  then show "ds_id (updated dsts now ups z) = ds_id z" "ds_user_id (updated dsts now ups z) = ds_user_id z"
    "ds_server_id (updated dsts now ups z) = ds_server_id z" "ds_slot (updated dsts now ups z) = ds_slot z"
    by (simp_all add: updated_def dst_schema_def)
qed

definition with_updated_dst :: "database \<Rightarrow> u64 \<Rightarrow> u64 \<Rightarrow> (string \<times> assignment) list \<Rightarrow> database" where
  "with_updated_dst d uid i ups =
     put_rows dsts (map (\<lambda>z. if ds_id z = i \<and> ds_user_id z = uid then updated dsts (db_now d) ups z else z)
       (rows dsts d)) d"

definition without_dst :: "database \<Rightarrow> u64 \<Rightarrow> u64 \<Rightarrow> database" where
  "without_dst d uid i = put_rows dsts (filter (\<lambda>z. \<not> (ds_id z = i \<and> ds_user_id z = uid)) (rows dsts d)) d"

lemma put_dsts_same: "put_rows dsts (rows dsts d) d = d"
  by (simp add: put_rows_def rows_def)

lemma with_updated_dst_none: "owned_dst d uid i = None \<Longrightarrow> with_updated_dst d uid i ups = d"
proof -
  assume "owned_dst d uid i = None"
  then have "map (\<lambda>z. if ds_id z = i \<and> ds_user_id z = uid then updated dsts (db_now d) ups z else z) (rows dsts d) =
      rows dsts d"
    by (intro map_idI) (auto simp: owned_dst_None)
  then show ?thesis by (simp add: with_updated_dst_def put_dsts_same)
qed

lemma without_dst_none: "owned_dst d uid i = None \<Longrightarrow> without_dst d uid i = d"
proof -
  assume "owned_dst d uid i = None"
  then have "filter (\<lambda>z. \<not> (ds_id z = i \<and> ds_user_id z = uid)) (rows dsts d) = rows dsts d"
    by (intro filter_True) (auto simp: owned_dst_None)
  then show ?thesis by (simp add: without_dst_def put_dsts_same)
qed

lemma owned_dsts_other:
  assumes "uid' \<noteq> uid"
  shows "owned_dsts (with_updated_dst d uid i ups) uid' = owned_dsts d uid'"
    and "owned_dsts (without_dst d uid i) uid' = owned_dsts d uid'"
proof -
  show "owned_dsts (with_updated_dst d uid i ups) uid' = owned_dsts d uid'"
    unfolding owned_dsts_def with_updated_dst_def rows_put_rows
    by (rule filter_map_other) (use assms in auto)
  show "owned_dsts (without_dst d uid i) uid' = owned_dsts d uid'"
    unfolding owned_dsts_def without_dst_def rows_put_rows filter_filter
    by (rule filter_cong) (use assms in auto)
qed

text \<open>The row a create returns, and the row it stores.\<close>

definition stamped_dst :: "database \<Rightarrow> dst \<Rightarrow> dst" where
  "stamped_dst d z =
     z\<lparr>ds_id := tb_next (db_dsts d), ds_created_at := db_now d, ds_updated_at := db_now d,
       ds_slot := if ds_slot z = 0 then 1 else ds_slot z,
       ds_max_players := if ds_max_players z = 0 then 6 else ds_max_players z\<rparr>"

definition with_dst :: "database \<Rightarrow> dst \<Rightarrow> database" where
  "with_dst d z = d\<lparr>db_dsts := \<lparr>tb_rows = rows dsts d @ [(stamped_dst d z)\<lparr>ds_mods := json_strings (ds_mods z)\<rparr>],
     tb_next = tb_next (db_dsts d) + 1\<rparr>\<rparr>"

lemma stmt_create_dst:
  "stmt_create q dsts z d = (Inl ErrDuplicatedKey, d) \<or>
   stmt_create q dsts z d = (Inr (stamped_dst d z), with_dst d z)"
  by (simp add: stmt_create_def Let_def dst_schema_def stamped_dst_def with_dst_def rows_def)

lemma dst_create_reply:
  assumes law: "model_law q dsts M D V" and run: "dst_create M db ctx z w = (r, w')"
  shows "V w' = V w \<and> (D w' = D w \<or> D w' = with_dst (D w) z) \<and>
    (\<forall>z'. r = Inr z' \<longrightarrow> z' = stamped_dst (D w) z \<and> D w' = with_dst (D w) z) \<and>
    (r = Inl ErrDuplicatedKey \<longrightarrow> D w' = D w) \<and>
    (\<forall>e. r = Inl e \<longrightarrow> e = ErrDuplicatedKey \<or> (\<exists>m. e = LibError m))"
  using model_lawD(1) [OF law] run [unfolded dst_create_def]
  by (cases rule: statement_cases) (use stmt_create_dst [of q z "D w"] in auto)

lemma update_dst_rows:
  "stmt_updates q dsts [Eq ''id'' (DUint i), Eq ''user_id'' (DUint uid)] ups d = (Inl ErrDuplicatedKey, d) \<or>
   (\<exists>n. stmt_updates q dsts [Eq ''id'' (DUint i), Eq ''user_id'' (DUint uid)] ups d =
        (Inr (int n), with_updated_dst d uid i ups) \<and>
      (0 < n \<longrightarrow> owned_dst d uid i \<noteq> None) \<and> (n = 0 \<longrightarrow> True))"
proof -
  have "owned_dst d uid i \<noteq> None"
    if "0 < length (filter (\<lambda>z. (ds_id z = i \<and> ds_user_id z = uid) \<and> Q z) (rows dsts d))" for Q
    using that by (auto simp: owned_dst_None filter_empty_conv)
  then show ?thesis
    unfolding stmt_updates_def Let_def matching_dst with_updated_dst_def by simp
qed

lemma owned_dst_updated: "owned_dst (with_updated_dst d uid i ups) uid i = None \<longleftrightarrow> owned_dst d uid i = None"
proof -
  have keep: "ds_id (if b then updated dsts now ups z else z) = ds_id z"
    "ds_user_id (if b then updated dsts now ups z else z) = ds_user_id z" for b now z
    by simp_all
  show ?thesis
    by (simp only: owned_dst_None with_updated_dst_def rows_put_rows set_map bex_simps keep)
qed

lemma dst_update_reply:
  assumes law: "model_law q dsts M D V" and run: "dst_update M db ctx uid i ups w = (r, w')"
  shows "V w' = V w \<and> (D w' = D w \<or> D w' = with_updated_dst (D w) uid i ups) \<and>
    (r = Inr () \<longrightarrow> owned_dst (D w) uid i \<noteq> None \<and> D w' = with_updated_dst (D w) uid i ups) \<and>
    (r = Inl ErrRecordNotFound \<longrightarrow> owned_dst (D w) uid i = None \<and> D w' = D w) \<and>
    (\<forall>e. r = Inl e \<longrightarrow> e = ErrDuplicatedKey \<or> e = ErrRecordNotFound \<or> (\<exists>m. e = LibError m))"
proof -
  obtain r1 w1 where up: "gm_updates M (get_db_from_ctx ctx db) [Eq ''id'' (DUint i), Eq ''user_id'' (DUint uid)] ups w =
      (r1, w1)" by fastforce
  obtain r2 w2 where get: "dst_get_by_id M db ctx uid i w1 = (r2, w2)" by fastforce
  note gv = dst_get_reply [OF law get]
  have body: "(r, w') = (case r1 of Inl e \<Rightarrow> (Inl e, w1) | Inr n \<Rightarrow> if 0 < n then (Inr (), w1)
      else (case r2 of Inl e \<Rightarrow> (Inl e, w2) | Inr None \<Rightarrow> (Inl ErrRecordNotFound, w2)
        | Inr (Some z) \<Rightarrow> (Inr (), w2)))"
    using run up get
    by (cases r1; cases r2) (auto simp: dst_update_def ret_def fail_def split: option.splits if_splits)
  from law up update_dst_rows show ?thesis
  proof (cases rule: updates_cases)
    case (failed e)
    with body show ?thesis by auto
  next
    case (changed n)
    with body show ?thesis by auto
  next
    case missed
    with body gv owned_dst_updated [of "D w" uid i ups] with_updated_dst_none [of "D w" uid i ups] show ?thesis
      by (auto split: sum.splits option.splits)
  qed
qed

lemma dst_delete_reply:
  assumes law: "model_law q dsts M D V" and run: "dst_delete M db ctx uid i w = (r, w')"
  shows "V w' = V w \<and> (D w' = D w \<or> D w' = without_dst (D w) uid i) \<and>
    (r = Inr () \<longrightarrow> owned_dst (D w) uid i \<noteq> None \<and> D w' = without_dst (D w) uid i) \<and>
    (r = Inl ErrRecordNotFound \<longrightarrow> owned_dst (D w) uid i = None \<and> D w' = D w) \<and>
    (\<forall>e. r = Inl e \<longrightarrow> e = ErrDuplicatedKey \<or> e = ErrRecordNotFound \<or> (\<exists>m. e = LibError m))"
proof -
  let ?cs = "[Eq ''id'' (DUint i), Eq ''user_id'' (DUint uid)]"
  obtain r1 w1 where del: "gm_delete M (get_db_from_ctx ctx db) ?cs w = (r1, w1)" by fastforce
  have body: "(r, w') = (case r1 of Inl e \<Rightarrow> (Inl e, w1)
      | Inr n \<Rightarrow> if n = 0 then (Inl ErrRecordNotFound, w1) else (Inr (), w1))"
    using run del by (cases r1) (auto simp: dst_delete_def ret_def fail_def)
  have stmt: "\<exists>n. stmt_delete q dsts ?cs (D w) = (Inr (int n), without_dst (D w) uid i) \<and>
      (n = 0 \<longleftrightarrow> owned_dst (D w) uid i = None)"
    unfolding stmt_delete_def Let_def matching_dst
    by (auto simp: without_dst_def owned_dst_None filter_empty_conv)
  from model_lawD(6) [OF law] del show ?thesis
  proof (cases rule: statement_cases)
    case (lost m)
    with body stmt show ?thesis by auto
  next
    case reply
    with stmt obtain n where "r1 = Inr (int n)" "D w1 = without_dst (D w) uid i" "n = 0 \<longleftrightarrow> owned_dst (D w) uid i = None"
      by auto
    with body reply(2) without_dst_none [of "D w" uid i] show ?thesis by (auto split: if_splits)
  qed
qed

end
