(* ===== verification/DstService.thy ===== *)
theory DstService
  imports DstRepo ServerRepo ServerService
begin

text \<open>
  The service for saved worlds, \<open>src/internal/service/dst/service.go\<close>, with its requests and responses
  (\<open>src/internal/model/request/dst.go\<close>, \<open>src/internal/model/response/dst.go\<close>).
\<close>

section \<open>Requests and responses\<close>

record create_dst_req =
  cd_server_id :: u64
  cd_slot :: int
  cd_name :: string
  cd_description :: string
  cd_password :: string
  cd_max_players :: int
  cd_cluster_token :: string
  cd_mods :: "string list option"

record update_dst_req =
  ud_name :: string
  ud_description :: string
  ud_password :: "string option"
  ud_max_players :: int
  ud_cluster_token :: string
  ud_mods :: "string list option"

record list_dst_req =
  ld_server_id :: u64
  ld_page :: int
  ld_page_size :: int

record dst_resp =
  dr_id :: u64
  dr_server_id :: u64
  dr_slot :: int
  dr_name :: string
  dr_description :: string
  dr_max_players :: int
  dr_status :: int
  dr_mods :: "string list"
  dr_created_at :: int
  dr_updated_at :: int

record dst_list_resp =
  dl_list :: "dst_resp list"
  dl_total :: int
  dl_page :: int
  dl_page_size :: int

definition to_dst_resp :: "dst \<Rightarrow> dst_resp" where
  "to_dst_resp z =
     \<lparr>dr_id = ds_id z, dr_server_id = ds_server_id z, dr_slot = ds_slot z, dr_name = ds_name z,
      dr_description = ds_description z, dr_max_players = ds_max_players z, dr_status = ds_status z,
      dr_mods = or_empty (ds_mods z), dr_created_at = ds_created_at z, dr_updated_at = ds_updated_at z\<rparr>"

section \<open>The service\<close>

record ('w, 'h) dst_parts =
  dt_dst_repo :: "('w, 'h) dst_repo"
  dt_server_repo :: "('w, 'h) server_repo"

definition new_dst :: "u64 \<Rightarrow> create_dst_req \<Rightarrow> dst" where
  "new_dst uid req =
     \<lparr>ds_id = 0, ds_created_at = 0, ds_updated_at = 0, ds_slot = cd_slot req, ds_name = trim_space (cd_name req),
      ds_description = cd_description req, ds_password = cd_password req, ds_max_players = cd_max_players req,
      ds_cluster_token = trim_space (cd_cluster_token req), ds_status = 0,
      ds_mods = Some (or_empty (cd_mods req)), ds_server_id = cd_server_id req, ds_user_id = uid\<rparr>"

definition svc_create_dst :: "('w, 'h) dst_parts \<Rightarrow> 'h ctx \<Rightarrow> u64 \<Rightarrow> create_dst_req \<Rightarrow> ('w, dst_resp) go" where
  "svc_create_dst s ctx uid req =
     (if trim_space (cd_name req) = [] then fail (BizError 400 (DstMsg M_dst_name_empty))
      else if cd_server_id req = 0 \<or> cd_slot req < 1 \<or> 5 < cd_slot req \<or> cd_max_players req < 1
        then fail (BizError 400 (DstMsg M_dst_params_invalid))
      else
        call (sp_get_by_id (dt_server_repo s) ctx uid (cd_server_id req))
          (\<lambda>_. fail (BizError 500 (ServerMsg M_server_query_failed)))
          (\<lambda>server.
        case server of
          None \<Rightarrow> fail (BizError 404 (ServerMsg M_server_absent))
        | Some _ \<Rightarrow>
            call (dp_create (dt_dst_repo s) ctx (new_dst uid req))
              (\<lambda>e. if errors_is e ErrDuplicatedKey then fail (BizError 409 (DstMsg M_dst_slot_taken))
                   else fail (BizError 500 (DstMsg M_dst_create_failed)))
              (\<lambda>z. ret (to_dst_resp z))))"

definition svc_get_dst :: "('w, 'h) dst_parts \<Rightarrow> 'h ctx \<Rightarrow> u64 \<Rightarrow> u64 \<Rightarrow> ('w, dst_resp) go" where
  "svc_get_dst s ctx uid i =
     call (dp_get_by_id (dt_dst_repo s) ctx uid i)
       (\<lambda>_. fail (BizError 500 (DstMsg M_dst_query_failed)))
       (\<lambda>z. case z of
          None \<Rightarrow> fail (BizError 404 (DstMsg M_dst_absent))
        | Some row \<Rightarrow> ret (to_dst_resp row))"

definition svc_list_dsts :: "('w, 'h) dst_parts \<Rightarrow> 'h ctx \<Rightarrow> u64 \<Rightarrow> list_dst_req \<Rightarrow> ('w, dst_list_resp) go" where
  "svc_list_dsts s ctx uid req =
     (if ld_server_id req = 0 \<or> paging_invalid (ld_page req) (ld_page_size req)
      then fail (BizError 400 (DstMsg M_query_params_invalid))
      else
        call (sp_get_by_id (dt_server_repo s) ctx uid (ld_server_id req))
          (\<lambda>_. fail (BizError 500 (ServerMsg M_server_query_failed)))
          (\<lambda>server.
        case server of
          None \<Rightarrow> fail (BizError 404 (ServerMsg M_server_absent))
        | Some _ \<Rightarrow>
            call (dp_list (dt_dst_repo s) ctx uid (ld_server_id req) (ld_page req) (ld_page_size req))
              (\<lambda>_. fail (BizError 500 (DstMsg M_dst_list_failed)))
              (\<lambda>(zs, total). ret \<lparr>dl_list = map to_dst_resp zs, dl_total = total, dl_page = ld_page req,
                 dl_page_size = ld_page_size req\<rparr>)))"

text \<open>
  \<open>json.Marshal\<close> of a \<open>[]string\<close> has no error; the text it makes is the column's value, in which a string that
  is not UTF-8 is replaced as in \<open>json_strings\<close>.
\<close>

definition marshal_mods :: "string list \<Rightarrow> go_err + dbval" where
  "marshal_mods mods = Inr (DStrings (map utf8_coerce mods))"

definition dst_updates :: "update_dst_req \<Rightarrow> dbval \<Rightarrow> (string \<times> assignment) list" where
  "dst_updates req mods_json =
     [(''name'', Value (DText (trim_space (ud_name req)))), (''description'', Value (DText (ud_description req))),
      (''max_players'', Value (DInt (ud_max_players req))), (''mods'', Value mods_json)] @
     (case ud_password req of None \<Rightarrow> [] | Some p \<Rightarrow> [(''password'', Value (DText p))]) @
     (let token = trim_space (ud_cluster_token req)
      in if token \<noteq> [] then [(''cluster_token'', Value (DText token))] else [])"

definition svc_update_dst :: "('w, 'h) dst_parts \<Rightarrow> 'h ctx \<Rightarrow> u64 \<Rightarrow> u64 \<Rightarrow> update_dst_req \<Rightarrow> ('w, unit) go" where
  "svc_update_dst s ctx uid i req =
     (if trim_space (ud_name req) = [] then fail (BizError 400 (DstMsg M_dst_name_empty))
      else if ud_max_players req < 1 then fail (BizError 400 (DstMsg M_max_players_invalid))
      else
        case marshal_mods (or_empty (ud_mods req)) of
          Inl _ \<Rightarrow> fail (BizError 500 (DstMsg M_dst_update_failed))
        | Inr mods_json \<Rightarrow>
            call (dp_update (dt_dst_repo s) ctx uid i (dst_updates req mods_json))
              (\<lambda>e. if errors_is e ErrRecordNotFound then fail (BizError 404 (DstMsg M_dst_absent))
                   else fail (BizError 500 (DstMsg M_dst_update_failed)))
              (\<lambda>_. ret ()))"

definition svc_delete_dst :: "('w, 'h) dst_parts \<Rightarrow> 'h ctx \<Rightarrow> u64 \<Rightarrow> u64 \<Rightarrow> ('w, unit) go" where
  "svc_delete_dst s ctx uid i =
     call (dp_delete (dt_dst_repo s) ctx uid i)
       (\<lambda>e. if errors_is e ErrRecordNotFound then fail (BizError 404 (DstMsg M_dst_absent))
            else fail (BizError 500 (DstMsg M_dst_delete_failed)))
       (\<lambda>_. ret ())"

definition new_dst_service :: "('w, 'h) dst_repo \<Rightarrow> ('w, 'h) server_repo \<Rightarrow> ('w, 'h) dst_parts" where
  "new_dst_service zr sr = \<lparr>dt_dst_repo = zr, dt_server_repo = sr\<rparr>"

end
