(* ===== verification/TaskService.thy ===== *)
theory TaskService
  imports TaskRepo ServerService
begin

text \<open>
  The task service, \<open>src/internal/service/task/service.go\<close>, with its request and responses
  (\<open>src/internal/model/request/task.go\<close>, \<open>src/internal/model/response/task.go\<close>).
\<close>

section \<open>Requests and responses\<close>

record list_task_req =
  lt_page :: int
  lt_page_size :: int
  lt_type :: string
  lt_status :: string
  lt_resource_type :: string
  lt_resource_id :: u64

record task_resp =
  tr_id :: u64
  tr_name :: string
  tr_type :: string
  tr_status :: string
  tr_stage :: string
  tr_resource_type :: string
  tr_resource_id :: u64
  tr_error_message :: string
  tr_started_at :: "int option"
  tr_finished_at :: "int option"
  tr_created_at :: int
  tr_updated_at :: int

record task_list_resp =
  tl_list :: "task_resp list"
  tl_total :: int
  tl_page :: int
  tl_page_size :: int

definition to_task_resp :: "task \<Rightarrow> task_resp" where
  "to_task_resp t =
     \<lparr>tr_id = tk_id t, tr_name = tk_name t, tr_type = tk_type t, tr_status = tk_status t, tr_stage = tk_stage t,
      tr_resource_type = tk_resource_type t, tr_resource_id = tk_resource_id t, tr_error_message = tk_error_message t,
      tr_started_at = tk_started_at t, tr_finished_at = tk_finished_at t, tr_created_at = tk_created_at t,
      tr_updated_at = tk_updated_at t\<rparr>"

section \<open>The service\<close>

record ('w, 'h) task_parts =
  ts_task_repo :: "('w, 'h) task_repo"

definition svc_get_task :: "('w, 'h) task_parts \<Rightarrow> 'h ctx \<Rightarrow> u64 \<Rightarrow> u64 \<Rightarrow> ('w, task_resp) go" where
  "svc_get_task s ctx uid i =
     call (tp_get_by_id (ts_task_repo s) ctx uid i)
       (\<lambda>_. fail (BizError 500 (TaskMsg M_task_query_failed)))
       (\<lambda>t. case t of
          None \<Rightarrow> fail (BizError 404 (TaskMsg M_task_absent))
        | Some row \<Rightarrow> ret (to_task_resp row))"

definition to_list_query :: "list_task_req \<Rightarrow> list_query" where
  "to_list_query req =
     \<lparr>lq_page = lt_page req, lq_page_size = lt_page_size req, lq_type = lt_type req, lq_status = lt_status req,
      lq_resource_type = lt_resource_type req, lq_resource_id = lt_resource_id req\<rparr>"

definition task_status_known :: "string \<Rightarrow> bool" where
  "task_status_known st \<longleftrightarrow>
     st = [] \<or> st = TaskStatusPending \<or> st = TaskStatusRunning \<or> st = TaskStatusSucceeded \<or> st = TaskStatusFailed"

text \<open>The request is a pointer: \<open>None\<close> is nil.\<close>

definition svc_list_tasks :: "('w, 'h) task_parts \<Rightarrow> 'h ctx \<Rightarrow> u64 \<Rightarrow> list_task_req option \<Rightarrow> ('w, task_list_resp) go" where
  "svc_list_tasks s ctx uid request =
     (case request of
        None \<Rightarrow> fail (BizError 400 (ServerMsg M_paging_invalid))
      | Some req \<Rightarrow>
          if paging_invalid (lt_page req) (lt_page_size req) then fail (BizError 400 (ServerMsg M_paging_invalid))
          else if 64 < length (lt_type req) \<or> 64 < length (lt_resource_type req)
            then fail (BizError 400 (DstMsg M_query_params_invalid))
          else if \<not> task_status_known (lt_status req) then fail (BizError 400 (TaskMsg M_task_status_invalid))
          else if lt_resource_id req \<noteq> 0 \<and> lt_resource_type req = []
            then fail (BizError 400 (TaskMsg M_resource_type_required))
          else
            call (tp_list (ts_task_repo s) ctx uid (to_list_query req))
              (\<lambda>_. fail (BizError 500 (TaskMsg M_task_list_failed)))
              (\<lambda>(ts, total). ret \<lparr>tl_list = map to_task_resp ts, tl_total = total, tl_page = lt_page req,
                 tl_page_size = lt_page_size req\<rparr>))"

definition new_task_service :: "('w, 'h) task_repo \<Rightarrow> ('w, 'h) task_parts" where
  "new_task_service tr = \<lparr>ts_task_repo = tr\<rparr>"

end
