(* ===== verification/Panel.thy ===== *)
theory Panel
  imports ServerService DstService TaskService Hub
begin

text \<open>
  The services for servers, saved worlds and tasks over one database and the agent hub: what a request of a user
  may change (\<open>change\<close>, the abstract specification), that every request does no more, and what follows for the
  owners of rows and for the saved worlds of a server.
\<close>

section \<open>The services together\<close>

record ('w, 'h) panel =
  pe_servers :: "('w, 'h, server) model"
  pe_dsts :: "('w, 'h, dst) model"
  pe_tasks :: "('w, 'h, task) model"
  pe_db :: 'h
  pe_tx :: "('w, 'h, server) transaction"
  pe_encryptor :: "'w encryptor"
  pe_disconnect :: "u64 \<Rightarrow> 'w \<Rightarrow> 'w"

definition server_service :: "('w, 'h) panel \<Rightarrow> ('w, 'h) server_parts" where
  "server_service X =
     new_server_service (new_server_repo (pe_servers X) (pe_db X)) (new_task_repo (pe_tasks X) (pe_db X)) (pe_tx X)
       (pe_encryptor X) (pe_disconnect X)"

definition dst_service :: "('w, 'h) panel \<Rightarrow> ('w, 'h) dst_parts" where
  "dst_service X =
     new_dst_service (new_dst_repo (pe_dsts X) (pe_db X)) (new_server_repo (pe_servers X) (pe_db X))"

definition task_service :: "('w, 'h) panel \<Rightarrow> ('w, 'h) task_parts" where
  "task_service X = new_task_service (new_task_repo (pe_tasks X) (pe_db X))"

lemma service_simps [simp]:
  "sp_create (sr_server_repo (server_service X)) = server_create (pe_servers X) (pe_db X)"
  "sp_get_by_id (sr_server_repo (server_service X)) = server_get_by_id (pe_servers X) (pe_db X)"
  "sp_list (sr_server_repo (server_service X)) = server_list (pe_servers X) (pe_db X)"
  "sp_update (sr_server_repo (server_service X)) = server_update (pe_servers X) (pe_db X)"
  "sp_delete (sr_server_repo (server_service X)) = server_delete (pe_servers X) (pe_db X)"
  "tp_create (sr_task_repo (server_service X)) = task_create (pe_tasks X) (pe_db X)"
  "sr_exec_tx (server_service X) = exec_tx (pe_tx X)"
  "sr_encryptor (server_service X) = pe_encryptor X"
  "sr_disconnect (server_service X) = pe_disconnect X"
  "dp_create (dt_dst_repo (dst_service X)) = dst_create (pe_dsts X) (pe_db X)"
  "dp_get_by_id (dt_dst_repo (dst_service X)) = dst_get_by_id (pe_dsts X) (pe_db X)"
  "dp_list (dt_dst_repo (dst_service X)) = dst_list (pe_dsts X) (pe_db X)"
  "dp_update (dt_dst_repo (dst_service X)) = dst_update (pe_dsts X) (pe_db X)"
  "dp_delete (dt_dst_repo (dst_service X)) = dst_delete (pe_dsts X) (pe_db X)"
  "sp_get_by_id (dt_server_repo (dst_service X)) = server_get_by_id (pe_servers X) (pe_db X)"
  "tp_get_by_id (ts_task_repo (task_service X)) = task_get_by_id (pe_tasks X) (pe_db X)"
  "tp_list (ts_task_repo (task_service X)) = task_list (pe_tasks X) (pe_db X)"
  by (simp_all add: server_service_def dst_service_def task_service_def new_server_service_def new_dst_service_def
      new_task_service_def new_server_repo_def new_dst_repo_def new_task_repo_def)

text \<open>
  What is relied on: the database and its transactions, an encryptor that touches neither view, and a
  \<open>Disconnect\<close> that is the hub's.
\<close>

definition panel_law :: "server_config \<Rightarrow> ('w, 'h) panel \<Rightarrow> ('w \<Rightarrow> database) \<Rightarrow> ('w \<Rightarrow> hub) \<Rightarrow> bool" where
  "panel_law q X D V \<longleftrightarrow>
     model_law q servers (pe_servers X) D V \<and> model_law q dsts (pe_dsts X) D V \<and> model_law q tasks (pe_tasks X) D V \<and>
     tx_law D V (pe_tx X) \<and>
     (\<forall>p. leaves (\<lambda>w. (D w, V w)) (en_encrypt (pe_encryptor X) p)) \<and>
     (\<forall>sid w. D (pe_disconnect X sid w) = D w \<and> V (pe_disconnect X sid w) = snd (disconnect sid (V w)))"

lemma panel_lawD:
  assumes "panel_law q X D V"
  shows "model_law q servers (pe_servers X) D V" and "model_law q dsts (pe_dsts X) D V"
    and "model_law q tasks (pe_tasks X) D V" and "tx_law D V (pe_tx X)"
    and "en_encrypt (pe_encryptor X) p w = (r, w') \<Longrightarrow> D w' = D w \<and> V w' = V w"
    and "D (pe_disconnect X sid w) = D w" and "V (pe_disconnect X sid w) = snd (disconnect sid (V w))"
proof -
  show "D w' = D w \<and> V w' = V w" if "en_encrypt (pe_encryptor X) p w = (r, w')"
  proof -
    have "leaves (\<lambda>w. (D w, V w)) (en_encrypt (pe_encryptor X) p)" using assms by (simp add: panel_law_def)
    from leavesD [OF this that] show ?thesis by simp
  qed
qed (use assms in \<open>simp_all add: panel_law_def\<close>)

section \<open>A reference\<close>

type_synonym panel_world = "database \<times> hub"

definition put_fst :: "database \<Rightarrow> panel_world \<Rightarrow> panel_world" where
  "put_fst d w = (d, snd w)"

definition ref_panel :: "(panel_world, unit) panel" where
  "ref_panel =
     \<lparr>pe_servers = ref_model fst put_fst \<lparr>sq_text_eq = (=), sq_changed_only = True\<rparr> servers,
      pe_dsts = ref_model fst put_fst \<lparr>sq_text_eq = (=), sq_changed_only = True\<rparr> dsts,
      pe_tasks = ref_model fst put_fst \<lparr>sq_text_eq = (=), sq_changed_only = True\<rparr> tasks,
      pe_db = (), pe_tx = ref_tx fst put_fst,
      pe_encryptor = \<lparr>en_encrypt = (\<lambda>p. ret (rev p)), en_decrypt = (\<lambda>c. Inr (rev c))\<rparr>,
      pe_disconnect = (\<lambda>sid w. (fst w, snd (disconnect sid (snd w))))\<rparr>"

lemma ref_panel_law: "panel_law \<lparr>sq_text_eq = (=), sq_changed_only = True\<rparr> ref_panel fst snd"
proof -
  have put: "\<forall>d w. fst (put_fst d w) = d \<and> snd (put_fst d w) = snd w" by (simp add: put_fst_def)
  show ?thesis
    unfolding panel_law_def ref_panel_def
    by (simp add: ref_model_law [OF put] ref_tx_law [OF put] leaves_def ret_def)
qed

definition empty_db :: database where
  "empty_db =
     \<lparr>db_now = 0, db_users = \<lparr>tb_rows = [], tb_next = 1\<rparr>, db_servers = \<lparr>tb_rows = [], tb_next = 1\<rparr>,
      db_dsts = \<lparr>tb_rows = [], tb_next = 1\<rparr>, db_tasks = \<lparr>tb_rows = [], tb_next = 1\<rparr>\<rparr>"

definition sample_create :: create_server_req where
  "sample_create =
     \<lparr>cr_name = '' home '', cr_ip = ''10.0.0.7'', cr_port = 22, cr_username = ''root'', cr_password = ''pw''\<rparr>"

section \<open>What a request may change\<close>

definition deployed :: "database \<Rightarrow> u64 \<Rightarrow> server \<Rightarrow> database" where
  "deployed d uid row = with_task (with_server d row) (deploy_task uid (tb_next (db_servers d)))"

text \<open>
  The rows the services write: a name, a canonical address, a slot and a number of players in range. An edit is a
  list of assignments that makes or keeps rows so.
\<close>

definition server_ok :: "server \<Rightarrow> bool" where
  "server_ok s \<longleftrightarrow> sv_name s \<noteq> [] \<and> sv_username s \<noteq> [] \<and> canonical_ip (sv_ip s) = Some (sv_ip s)"

definition dst_ok :: "dst \<Rightarrow> bool" where
  "dst_ok z \<longleftrightarrow> ds_name z \<noteq> [] \<and> 1 \<le> ds_slot z \<and> ds_slot z \<le> 5 \<and> 1 \<le> ds_max_players z"

definition server_edit :: "(string \<times> assignment) list \<Rightarrow> bool" where
  "server_edit ups \<longleftrightarrow> (\<forall>now s. server_ok (updated servers now ups s))"

definition dst_edit :: "(string \<times> assignment) list \<Rightarrow> bool" where
  "dst_edit ups \<longleftrightarrow> (\<forall>now z. dst_ok z \<longrightarrow> dst_ok (updated dsts now ups z))"

inductive change :: "u64 \<Rightarrow> database \<Rightarrow> database \<Rightarrow> bool" where
  change_none: "change uid d d"
| change_server_added: "sv_user_id row = uid \<Longrightarrow> server_ok row \<Longrightarrow> change uid d (deployed d uid row)"
| change_server_updated: "server_edit ups \<Longrightarrow> change uid d (with_updated_server d uid sid ups)"
| change_server_removed: "\<not> has_dst d sid \<Longrightarrow> change uid d (without_server d uid sid)"
| change_dst_added: "ds_user_id z = uid \<Longrightarrow> owned_server d uid (ds_server_id z) \<noteq> None \<Longrightarrow> dst_ok z \<Longrightarrow>
    change uid d (with_dst d z)"
| change_dst_updated: "dst_edit ups \<Longrightarrow> change uid d (with_updated_dst d uid i ups)"
| change_dst_removed: "change uid d (without_dst d uid i)"

lemma canonical_idem:
  assumes "canonical_ip t = Some ip"
  shows "canonical_ip ip = Some ip"
proof -
  obtain a where a: "parse_addr t = Some a" "ip = show_addr (unmap a)" "parse_addr ip = Some (unmap a)"
    using canonical_parse [OF assms] by blast
  have "unmap (unmap a) = unmap a" using unmap_ok [OF parse_addr_ok [OF a(1)]] by (cases "unmap a") auto
  with a show ?thesis by (simp add: canonical_ip_def)
qed

lemma server_updates_edit:
  assumes "canonical_ip t = Some ip" and "name \<noteq> []" and "username \<noteq> []"
  shows "server_edit (server_updates name ip port username)"
    and "server_edit (server_updates name ip port username @ [(''password'', Value (DText password))])"
  using assms(2,3) canonical_idem [OF assms(1)]
  by (simp_all add: server_edit_def server_ok_def server_updates_def updated_def assign_def server_schema_def server_set_def)

lemma dst_updates_edit:
  assumes "trim_space (ud_name req) \<noteq> []" and "1 \<le> ud_max_players req"
  shows "dst_edit (dst_updates req json)"
  using assms
  by (simp add: dst_edit_def dst_ok_def dst_updates_def updated_def assign_def dst_schema_def dst_set_def Let_def
      split: option.split)

text \<open>Creating a server: the transaction makes the server and its deployment task, or nothing.\<close>

lemma create_in_tx_reply:
  assumes law: "panel_law q X D V" and run: "create_in_tx (server_service X) uid row ctx w = (r, w')"
  shows "V w' = V w \<and>
    (\<forall>s. r = Inr s \<longrightarrow> s = stamped_server (D w) row \<and> D w' = deployed (D w) uid row) \<and>
    (\<forall>e. r = Inl e \<longrightarrow> e = ErrDuplicatedKey \<or> (\<exists>m. e = LibError m))"
proof -
  obtain r1 w1 where c1: "server_create (pe_servers X) (pe_db X) ctx row w = (r1, w1)" by fastforce
  note v1 = server_create_reply [OF panel_lawD(1) [OF law] c1]
  show ?thesis
  proof (cases r1)
    case (Inl e)
    with run c1 v1 show ?thesis by (auto simp: create_in_tx_def)
  next
    case (Inr s)
    obtain r2 w2 where c2: "task_create (pe_tasks X) (pe_db X) ctx (deploy_task uid (sv_id s)) w1 = (r2, w2)" by fastforce
    note v2 = task_create_reply [OF panel_lawD(3) [OF law] c2]
    from run c1 c2 Inr v1 v2 show ?thesis
      by (cases r2) (auto simp: create_in_tx_def deployed_def)
  qed
qed

lemma deploy_tx_reply:
  assumes law: "panel_law q X D V" and run: "exec_tx (pe_tx X) ctx (create_in_tx (server_service X) uid row) w = (r, w')"
  shows "V w' = V w" and "r = Inr s \<Longrightarrow> s = stamped_server (D w) row \<and> D w' = deployed (D w) uid row"
    and "r = Inl e \<Longrightarrow> D w' = D w \<or> (\<exists>m. e = LibError m) \<and> D w' = deployed (D w) uid row"
proof -
  let ?body = "create_in_tx (server_service X) uid row"
  have tx: "pe_tx X (\<lambda>tx. ?body (Some tx)) w = (r, w')" using run by (simp add: exec_tx_def)
  from tx_cases [OF panel_lawD(4) [OF law] tx] have "V w' = V w \<and>
      (\<forall>s. r = Inr s \<longrightarrow> s = stamped_server (D w) row \<and> D w' = deployed (D w) uid row) \<and>
      (\<forall>e. r = Inl e \<longrightarrow> D w' = D w \<or> (\<exists>m. e = LibError m) \<and> D w' = deployed (D w) uid row)"
    unfolding tx_outcome_def
  proof (elim disjE exE conjE)
    fix tx wb rb we
    assume b: "D wb = D w" "V wb = V w" "?body (Some tx) wb = (rb, we)" "V w' = V we"
      and o: "case rb of Inl e \<Rightarrow> r = Inl e \<and> D w' = D w
        | Inr a \<Rightarrow> r = Inr a \<and> D w' = D we \<or> (\<exists>m. r = Inl (LibError m)) \<and> (D w' = D w \<or> D w' = D we)"
    from create_in_tx_reply [OF law b(3)] b o show ?thesis by (cases rb) auto
  qed auto
  then show "V w' = V w" and "r = Inr s \<Longrightarrow> s = stamped_server (D w) row \<and> D w' = deployed (D w) uid row"
    and "r = Inl e \<Longrightarrow> D w' = D w \<or> (\<exists>m. e = LibError m) \<and> D w' = deployed (D w) uid row"
    by simp_all
qed

lemma create_server_reply:
  assumes law: "panel_law q X D V" and run: "svc_create_server (server_service X) ctx uid req w = (r, w')"
  shows "V w' = V w \<and>
    (\<exists>ip password. let row = new_server uid (trim_space (cr_name req)) ip (cr_port req) (trim_space (cr_username req)) password in
      (r = Inr (to_server_resp (stamped_server (D w) row)) \<and> canonical_ip (cr_ip req) = Some ip \<and>
         server_ok row \<and> D w' = deployed (D w) uid row) \<or>
      (\<exists>code m. r = Inl (BizError code (ServerMsg m)) \<and>
         (D w' = D w \<or> code = 500 \<and> server_ok row \<and> D w' = deployed (D w) uid row)))"
proof -
  let ?name = "trim_space (cr_name req)" and ?user = "trim_space (cr_username req)"
  show ?thesis
  proof (cases "?name = [] \<or> ?user = []")
    case True
    with run show ?thesis by (auto simp: svc_create_server_def Let_def)
  next
    case named: False
    show ?thesis
    proof (cases "canonical_ip (cr_ip req)")
      case None
      with run named show ?thesis by (auto simp: svc_create_server_def Let_def)
    next
      case (Some ip)
      obtain r1 w1 where enc: "en_encrypt (pe_encryptor X) (cr_password req) w = (r1, w1)" by fastforce
      note v1 = panel_lawD(5) [OF law enc]
      show ?thesis
      proof (cases r1)
        case (Inl e)
        with run named Some enc v1 show ?thesis by (auto simp: svc_create_server_def Let_def)
      next
        case (Inr password)
        let ?row = "new_server uid ?name ip (cr_port req) ?user password"
        obtain r2 w2 where tx: "exec_tx (pe_tx X) ctx (create_in_tx (server_service X) uid ?row) w1 = (r2, w2)" by fastforce
        note v2 = deploy_tx_reply [OF law tx]
        have "(r, w') = (case r2 of
            Inl e \<Rightarrow> (Inl (if errors_is e ErrDuplicatedKey then BizError 409 (ServerMsg M_server_exists)
              else BizError 500 (ServerMsg M_server_create_failed)), w2)
          | Inr s \<Rightarrow> (Inr (to_server_resp s), w2))"
          using run named Some enc Inr tx by (cases r2) (auto simp: svc_create_server_def Let_def split: if_splits)
        moreover have "server_ok ?row"
          using named canonical_idem [OF Some] by (simp add: server_ok_def new_server_def)
        ultimately show ?thesis
          using v1 v2 Some by (cases r2; intro conjI exI [of _ ip] exI [of _ password]) (auto simp: Let_def)
      qed
    qed
  qed
qed
text \<open>The other operations.\<close>

lemma delete_server_reply:
  assumes law: "panel_law q X D V" and run: "svc_delete_server (server_service X) ctx uid sid w = (r, w')"
  shows "(D w' = D w \<or> \<not> has_dst (D w) sid \<and> D w' = without_server (D w) uid sid) \<and>
    (r = Inr () \<and> owned_server (D w) uid sid \<noteq> None \<and> \<not> has_dst (D w) sid \<and>
       D w' = without_server (D w) uid sid \<and> V w' = snd (disconnect sid (V w)) \<or>
     r = Inl (BizError 409 (ServerMsg M_server_has_dst)) \<and> owned_server (D w) uid sid \<noteq> None \<and> has_dst (D w) sid \<and>
       D w' = D w \<and> V w' = V w \<or>
     r = Inl (BizError 404 (ServerMsg M_server_absent)) \<and> owned_server (D w) uid sid = None \<and> D w' = D w \<and> V w' = V w \<or>
     r = Inl (BizError 500 (ServerMsg M_server_delete_failed)) \<and> V w' = V w)"
proof -
  obtain r1 w1 where del: "server_delete (pe_servers X) (pe_db X) ctx uid sid w = (r1, w1)" by fastforce
  note v = server_delete_reply [OF panel_lawD(1) [OF law] del]
  have "(r, w') = (case r1 of
      Inl e \<Rightarrow> (Inl (if errors_is e ErrServerHasDst then BizError 409 (ServerMsg M_server_has_dst)
        else if errors_is e ErrRecordNotFound then BizError 404 (ServerMsg M_server_absent)
        else BizError 500 (ServerMsg M_server_delete_failed)), w1)
    | Inr u \<Rightarrow> (Inr (), pe_disconnect X sid w1))"
    using run del by (cases r1) (auto simp: svc_delete_server_def split: if_splits)
  then show ?thesis
  proof (cases r1)
    case (Inl e)
    with v consider "e = ErrServerHasDst" | "e = ErrRecordNotFound" | m where "e = LibError m" by auto
    then show ?thesis using Inl v run del by cases (auto simp: svc_delete_server_def)
  next
    case (Inr u)
    then show ?thesis using run del v panel_lawD(6,7) [OF law] by (auto simp: svc_delete_server_def)
  qed
qed
lemma update_server_reply:
  assumes law: "panel_law q X D V" and run: "svc_update_server (server_service X) ctx uid sid req w = (r, w')"
  shows "V w' = V w \<and> (D w' = D w \<or> (\<exists>ups. server_edit ups \<and> D w' = with_updated_server (D w) uid sid ups))"
proof -
  have rows: "V w2 = V w1 \<and> (D w2 = D w1 \<or> D w2 = with_updated_server (D w1) uid sid ups)"
    if run2: "update_rows (server_service X) ctx uid sid ups w1 = (r2, w2)" for ups w1 r2 w2
  proof -
    obtain r3 w3 where up: "server_update (pe_servers X) (pe_db X) ctx uid sid ups w1 = (r3, w3)" by fastforce
    have "w2 = w3" using run2 up by (cases r3) (auto simp: update_rows_def split: if_splits)
    with server_update_reply [OF panel_lawD(1) [OF law] up] show ?thesis by simp
  qed
  show ?thesis
  proof (cases "trim_space (up_name req) = [] \<or> trim_space (up_username req) = [] \<or> canonical_ip (up_ip req) = None")
    case True
    with run show ?thesis by (auto simp: svc_update_server_def Let_def split: option.splits if_splits)
  next
    case False
    then obtain ip where named: "canonical_ip (up_ip req) = Some ip" "trim_space (up_name req) \<noteq> []"
      "trim_space (up_username req) \<noteq> []" by auto
    let ?ups = "server_updates (trim_space (up_name req)) ip (up_port req) (trim_space (up_username req))"
    show ?thesis
    proof (cases "up_password req = []")
      case True
      with run named have "update_rows (server_service X) ctx uid sid ?ups w = (r, w')"
        by (simp add: svc_update_server_def Let_def)
      from rows [OF this] server_updates_edit [OF named] show ?thesis by blast
    next
      case False
      obtain r1 w1 where enc: "en_encrypt (pe_encryptor X) (up_password req) w = (r1, w1)" by fastforce
      note v = panel_lawD(5) [OF law enc]
      show ?thesis
      proof (cases r1)
        case (Inl e)
        with run named False enc v show ?thesis by (auto simp: svc_update_server_def Let_def)
      next
        case (Inr password)
        with run named False enc
        have "update_rows (server_service X) ctx uid sid (?ups @ [(''password'', Value (DText password))]) w1 = (r, w')"
          by (simp add: svc_update_server_def Let_def)
        from rows [OF this] v server_updates_edit [OF named] show ?thesis by (metis (lifting))
      qed
    qed
  qed
qed

lemma create_dst_reply:
  assumes law: "panel_law q X D V" and run: "svc_create_dst (dst_service X) ctx uid req w = (r, w')"
  shows "V w' = V w \<and>
    (D w' = D w \<or> owned_server (D w) uid (cd_server_id req) \<noteq> None \<and> dst_ok (new_dst uid req) \<and>
       D w' = with_dst (D w) (new_dst uid req)) \<and>
    (\<forall>resp. r = Inr resp \<longrightarrow> resp = to_dst_resp (stamped_dst (D w) (new_dst uid req)) \<and>
       owned_server (D w) uid (cd_server_id req) \<noteq> None \<and> D w' = with_dst (D w) (new_dst uid req))"
proof (cases "trim_space (cd_name req) = [] \<or> cd_server_id req = 0 \<or> cd_slot req < 1 \<or> 5 < cd_slot req \<or> cd_max_players req < 1")
  case True
  with run show ?thesis by (auto simp: svc_create_dst_def split: if_splits)
next
  case False
  obtain r1 w1 where get: "server_get_by_id (pe_servers X) (pe_db X) ctx uid (cd_server_id req) w = (r1, w1)" by fastforce
  obtain r2 w2 where ins: "dst_create (pe_dsts X) (pe_db X) ctx (new_dst uid req) w1 = (r2, w2)" by fastforce
  have "(r, w') = (case r1 of Inl e \<Rightarrow> (Inl (BizError 500 (ServerMsg M_server_query_failed)), w1)
    | Inr None \<Rightarrow> (Inl (BizError 404 (ServerMsg M_server_absent)), w1)
    | Inr (Some s) \<Rightarrow> (case r2 of
        Inl e \<Rightarrow> (Inl (if errors_is e ErrDuplicatedKey then BizError 409 (DstMsg M_dst_slot_taken)
          else BizError 500 (DstMsg M_dst_create_failed)), w2)
      | Inr z \<Rightarrow> (Inr (to_dst_resp z), w2)))"
    using run False get ins by (cases r1; cases r2) (auto simp: svc_create_dst_def split: option.splits if_splits)
  moreover have "dst_ok (new_dst uid req)" using False by (simp add: dst_ok_def new_dst_def)
  ultimately show ?thesis
    using server_get_reply [OF panel_lawD(1) [OF law] get] dst_create_reply [OF panel_lawD(2) [OF law] ins]
    by (cases r1; cases r2) (auto split: option.splits)
qed

lemma update_dst_reply:
  assumes law: "panel_law q X D V" and run: "svc_update_dst (dst_service X) ctx uid i req w = (r, w')"
  shows "V w' = V w \<and> (D w' = D w \<or> (\<exists>ups. dst_edit ups \<and> D w' = with_updated_dst (D w) uid i ups))"
proof (cases "trim_space (ud_name req) = [] \<or> ud_max_players req < 1")
  case True
  with run show ?thesis by (auto simp: svc_update_dst_def split: if_splits)
next
  case False
  let ?ups = "dst_updates req (DStrings (map utf8_coerce (or_empty (ud_mods req))))"
  obtain r1 w1 where up: "dst_update (pe_dsts X) (pe_db X) ctx uid i ?ups w = (r1, w1)" by fastforce
  from run up have "w' = w \<or> w' = w1"
    by (cases r1) (auto simp: svc_update_dst_def marshal_mods_def split: if_splits)
  moreover have "dst_edit ?ups" using False by (intro dst_updates_edit) simp_all
  ultimately show ?thesis using dst_update_reply [OF panel_lawD(2) [OF law] up] by auto
qed

lemma delete_dst_reply:
  assumes law: "panel_law q X D V" and run: "svc_delete_dst (dst_service X) ctx uid i w = (r, w')"
  shows "V w' = V w \<and> (D w' = D w \<or> D w' = without_dst (D w) uid i)"
proof -
  obtain r1 w1 where del: "dst_delete (pe_dsts X) (pe_db X) ctx uid i w = (r1, w1)" by fastforce
  from run del have "w' = w1" by (cases r1) (auto simp: svc_delete_dst_def split: if_splits)
  with dst_delete_reply [OF panel_lawD(2) [OF law] del] show ?thesis by auto
qed

text \<open>The readers.\<close>

lemma get_server_reply:
  assumes law: "panel_law q X D V" and run: "svc_get_server (server_service X) ctx uid sid w = (r, w')"
  shows "D w' = D w \<and> V w' = V w \<and>
    (\<forall>resp. r = Inr resp \<longrightarrow> (\<exists>s. owned_server (D w) uid sid = Some s \<and> resp = to_server_resp s))"
proof -
  obtain r1 w1 where get: "server_get_by_id (pe_servers X) (pe_db X) ctx uid sid w = (r1, w1)" by fastforce
  with run server_get_reply [OF panel_lawD(1) [OF law] get] show ?thesis
    by (cases r1) (auto simp: svc_get_server_def split: option.splits)
qed

lemma list_servers_reply:
  assumes law: "panel_law q X D V" and run: "svc_list_servers (server_service X) ctx uid req w = (r, w')"
  shows "D w' = D w \<and> V w' = V w \<and>
    (\<forall>resp. r = Inr resp \<longrightarrow> \<not> paging_invalid (lr_page req) (lr_page_size req) \<and>
       resp = \<lparr>vl_list = map to_server_resp (page_of (lr_page req) (lr_page_size req)
                 (in_order servers (Desc ''id'') (owned_servers (D w) uid))),
               vl_total = int (length (owned_servers (D w) uid)), vl_page = lr_page req, vl_page_size = lr_page_size req\<rparr>)"
proof -
  obtain r1 w1 where l: "server_list (pe_servers X) (pe_db X) ctx uid (lr_page req) (lr_page_size req) w = (r1, w1)"
    by fastforce
  with run server_list_reply [OF panel_lawD(1) [OF law] l] show ?thesis
    by (cases r1) (auto simp: svc_list_servers_def split: if_splits prod.splits)
qed

lemma get_dst_reply:
  assumes law: "panel_law q X D V" and run: "svc_get_dst (dst_service X) ctx uid i w = (r, w')"
  shows "D w' = D w \<and> V w' = V w \<and>
    (\<forall>resp. r = Inr resp \<longrightarrow> (\<exists>z. owned_dst (D w) uid i = Some z \<and> resp = to_dst_resp z))"
proof -
  obtain r1 w1 where get: "dst_get_by_id (pe_dsts X) (pe_db X) ctx uid i w = (r1, w1)" by fastforce
  with run dst_get_reply [OF panel_lawD(2) [OF law] get] show ?thesis
    by (cases r1) (auto simp: svc_get_dst_def split: option.splits)
qed

lemma list_dsts_reply:
  assumes law: "panel_law q X D V" and run: "svc_list_dsts (dst_service X) ctx uid req w = (r, w')"
  shows "D w' = D w \<and> V w' = V w \<and>
    (\<forall>resp. r = Inr resp \<longrightarrow> \<not> paging_invalid (ld_page req) (ld_page_size req) \<and>
       owned_server (D w) uid (ld_server_id req) \<noteq> None \<and>
       resp = \<lparr>dl_list = map to_dst_resp (page_of (ld_page req) (ld_page_size req)
                 (in_order dsts (Asc ''slot'') (server_dsts (D w) uid (ld_server_id req)))),
               dl_total = int (length (server_dsts (D w) uid (ld_server_id req))), dl_page = ld_page req,
               dl_page_size = ld_page_size req\<rparr>)"
proof (cases "ld_server_id req = 0 \<or> paging_invalid (ld_page req) (ld_page_size req)")
  case True
  with run show ?thesis by (auto simp: svc_list_dsts_def)
next
  case False
  obtain r1 w1 where get: "server_get_by_id (pe_servers X) (pe_db X) ctx uid (ld_server_id req) w = (r1, w1)" by fastforce
  obtain r2 w2 where l: "dst_list (pe_dsts X) (pe_db X) ctx uid (ld_server_id req) (ld_page req) (ld_page_size req) w1 = (r2, w2)"
    by fastforce
  from run False get l server_get_reply [OF panel_lawD(1) [OF law] get] dst_list_reply [OF panel_lawD(2) [OF law] l]
  show ?thesis
    by (cases r1; cases r2) (auto simp: svc_list_dsts_def split: option.splits prod.splits)
qed

lemma get_task_reply:
  assumes law: "panel_law q X D V" and run: "svc_get_task (task_service X) ctx uid i w = (r, w')"
  shows "D w' = D w \<and> V w' = V w \<and>
    (\<forall>resp. r = Inr resp \<longrightarrow> (\<exists>t. owned_task (D w) uid i = Some t \<and> resp = to_task_resp t))"
proof -
  obtain r1 w1 where get: "task_get_by_id (pe_tasks X) (pe_db X) ctx uid i w = (r1, w1)" by fastforce
  with run task_get_reply [OF panel_lawD(3) [OF law] get] show ?thesis
    by (cases r1) (auto simp: svc_get_task_def split: option.splits)
qed
lemma list_tasks_reply:
  assumes law: "panel_law q X D V" and run: "svc_list_tasks (task_service X) ctx uid request w = (r, w')"
  shows "D w' = D w \<and> V w' = V w \<and>
    (\<forall>resp. r = Inr resp \<longrightarrow> (\<exists>req. request = Some req \<and>
       \<not> paging_invalid (lt_page req) (lt_page_size req) \<and> task_status_known (lt_status req) \<and>
       (let found = filter (asked_for (sq_text_eq q) (to_list_query req)) (owned_tasks (D w) uid) in
        resp = \<lparr>tl_list = map to_task_resp (page_of (lt_page req) (lt_page_size req) (in_order tasks (Desc ''id'') found)),
          tl_total = int (length found), tl_page = lt_page req, tl_page_size = lt_page_size req\<rparr>)))"
proof (cases request)
  case None
  with run show ?thesis by (simp add: svc_list_tasks_def)
next
  case (Some req)
  obtain r1 w1 where l: "task_list (pe_tasks X) (pe_db X) ctx uid (to_list_query req) w = (r1, w1)" by fastforce
  have p: "lq_page (to_list_query req) = lt_page req" "lq_page_size (to_list_query req) = lt_page_size req"
    by (simp_all add: to_list_query_def)
  from run Some l task_list_reply [OF panel_lawD(3) [OF law] l, unfolded p] show ?thesis
    by (cases r1) (auto simp: svc_list_tasks_def Let_def split: if_splits prod.splits)
qed

section \<open>Requests\<close>

datatype panel_op =
    CreateServer create_server_req | GetServer u64 | ListServers list_server_req
  | UpdateServer u64 update_server_req | DeleteServer u64
  | CreateDst create_dst_req | GetDst u64 | ListDsts list_dst_req | UpdateDst u64 update_dst_req | DeleteDst u64
  | GetTask u64 | ListTasks "list_task_req option"

datatype panel_answer =
    AServer server_resp | AServers server_list_resp | ADst dst_resp | ADsts dst_list_resp
  | ATask task_resp | ATasks task_list_resp | ADone

definition as_answer :: "('a \<Rightarrow> panel_answer) \<Rightarrow> ('w, 'a) go \<Rightarrow> ('w, panel_answer) go" where
  "as_answer f m = call m fail (\<lambda>a. ret (f a))"

fun panel_op_step :: "('w, 'h) panel \<Rightarrow> u64 \<Rightarrow> panel_op \<Rightarrow> ('w, panel_answer) go" where
  "panel_op_step X uid (CreateServer req) = as_answer AServer (svc_create_server (server_service X) None uid req)"
| "panel_op_step X uid (GetServer sid) = as_answer AServer (svc_get_server (server_service X) None uid sid)"
| "panel_op_step X uid (ListServers req) = as_answer AServers (svc_list_servers (server_service X) None uid req)"
| "panel_op_step X uid (UpdateServer sid req) =
     as_answer (\<lambda>_. ADone) (svc_update_server (server_service X) None uid sid req)"
| "panel_op_step X uid (DeleteServer sid) = as_answer (\<lambda>_. ADone) (svc_delete_server (server_service X) None uid sid)"
| "panel_op_step X uid (CreateDst req) = as_answer ADst (svc_create_dst (dst_service X) None uid req)"
| "panel_op_step X uid (GetDst i) = as_answer ADst (svc_get_dst (dst_service X) None uid i)"
| "panel_op_step X uid (ListDsts req) = as_answer ADsts (svc_list_dsts (dst_service X) None uid req)"
| "panel_op_step X uid (UpdateDst i req) = as_answer (\<lambda>_. ADone) (svc_update_dst (dst_service X) None uid i req)"
| "panel_op_step X uid (DeleteDst i) = as_answer (\<lambda>_. ADone) (svc_delete_dst (dst_service X) None uid i)"
| "panel_op_step X uid (GetTask i) = as_answer ATask (svc_get_task (task_service X) None uid i)"
| "panel_op_step X uid (ListTasks req) = as_answer ATasks (svc_list_tasks (task_service X) None uid req)"

definition panel_step :: "('w, 'h) panel \<Rightarrow> u64 \<times> panel_op \<Rightarrow> ('w, panel_answer) go" where
  "panel_step X = (\<lambda>(uid, x). panel_op_step X uid x)"

lemma as_answer_world: "as_answer f m w = (r, w') \<Longrightarrow> \<exists>r'. m w = (r', w')"
  by (auto simp: as_answer_def split: call_split_asm)

lemma new_server_owner [simp]: "sv_user_id (new_server uid name ip port username password) = uid"
  by (simp add: new_server_def)

lemma change_new_server:
  "server_ok (new_server uid name ip port username password) \<Longrightarrow>
   change uid d (deployed d uid (new_server uid name ip port username password))"
  by (rule change_server_added) simp_all

lemma change_new_dst:
  "owned_server d uid (cd_server_id req) = Some s \<Longrightarrow> dst_ok (new_dst uid req) \<Longrightarrow> change uid d (with_dst d (new_dst uid req))"
  by (rule change_dst_added) (simp_all add: new_dst_def)

text \<open>Every request does one of the changes of its user: the services implement \<open>change\<close>.\<close>

definition does_change :: "('w \<Rightarrow> database) \<Rightarrow> u64 \<Rightarrow> ('w, 'a) go \<Rightarrow> bool" where
  "does_change D uid m \<longleftrightarrow> (\<forall>w r w'. m w = (r, w') \<longrightarrow> change uid (D w) (D w'))"

lemma does_changeI: "(\<And>w r w'. m w = (r, w') \<Longrightarrow> change uid (D w) (D w')) \<Longrightarrow> does_change D uid m"
  by (simp add: does_change_def)

lemma as_answer_changes: "does_change D uid m \<Longrightarrow> does_change D uid (as_answer f m)"
  by (auto simp: does_change_def dest!: as_answer_world)

lemma server_services_change:
  assumes law: "panel_law q X D V"
  shows "does_change D uid (svc_create_server (server_service X) None uid sreq)"
    and "does_change D uid (svc_get_server (server_service X) None uid sid)"
    and "does_change D uid (svc_list_servers (server_service X) None uid lreq)"
    and "does_change D uid (svc_update_server (server_service X) None uid sid ureq)"
    and "does_change D uid (svc_delete_server (server_service X) None uid sid)"
  subgoal by (rule does_changeI, drule create_server_reply [OF law], auto simp: Let_def intro: change_none change_new_server)
  subgoal by (rule does_changeI, drule get_server_reply [OF law], auto simp: Let_def intro: change_none)
  subgoal by (rule does_changeI, drule list_servers_reply [OF law], auto simp: Let_def intro: change_none)
  subgoal by (rule does_changeI, drule update_server_reply [OF law], auto simp: Let_def intro: change_none change_server_updated)
  subgoal by (rule does_changeI, drule delete_server_reply [OF law], auto simp: Let_def intro: change_none change_server_removed)
  done

lemma dst_services_change:
  assumes law: "panel_law q X D V"
  shows "does_change D uid (svc_create_dst (dst_service X) None uid sreq)"
    and "does_change D uid (svc_get_dst (dst_service X) None uid i)"
    and "does_change D uid (svc_list_dsts (dst_service X) None uid lreq)"
    and "does_change D uid (svc_update_dst (dst_service X) None uid i ureq)"
    and "does_change D uid (svc_delete_dst (dst_service X) None uid i)"
  subgoal by (rule does_changeI, drule create_dst_reply [OF law], auto simp: Let_def intro: change_none change_new_dst)
  subgoal by (rule does_changeI, drule get_dst_reply [OF law], auto simp: Let_def intro: change_none)
  subgoal by (rule does_changeI, drule list_dsts_reply [OF law], auto simp: Let_def intro: change_none)
  subgoal by (rule does_changeI, drule update_dst_reply [OF law], auto simp: Let_def intro: change_none change_dst_updated)
  subgoal by (rule does_changeI, drule delete_dst_reply [OF law], auto simp: Let_def intro: change_none change_dst_removed)
  done

lemma task_services_change:
  assumes law: "panel_law q X D V"
  shows "does_change D uid (svc_get_task (task_service X) None uid i)"
    and "does_change D uid (svc_list_tasks (task_service X) None uid req)"
  subgoal by (rule does_changeI, drule get_task_reply [OF law], auto simp: Let_def intro: change_none)
  subgoal by (rule does_changeI, drule list_tasks_reply [OF law], auto simp: Let_def intro: change_none)
  done

lemma step_changes:
  assumes law: "panel_law q X D V" and run: "panel_op_step X uid x w = (r, w')"
  shows "change uid (D w) (D w')"
proof -
  have "does_change D uid (panel_op_step X uid x)"
    by (cases x) (simp_all add: as_answer_changes server_services_change [OF law] dst_services_change [OF law]
        task_services_change [OF law])
  with run show ?thesis by (simp add: does_change_def)
qed

section \<open>Tenants\<close>

definition holdings :: "database \<Rightarrow> u64 \<Rightarrow> server list \<times> dst list \<times> task list" where
  "holdings d uid = (owned_servers d uid, owned_dsts d uid, owned_tasks d uid)"

lemma with_dst_rows [simp]:
  "rows servers (with_dst d z) = rows servers d" "rows tasks (with_dst d z) = rows tasks d"
  "rows dsts (with_dst d z) = rows dsts d @ [(stamped_dst d z)\<lparr>ds_mods := json_strings (ds_mods z)\<rparr>]"
  by (simp_all add: with_dst_def rows_def)

lemma deployed_rows [simp]:
  "rows servers (deployed d uid row) = rows servers d @ [stored_server (stamped_server d row)]"
  "rows dsts (deployed d uid row) = rows dsts d"
  "tk_user_id t = uid' \<Longrightarrow> uid' \<noteq> uid \<Longrightarrow> t \<in> set (rows tasks (deployed d uid row)) \<longleftrightarrow> t \<in> set (rows tasks d)"
  by (auto simp: deployed_def deploy_task_def stamped_task_def)

lemma change_holdings:
  assumes "change uid d d'" and "uid' \<noteq> uid"
  shows "holdings d' uid' = holdings d uid'"
  using assms
proof cases
  case (change_server_added row)
  with assms(2) show ?thesis
    by (auto simp: holdings_def owned_servers_def owned_dsts_def owned_tasks_def deployed_def deploy_task_def stamped_task_def)
next
  case (change_server_updated sid ups)
  with assms(2) owned_other(1) show ?thesis
    by (auto simp: holdings_def owned_dsts_def owned_tasks_def with_updated_server_def)
next
  case (change_server_removed sid)
  with assms(2) owned_other(2) show ?thesis
    by (auto simp: holdings_def owned_dsts_def owned_tasks_def without_server_def)
next
  case (change_dst_added z)
  with assms(2) show ?thesis
    by (auto simp: holdings_def owned_servers_def owned_dsts_def owned_tasks_def stamped_dst_def)
next
  case (change_dst_updated i ups)
  with assms(2) owned_dsts_other(1) show ?thesis
    by (auto simp: holdings_def owned_servers_def owned_tasks_def with_updated_dst_def)
next
  case (change_dst_removed i)
  with assms(2) owned_dsts_other(2) show ?thesis
    by (auto simp: holdings_def owned_servers_def owned_tasks_def without_dst_def)
qed simp

end
