(* ===== verification/Tenancy.thy ===== *)
theory Tenancy
  imports Panel
begin

text \<open>
  What holds of the servers, saved worlds and tasks of all users, whatever is requested in whatever order: the
  data invariant, the separation of users, and what the answers say.
\<close>

section \<open>The invariant\<close>

text \<open>
  Every row is as the services write it, every saved world lies on a server of its owner, and every server has the
  deployment task that was created with it.
\<close>

definition placed :: "database \<Rightarrow> dst \<Rightarrow> bool" where
  "placed d z \<longleftrightarrow> (\<exists>s\<in>set (rows servers d). sv_id s = ds_server_id z \<and> sv_user_id s = ds_user_id z)"

definition has_deploy_task :: "database \<Rightarrow> server \<Rightarrow> bool" where
  "has_deploy_task d s \<longleftrightarrow>
     (\<exists>t\<in>set (rows tasks d). tk_type t = TaskTypeAgentDeploy \<and> tk_resource_type t = TaskResourceServer \<and>
        tk_resource_id t = sv_id s \<and> tk_user_id t = sv_user_id s)"

definition panel_ok :: "database \<Rightarrow> bool" where
  "panel_ok d \<longleftrightarrow>
     (\<forall>s\<in>set (rows servers d). server_ok s \<and> has_deploy_task d s) \<and>
     (\<forall>z\<in>set (rows dsts d). dst_ok z \<and> placed d z)"

lemma panel_ok_alt: "panel_ok d \<longleftrightarrow>
    list_all (\<lambda>s. server_ok s \<and> list_ex (\<lambda>t. tk_type t = TaskTypeAgentDeploy \<and> tk_resource_type t = TaskResourceServer \<and>
        tk_resource_id t = sv_id s \<and> tk_user_id t = sv_user_id s) (rows tasks d)) (rows servers d) \<and>
    list_all (\<lambda>z. dst_ok z \<and> list_ex (\<lambda>s. sv_id s = ds_server_id z \<and> sv_user_id s = ds_user_id z) (rows servers d))
      (rows dsts d)"
  by (auto simp: panel_ok_def has_deploy_task_def placed_def list_all_iff list_ex_iff)

lemma panel_okD:
  assumes "panel_ok d"
  shows "s \<in> set (rows servers d) \<Longrightarrow> server_ok s \<and> has_deploy_task d s"
    and "z \<in> set (rows dsts d) \<Longrightarrow> dst_ok z \<and> placed d z"
  using assms by (auto simp: panel_ok_def)

text \<open>What keeps it, table by table.\<close>

lemma stored_ok: "server_ok row \<Longrightarrow> server_ok (stored_server (stamped_server d row))"
  by (simp add: server_ok_def stored_server_def stamped_server_def)

lemma stamped_dst_ok: "dst_ok z \<Longrightarrow> dst_ok ((stamped_dst d z)\<lparr>ds_mods := ms\<rparr>)"
  by (simp add: dst_ok_def stamped_dst_def)

lemma deployed_ok:
  assumes "panel_ok d" and "server_ok row" and "sv_user_id row = uid"
  shows "panel_ok (deployed d uid row)"
proof -
  have t: "rows tasks (deployed d uid row) =
      rows tasks d @ [stamped_task (with_server d row) (deploy_task uid (tb_next (db_servers d)))]"
    by (simp add: deployed_def)
  have "has_deploy_task (deployed d uid row) s" if "has_deploy_task d s" for s
    using that unfolding has_deploy_task_def t by auto
  moreover have "has_deploy_task (deployed d uid row) (stored_server (stamped_server d row))"
    using assms(3) unfolding has_deploy_task_def t by (simp add: stamped_task_def deploy_task_def)
  moreover have "placed (deployed d uid row) z" if "placed d z" for z
    using that by (auto simp: placed_def)
  ultimately show ?thesis
    using panel_okD [OF assms(1)] stored_ok [OF assms(2)] by (auto simp: panel_ok_def)
qed

lemma with_updated_server_tables [simp]:
  "rows dsts (with_updated_server d uid sid ups) = rows dsts d"
  "rows tasks (with_updated_server d uid sid ups) = rows tasks d"
  "rows dsts (without_server d uid sid) = rows dsts d"
  "rows tasks (without_server d uid sid) = rows tasks d"
  "rows servers (with_updated_dst d uid i ups) = rows servers d"
  "rows tasks (with_updated_dst d uid i ups) = rows tasks d"
  "rows servers (without_dst d uid i) = rows servers d"
  "rows tasks (without_dst d uid i) = rows tasks d"
  by (simp_all add: with_updated_server_def without_server_def with_updated_dst_def without_dst_def)

lemma with_updated_server_rows:
  "set (rows servers (with_updated_server d uid sid ups)) =
     (\<lambda>s. if sv_id s = sid \<and> sv_user_id s = uid then updated servers (db_now d) ups s else s) ` set (rows servers d)"
  by (simp add: with_updated_server_def)

lemma updated_server_ok:
  assumes "panel_ok d" and "server_edit ups"
  shows "panel_ok (with_updated_server d uid sid ups)"
proof -
  let ?f = "\<lambda>s. if sv_id s = sid \<and> sv_user_id s = uid then updated servers (db_now d) ups s else s"
  have f: "sv_id (?f s) = sv_id s" "sv_user_id (?f s) = sv_user_id s" for s by simp_all
  have "has_deploy_task (with_updated_server d uid sid ups) (?f s)" if "has_deploy_task d s" for s
    using that unfolding has_deploy_task_def with_updated_server_tables f .
  moreover have "server_ok (?f s)" if "server_ok s" for s using that assms(2) by (simp add: server_edit_def)
  moreover have "placed (with_updated_server d uid sid ups) z" if "placed d z" for z
    using that unfolding placed_def with_updated_server_rows bex_simps f .
  ultimately show ?thesis
    using panel_okD [OF assms(1)] unfolding panel_ok_def with_updated_server_rows with_updated_server_tables ball_simps
    by blast
qed

lemma without_server_ok:
  assumes "panel_ok d" and "\<not> has_dst d sid"
  shows "panel_ok (without_server d uid sid)"
proof -
  have rows: "set (rows servers (without_server d uid sid)) = {s \<in> set (rows servers d). \<not> (sv_id s = sid \<and> sv_user_id s = uid)}"
    by (simp add: without_server_def)
  have "placed (without_server d uid sid) z" if z: "z \<in> set (rows dsts d)" for z
  proof -
    from panel_okD(2) [OF assms(1) z] obtain s where s: "s \<in> set (rows servers d)" "sv_id s = ds_server_id z"
      "sv_user_id s = ds_user_id z" by (auto simp: placed_def)
    have "ds_server_id z \<noteq> sid" using assms(2) z by (auto simp: has_dst_def)
    with s show ?thesis unfolding placed_def rows by auto
  qed
  then show ?thesis
    using panel_okD [OF assms(1)] unfolding panel_ok_def rows by (simp add: has_deploy_task_def)
qed

lemma with_dst_ok:
  assumes "panel_ok d" and "dst_ok z" and "ds_user_id z = uid" and "owned_server d uid (ds_server_id z) \<noteq> None"
  shows "panel_ok (with_dst d z)"
proof -
  from assms(3,4) have "placed d z" by (auto simp: placed_def owned_server_None)
  then have "placed (with_dst d z) ((stamped_dst d z)\<lparr>ds_mods := json_strings (ds_mods z)\<rparr>)"
    by (simp add: placed_def stamped_dst_def)
  moreover have "placed (with_dst d z) z'" if "placed d z'" for z' using that by (simp add: placed_def)
  ultimately show ?thesis
    using panel_okD [OF assms(1)] stamped_dst_ok [OF assms(2)] by (auto simp: panel_ok_def has_deploy_task_def)
qed

lemma updated_dst_ok:
  assumes "panel_ok d" and "dst_edit ups"
  shows "panel_ok (with_updated_dst d uid i ups)"
proof -
  let ?f = "\<lambda>z. if ds_id z = i \<and> ds_user_id z = uid then updated dsts (db_now d) ups z else z"
  have rows: "set (rows dsts (with_updated_dst d uid i ups)) = ?f ` set (rows dsts d)" by (simp add: with_updated_dst_def)
  have "placed (with_updated_dst d uid i ups) (?f z)" if "placed d z" for z
    using that by (auto simp: placed_def)
  moreover have "dst_ok (?f z)" if "dst_ok z" for z using that assms(2) by (simp add: dst_edit_def)
  ultimately show ?thesis
    using panel_okD [OF assms(1)]
    unfolding panel_ok_def has_deploy_task_def rows with_updated_server_tables ball_simps by blast
qed

lemma without_dst_ok: "panel_ok d \<Longrightarrow> panel_ok (without_dst d uid i)"
  by (auto simp: panel_ok_def has_deploy_task_def placed_def) (auto simp: without_dst_def)

lemma change_ok: "change uid d d' \<Longrightarrow> panel_ok d \<Longrightarrow> panel_ok d'"
  by (induction rule: change.induct)
    (blast intro: deployed_ok updated_server_ok without_server_ok with_dst_ok updated_dst_ok without_dst_ok)+
section \<open>Whatever is requested\<close>

text \<open>The services are tenants' services: a request in one user's name leaves the holdings of the others.\<close>

interpretation panel_tenants: tenant "panel_law q X D V" "panel_step X" fst "\<lambda>uid w. holdings (D w) uid"
  for q and X :: "('w, 'h) panel" and D and V
proof unfold_locales
  fix uid and x :: "u64 \<times> panel_op" and w
  assume law: "panel_law q X D V" and other: "fst x \<noteq> uid"
  obtain actor ask r w' where x: "x = (actor, ask)" and run: "panel_op_step X actor ask w = (r, w')"
    by (metis surj_pair)
  from change_holdings [OF step_changes [OF law run]] other
  show "holdings (D (snd (panel_step X x w))) uid = holdings (D w) uid"
    by (simp add: panel_step_def x run)
qed

lemma requests_ok:
  assumes "panel_law q X D V" and "panel_ok (D w)"
  shows "panel_ok (D (requests (panel_step X) qs w))"
  using assms(2)
proof (induction qs arbitrary: w)
  case (Cons x qs)
  obtain uid ask r w' where x: "x = (uid, ask)" and run: "panel_op_step X uid ask w = (r, w')"
    by (metis surj_pair)
  from change_ok [OF step_changes [OF assms(1) run] Cons.prems] have "panel_ok (D w')" .
  from Cons.IH [OF this] show ?case by (simp add: panel_step_def x run)
qed simp

text \<open>C26: every request of a user, with every answer the database may give, does one of the changes of the abstract
  specification \<open>change\<close> for that user and nothing else.\<close>

theorem services_implement_change:
  assumes "panel_law q X D V"
  shows "change (fst x) (D w) (D (snd (panel_step X x w)))"
proof -
  obtain uid ask r w' where x: "x = (uid, ask)" and run: "panel_op_step X uid ask w = (r, w')"
    by (metis surj_pair)
  from step_changes [OF assms run] show ?thesis by (simp add: panel_step_def x run)
qed

lemma services_implement_change_witness:
  "change 3 empty_db (fst (snd (panel_step ref_panel (3, CreateServer sample_create) (empty_db, new_hub))))"
  using services_implement_change [OF ref_panel_law, of "(3, CreateServer sample_create)" "(empty_db, new_hub)"] by simp

text \<open>C7: the data invariant. In every sequence of requests of any users, from a database that satisfies it (the
  empty one does), every server has a name, an SSH user, a canonical address and its deployment task, every saved
  world has a name, a slot from 1 to 5 and at least one player, and lies on an existing server of the same user.\<close>

theorem panel_data_invariant:
  assumes "panel_law q X D V" and "panel_ok (D w)"
  shows "panel_ok (D (requests (panel_step X) qs w))"
  by (rule requests_ok [OF assms])

definition sample_dst :: "u64 \<Rightarrow> create_dst_req" where
  "sample_dst sid =
     \<lparr>cd_server_id = sid, cd_slot = 2, cd_name = ''w'', cd_description = [], cd_password = [], cd_max_players = 4,
      cd_cluster_token = [], cd_mods = None\<rparr>"

definition panel_requests :: "(u64 \<times> panel_op) list" where
  "panel_requests =
     [(3, CreateServer sample_create), (3, CreateDst (sample_dst 1)), (5, CreateDst (sample_dst 1)), (3, DeleteServer 1)]"

lemma panel_data_invariant_witness:
  "panel_ok (fst (requests (panel_step ref_panel) panel_requests (empty_db, new_hub))) \<and>
   length (rows servers (fst (requests (panel_step ref_panel) panel_requests (empty_db, new_hub)))) = 1 \<and>
   map ds_server_id (rows dsts (fst (requests (panel_step ref_panel) panel_requests (empty_db, new_hub)))) = [1]"
proof -
  have "panel_ok (fst (empty_db, new_hub))" by (simp add: panel_ok_def empty_db_def rows_def)
  from panel_data_invariant [OF ref_panel_law this, of panel_requests] show ?thesis
    by (intro conjI) (assumption, code_simp, code_simp)
qed

text \<open>C1: users are separated. Whatever sequence of requests other users make, the servers, saved worlds and tasks
  of a user stay as they are.\<close>

theorem users_are_separated:
  assumes "panel_law q X D V" and "\<forall>x\<in>set qs. fst x \<noteq> uid"
  shows "holdings (D (requests (panel_step X) qs w)) uid = holdings (D w) uid"
  by (rule panel_tenants.others_leave_alone [OF assms])

lemma users_are_separated_witness:
  "holdings (fst (requests (panel_step ref_panel) [(5, DeleteServer 1), (5, DeleteDst 1), (4, CreateServer sample_create)]
      (requests (panel_step ref_panel) panel_requests (empty_db, new_hub)))) 3 =
   holdings (fst (requests (panel_step ref_panel) panel_requests (empty_db, new_hub))) 3"
  using users_are_separated [OF ref_panel_law, of "[(5, DeleteServer 1), (5, DeleteDst 1), (4, CreateServer sample_create)]" 3]
  by simp
section \<open>Single requests\<close>

text \<open>C19: a server is created together with its deployment task. Success stores exactly the server, with the trimmed
  names and the canonical address, and one pending deployment task that refers to it; a refusal stores nothing; an
  answer 500 stores nothing or both (when the reply of the commit is lost), never one of them.\<close>

theorem server_created_with_task:
  assumes "panel_law q X D V" and "svc_create_server (server_service X) ctx uid req w = (r, w')"
  shows "V w' = V w \<and>
    (\<exists>ip password. let row = new_server uid (trim_space (cr_name req)) ip (cr_port req) (trim_space (cr_username req)) password;
         both = with_task (with_server (D w) row) (deploy_task uid (sv_id (stamped_server (D w) row))) in
      (r = Inr (to_server_resp (stamped_server (D w) row)) \<and> canonical_ip (cr_ip req) = Some ip \<and> D w' = both) \<or>
      (\<exists>code m. r = Inl (BizError code (ServerMsg m)) \<and> (D w' = D w \<or> code = 500 \<and> D w' = both)))"
proof -
  from create_server_reply [OF assms] obtain ip password where
    v: "V w' = V w" and rest: "let row = new_server uid (trim_space (cr_name req)) ip (cr_port req) (trim_space (cr_username req)) password in
      (r = Inr (to_server_resp (stamped_server (D w) row)) \<and> canonical_ip (cr_ip req) = Some ip \<and>
         server_ok row \<and> D w' = deployed (D w) uid row) \<or>
      (\<exists>code m. r = Inl (BizError code (ServerMsg m)) \<and>
         (D w' = D w \<or> code = 500 \<and> server_ok row \<and> D w' = deployed (D w) uid row))" by blast
  show ?thesis
    by (rule conjI [OF v], rule exI [of _ ip], rule exI [of _ password])
      (use rest in \<open>auto simp: Let_def deployed_def\<close>)
qed

definition sample_panel_world :: panel_world where
  "sample_panel_world = snd (svc_create_server (server_service ref_panel) None 3 sample_create (empty_db, new_hub))"

lemma server_created_with_task_witness:
  "snd sample_panel_world = new_hub \<and>
   map sv_name (rows servers (fst sample_panel_world)) = [''home''] \<and>
   map tk_resource_id (rows tasks (fst sample_panel_world)) = [1]"
proof -
  obtain r where run: "svc_create_server (server_service ref_panel) None 3 sample_create (empty_db, new_hub) = (r, sample_panel_world)"
    unfolding sample_panel_world_def by (metis prod.collapse)
  have "snd sample_panel_world = new_hub"
    using server_created_with_task [OF ref_panel_law run] by simp
  moreover have "map sv_name (rows servers (fst sample_panel_world)) = [''home'']" by code_simp
  moreover have "map tk_resource_id (rows tasks (fst sample_panel_world)) = [1]" by code_simp
  ultimately show ?thesis by (intro conjI)
qed

lemma disconnect_offline: "\<not> is_online sid (snd (disconnect sid h))"
  by (auto simp: disconnect_def close_old_def hub_locks is_online_def Let_def map_of_delete_iff split: option.split)

text \<open>C34: deleting a server. It succeeds only for a server of the user on which there is no saved world, and then the
  server is gone and the agent's connection is closed: the hub has no connection for it. A refusal (404 when the user
  has no such server, 409 when a saved world is left) changes neither the database nor the hub; an answer 500 may have
  deleted the row but has not closed the connection.\<close>

theorem server_deleted_only_when_empty:
  assumes "panel_law q X D V" and "svc_delete_server (server_service X) ctx uid sid w = (r, w')"
  shows "(r = Inr () \<and> owned_server (D w) uid sid \<noteq> None \<and> \<not> has_dst (D w) sid \<and> owned_server (D w') uid sid = None \<and>
       D w' = without_server (D w) uid sid \<and> V w' = snd (disconnect sid (V w)) \<and> \<not> is_online sid (V w')) \<or>
     (r = Inl (BizError 409 (ServerMsg M_server_has_dst)) \<and> has_dst (D w) sid \<and> D w' = D w \<and> V w' = V w) \<or>
     (r = Inl (BizError 404 (ServerMsg M_server_absent)) \<and> owned_server (D w) uid sid = None \<and> D w' = D w \<and> V w' = V w) \<or>
     (r = Inl (BizError 500 (ServerMsg M_server_delete_failed)) \<and> V w' = V w \<and>
        (D w' = D w \<or> \<not> has_dst (D w) sid \<and> D w' = without_server (D w) uid sid))"
proof -
  have gone: "owned_server (without_server d uid sid) uid sid = None" for d
    by (simp add: owned_server_None without_server_def)
  have off: "\<not> is_online sid (snd (disconnect sid h))" for h by (rule disconnect_offline)
  note reply = delete_server_reply [OF assms]
  from conjunct2 [OF reply] show ?thesis
  proof (elim disjE)
    assume "r = Inr () \<and> owned_server (D w) uid sid \<noteq> None \<and> \<not> has_dst (D w) sid \<and>
       D w' = without_server (D w) uid sid \<and> V w' = snd (disconnect sid (V w))"
    then show ?thesis using gone [of "D w"] off [of "V w"] by (intro disjI1) metis
  next
    assume "r = Inl (BizError 500 (ServerMsg M_server_delete_failed)) \<and> V w' = V w"
    then show ?thesis using conjunct1 [OF reply] by blast
  qed blast+
qed


definition sample_online :: panel_world where
  "sample_online = (fst sample_panel_world, snd (register 1 9 new_hub))"

lemma server_deleted_only_when_empty_witness:
  "fst (svc_delete_server (server_service ref_panel) None 3 1 sample_online) = Inr () \<and>
   is_online 1 (snd sample_online) \<and>
   \<not> is_online 1 (snd (snd (svc_delete_server (server_service ref_panel) None 3 1 sample_online)))"
proof -
  obtain r w' where run: "svc_delete_server (server_service ref_panel) None 3 1 sample_online = (r, w')"
    by (metis prod.collapse)
  have ok: "fst (svc_delete_server (server_service ref_panel) None 3 1 sample_online) = Inr ()" by code_simp
  have on: "is_online 1 (snd sample_online)"
    by (simp add: sample_online_def register_def close_old_def hub_locks is_online_def new_hub_def)
  from server_deleted_only_when_empty [OF ref_panel_law run] ok on run show ?thesis by auto
qed

text \<open>
  The schedule the invariant does not cover: \<open>Create\<close> of a saved world asks for the server and inserts the row in
  two statements without a transaction. When the server is deleted between them, the row is stored on no server.
\<close>

definition delete_between :: "('w, 'h) panel \<Rightarrow> u64 \<Rightarrow> u64 \<Rightarrow> ('w, 'h) dst_parts" where
  "delete_between X uid sid =
     (let zr = dt_dst_repo (dst_service X) in
      (dst_service X)\<lparr>dt_dst_repo :=
         zr\<lparr>dp_create := (\<lambda>ctx z w. dp_create zr ctx z (snd (svc_delete_server (server_service X) None uid sid w)))\<rparr>\<rparr>)"

lemma dst_create_races_delete:
  "isl (fst (svc_create_dst (delete_between ref_panel 3 1) None 3 (sample_dst 1) sample_panel_world)) = False \<and>
   panel_ok (fst sample_panel_world) \<and>
   \<not> panel_ok (fst (snd (svc_create_dst (delete_between ref_panel 3 1) None 3 (sample_dst 1) sample_panel_world)))"
  unfolding panel_ok_alt by code_simp

section \<open>Pages\<close>

lemma chunks: "concat (map (\<lambda>i. take n (drop (i * n) xs)) [0..<k]) = take (k * n) xs"
  by (induction k) (simp_all add: take_add [symmetric] add.commute)

lemma concat_pages:
  assumes "0 < n"
  shows "concat (map (\<lambda>p. page_of (int p) n xs) [1..<Suc k]) = take (k * nat n) xs"
proof -
  have "map (\<lambda>p. page_of (int p) n xs) [1..<Suc k] = map (\<lambda>i. page_of (int (Suc i)) n xs) [0..<k]"
    by (simp add: map_Suc_upt [symmetric] comp_def del: upt_Suc)
  also have "\<dots> = map (\<lambda>i. take (nat n) (drop (i * nat n) xs)) [0..<k]"
    by (simp add: page_of_def nat_mult_distrib)
  finally show ?thesis by (simp add: chunks)
qed

text \<open>C36: the pages of the server list. Walking through the pages 1 to k, with k pages enough, gives every server of the
  user exactly once, newest first, as the response shows it; every page has at most 100 entries and says the total.\<close>

theorem server_pages_cover:
  assumes "panel_law q X D V"
    and "\<forall>p\<in>{1..k}. \<exists>w w'. D w = d \<and>
      svc_list_servers (server_service X) None uid \<lparr>lr_page = int p, lr_page_size = n\<rparr> w = (Inr (resp p), w')"
    and "length (owned_servers d uid) \<le> k * nat n" and "0 < n"
  shows "concat (map (\<lambda>p. vl_list (resp p)) [1..<Suc k]) =
      map to_server_resp (in_order servers (Desc ''id'') (owned_servers d uid)) \<and>
    (\<forall>p\<in>{1..k}. length (vl_list (resp p)) \<le> 100 \<and> vl_total (resp p) = int (length (owned_servers d uid)))"
proof -
  let ?xs = "in_order servers (Desc ''id'') (owned_servers d uid)"
  have each: "vl_list (resp p) = map to_server_resp (page_of (int p) n ?xs) \<and> n \<le> 100 \<and>
      vl_total (resp p) = int (length (owned_servers d uid))" if p: "p \<in> {1..k}" for p
  proof -
    from assms(2) p obtain w w' where w: "D w = d"
      "svc_list_servers (server_service X) None uid \<lparr>lr_page = int p, lr_page_size = n\<rparr> w = (Inr (resp p), w')" by blast
    from list_servers_reply [OF assms(1) w(2)] w(1) show ?thesis by (auto simp: paging_invalid_def)
  qed
  have "concat (map (\<lambda>p. vl_list (resp p)) [1..<Suc k]) =
      concat (map (\<lambda>p. map to_server_resp (page_of (int p) n ?xs)) [1..<Suc k])"
    by (rule arg_cong [where f = concat], rule map_cong) (use each in auto)
  also have "\<dots> = map to_server_resp (concat (map (\<lambda>p. page_of (int p) n ?xs) [1..<Suc k]))"
    by (simp add: map_concat comp_def)
  also have "\<dots> = map to_server_resp ?xs"
    unfolding concat_pages [OF assms(4)] using assms(3) by simp
  finally show ?thesis
    using each page_of_length [of _ n ?xs] by (fastforce intro: order_trans)
qed
lemma server_pages_cover_witness:
  "map vr_name (concat (map (\<lambda>p. vl_list (projr (fst (svc_list_servers (server_service ref_panel) None 3
      \<lparr>lr_page = int p, lr_page_size = 20\<rparr> sample_panel_world)))) [1..<Suc 1])) =
   map vr_name (map to_server_resp (in_order servers (Desc ''id'') (owned_servers (fst sample_panel_world) 3))) \<and>
   length (owned_servers (fst sample_panel_world) 3) = 1"
proof -
  let ?ask = "\<lambda>p. svc_list_servers (server_service ref_panel) None 3 \<lparr>lr_page = int p, lr_page_size = 20\<rparr> sample_panel_world"
  have "\<not> isl (fst (?ask 1))" by code_simp
  then have "\<forall>p\<in>{1..1}. \<exists>w w'. fst w = fst sample_panel_world \<and>
      svc_list_servers (server_service ref_panel) None 3 \<lparr>lr_page = int p, lr_page_size = 20\<rparr> w = (Inr (projr (fst (?ask p))), w')"
    by (auto simp: prod_eq_iff intro!: exI [of _ "snd sample_panel_world"])
  moreover have one: "length (owned_servers (fst sample_panel_world) 3) = 1" by code_simp
  ultimately have "concat (map (\<lambda>p. vl_list (projr (fst (?ask p)))) [1..<Suc 1]) =
      map to_server_resp (in_order servers (Desc ''id'') (owned_servers (fst sample_panel_world) 3))"
    using server_pages_cover [OF ref_panel_law, of 1 "fst sample_panel_world" 3 20 "\<lambda>p. projr (fst (?ask p))"] by simp
  with one show ?thesis by simp
qed

section \<open>The list of tasks\<close>

text \<open>What the list of tasks is to be, over the tasks of the user.\<close>

definition task_list_spec ::
    "(string \<Rightarrow> string \<Rightarrow> bool) \<Rightarrow> task list \<Rightarrow> list_task_req option \<Rightarrow> go_err + task_list_resp" where
  "task_list_spec eq own request =
     (case request of
        None \<Rightarrow> Inl (BizError 400 (ServerMsg M_paging_invalid))
      | Some req \<Rightarrow>
          if lt_page req \<notin> {1..1000000} \<or> lt_page_size req \<notin> {1..100}
            then Inl (BizError 400 (ServerMsg M_paging_invalid))
          else if max (length (lt_type req)) (length (lt_resource_type req)) > 64
            then Inl (BizError 400 (DstMsg M_query_params_invalid))
          else if lt_status req \<notin> {[], ''pending'', ''running'', ''succeeded'', ''failed''}
            then Inl (BizError 400 (TaskMsg M_task_status_invalid))
          else if lt_resource_id req \<noteq> 0 \<and> lt_resource_type req = []
            then Inl (BizError 400 (TaskMsg M_resource_type_required))
          else
            let found = filter (asked_for eq (to_list_query req)) own in
            Inr \<lparr>tl_list = map to_task_resp (page_of (lt_page req) (lt_page_size req) (sort_key (\<lambda>t. - uint (tk_id t)) found)),
              tl_total = int (length found), tl_page = lt_page req, tl_page_size = lt_page_size req\<rparr>)"

lemma task_list_spec_Some: "task_list_spec eq own (Some req) =
    (if paging_invalid (lt_page req) (lt_page_size req) then Inl (BizError 400 (ServerMsg M_paging_invalid))
     else if 64 < length (lt_type req) \<or> 64 < length (lt_resource_type req)
       then Inl (BizError 400 (DstMsg M_query_params_invalid))
     else if \<not> task_status_known (lt_status req) then Inl (BizError 400 (TaskMsg M_task_status_invalid))
     else if lt_resource_id req \<noteq> 0 \<and> lt_resource_type req = []
       then Inl (BizError 400 (TaskMsg M_resource_type_required))
     else
       let found = filter (asked_for eq (to_list_query req)) own in
       Inr \<lparr>tl_list = map to_task_resp (page_of (lt_page req) (lt_page_size req) (sort_key (\<lambda>t. - uint (tk_id t)) found)),
         tl_total = int (length found), tl_page = lt_page req, tl_page_size = lt_page_size req\<rparr>)"
proof -
  have g: "lt_page req \<notin> {1..1000000} \<or> lt_page_size req \<notin> {1..100} \<longleftrightarrow> paging_invalid (lt_page req) (lt_page_size req)"
    "max (length (lt_type req)) (length (lt_resource_type req)) > 64 \<longleftrightarrow> 64 < length (lt_type req) \<or> 64 < length (lt_resource_type req)"
    "lt_status req \<in> {[], ''pending'', ''running'', ''succeeded'', ''failed''} \<longleftrightarrow> task_status_known (lt_status req)"
    by (auto simp: paging_invalid_def task_status_known_def TaskStatusPending_def TaskStatusRunning_def
        TaskStatusSucceeded_def TaskStatusFailed_def)
  show ?thesis unfolding task_list_spec_def g option.case ..
qed



end
