(* ===== verification/AgentClient.thy ===== *)
theory AgentClient
  imports Protocol
begin

text \<open>
  The agent, the program that runs on a game server: \<open>src/internal/agent_client\<close>. The executor runs one script
  at a time and turns its end into a result; the client answers a command with an acknowledgement, the lines of the
  script and the result; the identity file keeps the token. What the operating system and the websocket answer are
  parameters. AgentRun lets commands run concurrently.
\<close>

section \<open>Texts\<close>

text \<open>The Chinese texts the agent sends, as the UTF-8 bytes of the source.\<close>

abbreviation bytes :: "nat list \<Rightarrow> string" where
  "bytes \<equiv> map char_of"

definition busy_text :: string where \<comment> \<open>a task is running already\<close>
  "busy_text = bytes [0xE5, 0xB7, 0xB2, 0xE6, 0x9C, 0x89, 0xE4, 0xBB, 0xBB, 0xE5, 0x8A, 0xA1, 0xE6, 0x89, 0xA7, 0xE8,
     0xA1, 0x8C, 0xE4, 0xB8, 0xAD]"

definition pipe_failed_text :: string where \<comment> \<open>creating the pipe failed\<close>
  "pipe_failed_text = bytes [0x20, 0xE7, 0xAE, 0xA1, 0xE9, 0x81, 0x93, 0xE5, 0x88, 0x9B, 0xE5, 0xBB, 0xBA, 0xE5, 0xA4,
     0xB1, 0xE8, 0xB4, 0xA5, 0x3A, 0x20]"

definition start_failed_text :: string where \<comment> \<open>the dst script failed to start\<close>
  "start_failed_text = bytes [0x64, 0x73, 0x74, 0x20, 0xE8, 0x84, 0x9A, 0xE6, 0x9C, 0xAC, 0xE5, 0x90, 0xAF, 0xE5, 0x8A,
     0xA8, 0xE5, 0xA4, 0xB1, 0xE8, 0xB4, 0xA5, 0x3A, 0x20]"

definition run_failed_text :: string where \<comment> \<open>running the script failed\<close>
  "run_failed_text = bytes [0xE8, 0x84, 0x9A, 0xE6, 0x9C, 0xAC, 0xE6, 0x89, 0xA7, 0xE8, 0xA1, 0x8C, 0xE5, 0xA4, 0xB1,
     0xE8, 0xB4, 0xA5, 0x3A, 0x20]"

definition exit_text :: string where \<comment> \<open>the script exited abnormally, exitCode\<close>
  "exit_text = bytes [0xE8, 0x84, 0x9A, 0xE6, 0x9C, 0xAC, 0xE5, 0xBC, 0x82, 0xE5, 0xB8, 0xB8, 0xE9, 0x80, 0x80, 0xE5,
     0x87, 0xBA] @ '' exitCode=''"

definition read_failed_text :: string where \<comment> \<open>reading the log failed\<close>
  "read_failed_text = bytes [0xE6, 0x97, 0xA5, 0xE5, 0xBF, 0x97, 0xE8, 0xAF, 0xBB, 0xE5, 0x8F, 0x96, 0xE5, 0xA4, 0xB1,
     0xE8, 0xB4, 0xA5, 0x3A, 0x20]"

definition unsupported_text :: string where \<comment> \<open>unsupported operation action\<close>
  "unsupported_text = bytes [0xE4, 0xB8, 0x8D, 0xE6, 0x94, 0xAF, 0xE6, 0x8C, 0x81, 0xE6, 0x93, 0x8D, 0xE4, 0xBD, 0x9C] @
     '' action=''"

definition payload_failed_text :: string where \<comment> \<open>the command's parameters do not parse\<close>
  "payload_failed_text = bytes [0xE5, 0x91, 0xBD, 0xE4, 0xBB, 0xA4, 0xE5, 0x8F, 0x82, 0xE6, 0x95, 0xB0, 0xE8, 0xA7, 0xA3,
     0xE6, 0x9E, 0x90, 0xE5, 0xA4, 0xB1, 0xE8, 0xB4, 0xA5]"

section \<open>The executor\<close>

record executor_config =
  ec_script_path :: string
  ec_exec_timeout :: int

definition build_args :: "cmd_payload \<Rightarrow> string + string list" where
  "build_args p =
     (if cmd_action p = ActionDeploy \<or> cmd_action p = ActionUpdate then Inr [cmd_action p]
      else if cmd_action p \<in> {ActionInit, ActionStart, ActionStop, ActionDelete, ActionStatus} then
        Inr ([cmd_action p, show_int (cmd_slot p)] @ (if cmd_action p = ActionInit then [cmd_cluster_token p] else []))
      else Inl (unsupported_text @ cmd_action p))"

text \<open>
  \<open>os/exec\<close> as the executor uses it: the pipes, the start of the script with its arguments under the timeout,
  what the two scanners read until both are at their end (in the order in which the log function is called), the end
  of the process, and the state of the context then. Errors are their texts.
\<close>

datatype scanned = Line string | ScanFails string

datatype wait_error = ExitError int | WaitError string

record 'w os_exec =
  xc_stdout_pipe :: "'w \<Rightarrow> string option \<times> 'w"
  xc_stderr_pipe :: "'w \<Rightarrow> string option \<times> 'w"
  xc_start :: "string \<Rightarrow> string list \<Rightarrow> int \<Rightarrow> 'w \<Rightarrow> string option \<times> 'w"
  xc_output :: "'w \<Rightarrow> scanned list \<times> 'w"
  xc_wait :: "'w \<Rightarrow> wait_error option \<times> 'w"
  xc_ctx_err :: "'w \<Rightarrow> string option \<times> 'w"

fun read_output :: "scanned \<Rightarrow> string" where
  "read_output (Line s) = s"
| "read_output (ScanFails e) = read_failed_text @ e"

definition failed_result :: "cmd_payload \<Rightarrow> string \<Rightarrow> cmd_result" where
  "failed_result p e =
     \<lparr>res_action = cmd_action p, res_slot = cmd_slot p, res_success = False, res_exit_code = -1, res_error = e\<rparr>"

text \<open>The result of a script that has ended with an exit code.\<close>

definition exit_result :: "cmd_payload \<Rightarrow> int \<Rightarrow> string option \<Rightarrow> cmd_result" where
  "exit_result p code ctx_err =
     (let ok = (if cmd_action p = ActionStatus then code = 0 \<or> code = 2 else code = 0) in
      \<lparr>res_action = cmd_action p, res_slot = cmd_slot p, res_success = ok, res_exit_code = code,
       res_error =
         (if ok then []
          else case ctx_err of Some e \<Rightarrow> run_failed_text @ e | None \<Rightarrow> exit_text @ show_int code)\<rparr>)"

text \<open>The part of \<open>Execute\<close> that holds the mutex: the log lines and the result.\<close>

definition run_script ::
    "'w os_exec \<Rightarrow> executor_config \<Rightarrow> cmd_payload \<Rightarrow> 'w \<Rightarrow> (string list \<times> cmd_result) \<times> 'w" where
  "run_script E cfg p w =
     (case build_args p of
        Inl e \<Rightarrow> (([], failed_result p e), w)
      | Inr args \<Rightarrow>
          (case xc_stdout_pipe E w of
             (Some e, w1) \<Rightarrow> (([], failed_result p (''stdout'' @ pipe_failed_text @ e)), w1)
           | (None, w1) \<Rightarrow>
               (case xc_stderr_pipe E w1 of
                  (Some e, w2) \<Rightarrow> (([], failed_result p (''stderr'' @ pipe_failed_text @ e)), w2)
                | (None, w2) \<Rightarrow>
                    (case xc_start E (ec_script_path cfg) args (ec_exec_timeout cfg) w2 of
                       (Some e, w3) \<Rightarrow> (([], failed_result p (start_failed_text @ e)), w3)
                     | (None, w3) \<Rightarrow>
                         (case xc_output E w3 of
                            (output, w4) \<Rightarrow>
                              (case xc_wait E w4 of
                                 (Some (WaitError e), w5) \<Rightarrow>
                                   ((map read_output output, failed_result p (run_failed_text @ e)), w5)
                               | (Some (ExitError code), w5) \<Rightarrow>
                                   (case xc_ctx_err E w5 of
                                      (c, w6) \<Rightarrow> ((map read_output output, exit_result p code c), w6))
                               | (None, w5) \<Rightarrow>
                                   (case xc_ctx_err E w5 of
                                      (c, w6) \<Rightarrow> ((map read_output output, exit_result p 0 c), w6))))))))"

text \<open>\<open>Execute\<close>: \<open>locked\<close> says whether \<open>TryLock\<close> got the mutex.\<close>

definition execute ::
    "'w os_exec \<Rightarrow> executor_config \<Rightarrow> bool \<Rightarrow> cmd_payload \<Rightarrow> 'w \<Rightarrow> (string list \<times> cmd_result) \<times> 'w" where
  "execute E cfg locked p w = (if \<not> locked then (([], failed_result p busy_text), w) else run_script E cfg p w)"

section \<open>The messages of the client\<close>

definition client_envelope :: "string \<Rightarrow> string \<Rightarrow> json option \<Rightarrow> envelope" where
  "client_envelope i t payload = \<lparr>env_id = i, env_type = t, env_payload = payload\<rparr>"

definition ack_envelope :: "string \<Rightarrow> ack \<Rightarrow> envelope" where
  "ack_envelope i a = client_envelope i TypeAck (Some (marshal_ack a))"

definition log_envelope :: "string \<Rightarrow> string \<Rightarrow> envelope" where
  "log_envelope i line = client_envelope i TypeLog (Some (marshal_log \<lparr>log_content = line\<rparr>))"

definition result_envelope :: "string \<Rightarrow> cmd_result \<Rightarrow> envelope" where
  "result_envelope i r = client_envelope i TypeResult (Some (marshal_result r))"

definition heartbeat_envelope :: envelope where
  "heartbeat_envelope = client_envelope [] TypePing None"

text \<open>One connection: the deadline, the write and the close.\<close>

record 'w client_wire =
  cl_set_deadline :: "'w \<Rightarrow> go_err option \<times> 'w"
  cl_write_json :: "json \<Rightarrow> 'w \<Rightarrow> go_err option \<times> 'w"
  cl_close :: "'w \<Rightarrow> 'w"

definition client_send :: "'w client_wire \<Rightarrow> envelope \<Rightarrow> ('w, unit) go" where
  "client_send C env w =
     (case cl_set_deadline C w of
        (Some e, w1) \<Rightarrow> (Inl (Wrapped (ClientMsg M_ws_deadline_failed) e), w1)
      | (None, w1) \<Rightarrow>
          (case cl_write_json C (marshal_envelope env) w1 of
             (Some e, w2) \<Rightarrow> (Inl (Wrapped (ClientMsg M_ws_send_failed) e), w2)
           | (None, w2) \<Rightarrow> (Inr (), w2)))"

text \<open>The log lines one after the other; the connection is closed at the first that cannot be sent.\<close>

fun send_logs :: "'w client_wire \<Rightarrow> string \<Rightarrow> bool \<Rightarrow> string list \<Rightarrow> 'w \<Rightarrow> 'w" where
  "send_logs C i reported [] w = w"
| "send_logs C i reported (l # ls) w =
     (case client_send C (log_envelope i l) w of
        (Inr _, w1) \<Rightarrow> send_logs C i reported ls w1
      | (Inl _, w1) \<Rightarrow> send_logs C i True ls (if reported then w1 else cl_close C w1))"

definition handle_command ::
    "'w os_exec \<Rightarrow> executor_config \<Rightarrow> 'w client_wire \<Rightarrow> bool \<Rightarrow> string \<Rightarrow> cmd_payload \<Rightarrow> 'w \<Rightarrow> 'w" where
  "handle_command E cfg C locked i p w =
     (let w1 = (case client_send C (ack_envelope i \<lparr>ack_accepted = True, ack_reason = []\<rparr>) w of
                  (Inr _, w') \<Rightarrow> w' | (Inl _, w') \<Rightarrow> cl_close C w')
      in case execute E cfg locked p w1 of
           ((logs, r), w2) \<Rightarrow>
             (case client_send C (result_envelope i r) (send_logs C i False logs w2) of
                (Inr _, w3) \<Rightarrow> w3 | (Inl _, w3) \<Rightarrow> cl_close C w3))"

text \<open>
  The read loop decides what becomes of a message: \<open>StartCommand\<close> starts a goroutine with
  \<open>handleCommand\<close>, \<open>Refuse\<close> sends a refusal and goes on, other messages are skipped, and a message that cannot be
  read ends the loop.
\<close>

datatype client_action =
    ReadStops go_err
  | Skip
  | Refuse string ack
  | StartCommand string cmd_payload

definition on_message :: "go_err + json \<Rightarrow> client_action" where
  "on_message m =
     (case (case m of Inl e \<Rightarrow> Inl e | Inr j \<Rightarrow> unmarshal_envelope j) of
        Inl e \<Rightarrow> ReadStops (Wrapped (ClientMsg M_ws_read_failed) e)
      | Inr env \<Rightarrow>
          if env_type env = TypeCommand then
            (case unmarshal_raw unmarshal_cmd (env_payload env) of
               Inl _ \<Rightarrow> Refuse (env_id env) \<lparr>ack_accepted = False, ack_reason = payload_failed_text\<rparr>
             | Inr p \<Rightarrow> StartCommand (env_id env) p)
          else Skip)"

fun client_read_loop :: "(go_err + json) list \<Rightarrow> client_action list" where
  "client_read_loop [] = []"
| "client_read_loop (m # ms) =
     (case on_message m of ReadStops e \<Rightarrow> [ReadStops e] | a \<Rightarrow> a # client_read_loop ms)"

section \<open>The identity file\<close>

text \<open>The file system: reading a file, making a directory, writing a file.\<close>

record 'w files =
  fs_read :: "string \<Rightarrow> ('w, string) go"
  fs_mkdir_all :: "string \<Rightarrow> int \<Rightarrow> ('w, unit) go"
  fs_write :: "string \<Rightarrow> string \<Rightarrow> int \<Rightarrow> ('w, unit) go"
  fs_dir :: "string \<Rightarrow> string"

definition load_token :: "'w files \<Rightarrow> string \<Rightarrow> ('w, string) go" where
  "load_token F path =
     call (fs_read F path) (\<lambda>e. fail (Wrapped (ClientMsg M_identity_read_failed) e))
       (\<lambda>text. if trim_space text = [] then fail (ErrorMsg (AgentMsg M_agent_token_empty))
               else ret (trim_space text))"

definition save_token :: "'w files \<Rightarrow> string \<Rightarrow> string \<Rightarrow> ('w, unit) go" where
  "save_token F path token =
     (if trim_space token = [] then fail (ErrorMsg (AgentMsg M_agent_token_empty))
      else
        call (fs_mkdir_all F (fs_dir F path) 448) (\<lambda>e. fail (Wrapped (ClientMsg M_identity_dir_failed) e))
          (\<lambda>_.
        call (fs_write F path (trim_space token) 384) (\<lambda>e. fail (Wrapped (ClientMsg M_identity_save_failed) e))
          (\<lambda>_. ret ())))"

text \<open>The beginning of \<open>Start\<close>: the token the client connects with.\<close>

definition client_token :: "'w files \<Rightarrow> string \<Rightarrow> string \<Rightarrow> ('w, string) go" where
  "client_token F path token =
     (if trim_space token \<noteq> [] then call (save_token F path (trim_space token)) fail (\<lambda>_. ret (trim_space token))
      else load_token F path)"

end
