(* ===== verification/AgentRun.thy ===== *)
theory AgentRun
  imports AgentClient "HOL-Library.Sublist"
begin

text \<open>
  The agent with its goroutines: each command runs \<open>handleCommand\<close> in a goroutine of its own, the executor's mutex
  decides which of them runs a script. A state is the holder of the mutex and the commands received on the
  connection, each with where it is and the messages of it that were written. Any command may take the next step, and
  any write may fail.
\<close>

section \<open>States and steps\<close>

datatype phase =
    ToAcknowledge
  | ToLock
  | Running "string list" cmd_result \<comment> \<open>the lines still to be sent, and the result that will follow\<close>
  | ToReport cmd_result
  | Done

record command =
  cm_id :: string
  cm_payload :: cmd_payload
  cm_phase :: phase
  cm_sent :: "envelope list"

record agent_state =
  as_lock :: "nat option"
  as_commands :: "command list"

definition accepted_ack :: "command \<Rightarrow> envelope" where
  "accepted_ack c = ack_envelope (cm_id c) \<lparr>ack_accepted = True, ack_reason = []\<rparr>"

text \<open>A message is written, or the write fails and nothing is.\<close>

definition written :: "envelope \<Rightarrow> phase \<Rightarrow> command \<Rightarrow> command \<Rightarrow> bool" where
  "written env ph c c' \<longleftrightarrow>
     c' = c\<lparr>cm_phase := ph, cm_sent := cm_sent c @ [env]\<rparr> \<or> c' = c\<lparr>cm_phase := ph\<rparr>"

text \<open>One step of the command with number \<open>k\<close>.\<close>

inductive command_step ::
    "'w os_exec \<Rightarrow> executor_config \<Rightarrow> nat \<Rightarrow> nat option \<Rightarrow> command \<Rightarrow> nat option \<Rightarrow> command \<Rightarrow> bool"
  for E :: "'w os_exec" and cfg k where
  step_ack: "cm_phase c = ToAcknowledge \<Longrightarrow> written (accepted_ack c) ToLock c c' \<Longrightarrow> command_step E cfg k l c l c'"
| step_locked:
    "cm_phase c = ToLock \<Longrightarrow> execute E cfg True (cm_payload c) w = ((logs, r), w') \<Longrightarrow>
     command_step E cfg k None c (Some k) (c\<lparr>cm_phase := Running logs r\<rparr>)"
| step_busy:
    "cm_phase c = ToLock \<Longrightarrow> execute E cfg False (cm_payload c) w = ((logs, r), w') \<Longrightarrow>
     command_step E cfg k (Some j) c (Some j) (c\<lparr>cm_phase := ToReport r\<rparr>)"
| step_log:
    "cm_phase c = Running (line # logs) r \<Longrightarrow> written (log_envelope (cm_id c) line) (Running logs r) c c' \<Longrightarrow>
     command_step E cfg k l c l c'"
| step_unlock: "cm_phase c = Running [] r \<Longrightarrow> command_step E cfg k l c None (c\<lparr>cm_phase := ToReport r\<rparr>)"
| step_report:
    "cm_phase c = ToReport r \<Longrightarrow> written (result_envelope (cm_id c) r) Done c c' \<Longrightarrow> command_step E cfg k l c l c'"

inductive work :: "'w os_exec \<Rightarrow> executor_config \<Rightarrow> agent_state \<Rightarrow> agent_state \<Rightarrow> bool"
  for E :: "'w os_exec" and cfg where
  work_one:
    "k < length (as_commands s) \<Longrightarrow> command_step E cfg k (as_lock s) (as_commands s ! k) l' c' \<Longrightarrow>
     work E cfg s (s\<lparr>as_lock := l', as_commands := (as_commands s)[k := c']\<rparr>)"

inductive agent_step :: "'w os_exec \<Rightarrow> executor_config \<Rightarrow> agent_state \<Rightarrow> agent_state \<Rightarrow> bool"
  for E :: "'w os_exec" and cfg where
  agent_work: "work E cfg s s' \<Longrightarrow> agent_step E cfg s s'"
| agent_receive:
    "on_message m = StartCommand i p \<Longrightarrow>
     agent_step E cfg s
       (s\<lparr>as_commands := as_commands s @ [\<lparr>cm_id = i, cm_payload = p, cm_phase = ToAcknowledge, cm_sent = []\<rparr>]\<rparr>)"

definition idle_agent :: agent_state where
  "idle_agent = \<lparr>as_lock = None, as_commands = []\<rparr>"

definition agent_reachable :: "'w os_exec \<Rightarrow> executor_config \<Rightarrow> agent_state \<Rightarrow> bool" where
  "agent_reachable E cfg s \<longleftrightarrow> (agent_step E cfg)\<^sup>*\<^sup>* idle_agent s"

inductive_cases command_stepE: "command_step E cfg k l c l' c'"

section \<open>What is answered\<close>

text \<open>What the executor may have done for a payload: refused it as busy, or run it.\<close>

definition outcome :: "'w os_exec \<Rightarrow> executor_config \<Rightarrow> cmd_payload \<Rightarrow> string list \<Rightarrow> cmd_result \<Rightarrow> bool" where
  "outcome E cfg p logs r \<longleftrightarrow> (\<exists>locked w w'. execute E cfg locked p w = ((logs, r), w'))"

definition messages :: "command \<Rightarrow> string list \<Rightarrow> cmd_result \<Rightarrow> envelope list" where
  "messages c logs r = accepted_ack c # map (log_envelope (cm_id c)) logs @ [result_envelope (cm_id c) r]"

fun command_ok :: "'w os_exec \<Rightarrow> executor_config \<Rightarrow> command \<Rightarrow> phase \<Rightarrow> bool" where
  "command_ok E cfg c ToAcknowledge \<longleftrightarrow> cm_sent c = []"
| "command_ok E cfg c ToLock \<longleftrightarrow> subseq (cm_sent c) [accepted_ack c]"
| "command_ok E cfg c (Running logs r) \<longleftrightarrow>
     (\<exists>sent. outcome E cfg (cm_payload c) (sent @ logs) r \<and>
        subseq (cm_sent c) (accepted_ack c # map (log_envelope (cm_id c)) sent))"
| "command_ok E cfg c (ToReport r) \<longleftrightarrow>
     (\<exists>logs. outcome E cfg (cm_payload c) logs r \<and>
        subseq (cm_sent c) (accepted_ack c # map (log_envelope (cm_id c)) logs))"
| "command_ok E cfg c Done \<longleftrightarrow>
     (\<exists>logs r. outcome E cfg (cm_payload c) logs r \<and> subseq (cm_sent c) (messages c logs r))"

fun is_running :: "phase \<Rightarrow> bool" where
  "is_running (Running _ _) \<longleftrightarrow> True"
| "is_running _ \<longleftrightarrow> False"

definition agent_state_ok :: "'w os_exec \<Rightarrow> executor_config \<Rightarrow> agent_state \<Rightarrow> bool" where
  "agent_state_ok E cfg s \<longleftrightarrow>
     (\<forall>k < length (as_commands s). is_running (cm_phase (as_commands s ! k)) \<longleftrightarrow> as_lock s = Some k) \<and>
     (\<forall>k. as_lock s = Some k \<longrightarrow> k < length (as_commands s)) \<and>
     (\<forall>c\<in>set (as_commands s). command_ok E cfg c (cm_phase c))"

lemma subseq_snoc: "subseq xs ys \<Longrightarrow> subseq (xs @ [y]) (ys @ [y])"
  by (rule list_emb_append_mono) simp_all

lemma subseq_written:
  assumes "written env ph c c'" and "subseq (cm_sent c) ys"
  shows "subseq (cm_sent c') (ys @ [env])"
  using assms by (auto simp: written_def intro: subseq_snoc subseq_rev_drop_many)

lemma written_keeps:
  assumes "written env ph c c'"
  shows "cm_id c' = cm_id c" and "cm_payload c' = cm_payload c" and "cm_phase c' = ph" and "accepted_ack c' = accepted_ack c"
    and "messages c' logs r = messages c logs r"
  using assms by (auto simp: written_def accepted_ack_def messages_def)

lemma phase_irrelevant [simp]:
  "accepted_ack (c\<lparr>cm_phase := ph\<rparr>) = accepted_ack c" "messages (c\<lparr>cm_phase := ph\<rparr>) logs r = messages c logs r"
  by (simp_all add: accepted_ack_def messages_def)

lemma command_ok_update [simp]: "command_ok E cfg (c\<lparr>cm_phase := ph\<rparr>) ph' = command_ok E cfg c ph'"
  by (cases ph') simp_all

text \<open>One step keeps a command's account and moves the mutex with the script.\<close>

lemma command_step_ok:
  assumes "command_step E cfg k l c l' c'" and "command_ok E cfg c (cm_phase c)"
  shows "command_ok E cfg c' (cm_phase c')"
  using assms
proof cases
  case step_ack
  with assms(2) subseq_written [OF step_ack(3), of "[]"] show ?thesis by (simp add: written_keeps)
next
  case (step_locked w logs r w')
  then have "outcome E cfg (cm_payload c) logs r" by (auto simp: outcome_def)
  with step_locked assms(2) show ?thesis by (auto intro!: exI [of _ "[]"])
next
  case (step_busy w logs r w' j)
  then have "outcome E cfg (cm_payload c) logs r" by (auto simp: outcome_def)
  moreover have "logs = []" using step_busy by (simp add: execute_def)
  ultimately show ?thesis using step_busy assms(2) by (auto intro!: exI [of _ "[]"])
next
  case (step_log line logs r)
  from assms(2) step_log(2) obtain sent where s: "outcome E cfg (cm_payload c) (sent @ line # logs) r"
    "subseq (cm_sent c) (accepted_ack c # map (log_envelope (cm_id c)) sent)" by auto
  from subseq_written [OF step_log(3) s(2)] s(1) show ?thesis
    by (simp add: written_keeps [OF step_log(3)]) (intro exI [of _ "sent @ [line]"], simp)
next
  case (step_unlock r)
  with assms(2) show ?thesis by auto
next
  case (step_report r)
  from assms(2) step_report(2) obtain logs where s: "outcome E cfg (cm_payload c) logs r"
    "subseq (cm_sent c) (accepted_ack c # map (log_envelope (cm_id c)) logs)" by auto
  from subseq_written [OF step_report(3) s(2)] s(1) show ?thesis
    by (simp add: written_keeps [OF step_report(3)] messages_def) (intro exI [of _ logs] exI [of _ r], simp)
qed

lemma command_step_lock:
  assumes "command_step E cfg k l c l' c'" and "is_running (cm_phase c) \<longleftrightarrow> l = Some k"
  shows "(is_running (cm_phase c') \<longleftrightarrow> l' = Some k) \<and> (l' = l \<or> (l = None \<or> l = Some k) \<and> (l' = None \<or> l' = Some k))"
  using assms by cases (auto simp: written_keeps)

lemma work_ok:
  assumes "work E cfg s s'" and "agent_state_ok E cfg s"
  shows "agent_state_ok E cfg s'"
  using assms(1)
proof cases
  case (work_one k l' c')
  let ?cs = "as_commands s"
  have run: "\<forall>j < length ?cs. is_running (cm_phase (?cs ! j)) \<longleftrightarrow> as_lock s = Some j"
    and "\<forall>j. as_lock s = Some j \<longrightarrow> j < length ?cs" and all: "\<forall>c\<in>set ?cs. command_ok E cfg c (cm_phase c)"
    using assms(2) by (simp_all add: agent_state_ok_def)
  have "command_ok E cfg c' (cm_phase c')"
    by (rule command_step_ok [OF work_one(3)]) (use all work_one(2) in simp)
  then have "\<forall>c\<in>set (?cs[k := c']). command_ok E cfg c (cm_phase c)"
    using all by (auto dest: set_update_subset_insert [THEN subsetD])
  moreover from run work_one(2) have "is_running (cm_phase (?cs ! k)) \<longleftrightarrow> as_lock s = Some k" by simp
  from command_step_lock [OF work_one(3) this]
  have l: "(is_running (cm_phase c') \<longleftrightarrow> l' = Some k) \<and>
      (l' = as_lock s \<or> (as_lock s = None \<or> as_lock s = Some k) \<and> (l' = None \<or> l' = Some k))" .
  have "is_running (cm_phase (?cs[k := c'] ! j)) \<longleftrightarrow> l' = Some j" if "j < length ?cs" for j
    using l run that by (cases "j = k") auto
  ultimately show ?thesis
    using \<open>\<forall>j. as_lock s = Some j \<longrightarrow> j < length ?cs\<close> l work_one(2) by (auto simp: agent_state_ok_def work_one(1))
qed

lemma reachable_ok: "agent_reachable E cfg s \<Longrightarrow> agent_state_ok E cfg s"
  unfolding agent_reachable_def
proof (induction rule: rtranclp_induct)
  case base
  show ?case by (simp add: agent_state_ok_def idle_agent_def)
next
  case (step s s')
  from step(2) show ?case
  proof cases
    case agent_work
    with step.IH show ?thesis by (blast intro: work_ok)
  next
    case (agent_receive m i p)
    with step.IH show ?thesis
      by (auto simp: agent_state_ok_def nth_append less_Suc_eq)
  qed
qed
section \<open>Termination\<close>

text \<open>Commands before the script has started count in the first component, the rest of their work in the second.\<close>

fun before_script :: "phase \<Rightarrow> nat" where
  "before_script ToAcknowledge = 2"
| "before_script ToLock = 1"
| "before_script _ = 0"

fun after_start :: "phase \<Rightarrow> nat" where
  "after_start (Running logs r) = length logs + 2"
| "after_start (ToReport r) = 1"
| "after_start _ = 0"

definition work_left :: "agent_state \<Rightarrow> nat \<times> nat" where
  "work_left s =
     (sum_list (map (before_script \<circ> cm_phase) (as_commands s)), sum_list (map (after_start \<circ> cm_phase) (as_commands s)))"

lemma sum_list_set:
  fixes f :: "'a \<Rightarrow> nat"
  shows "k < length xs \<Longrightarrow> sum_list (map f (xs[k := y])) + f (xs ! k) = sum_list (map f xs) + f y"
  by (induction xs arbitrary: k) (auto split: nat.split)

lemma command_step_less:
  "command_step E cfg k l c l' c' \<Longrightarrow>
   before_script (cm_phase c') < before_script (cm_phase c) \<or>
   before_script (cm_phase c') = before_script (cm_phase c) \<and> after_start (cm_phase c') < after_start (cm_phase c)"
  by (cases rule: command_step.cases) (auto simp: written_keeps)

lemma work_less:
  assumes "work E cfg s s'"
  shows "(work_left s', work_left s) \<in> less_than <*lex*> less_than"
  using assms
proof cases
  case (work_one k l' c')
  note less = command_step_less [OF work_one(3)]
    and one = sum_list_set [OF work_one(2), of "before_script \<circ> cm_phase" c']
    and two = sum_list_set [OF work_one(2), of "after_start \<circ> cm_phase" c']
  show ?thesis using less one two by (auto simp: work_one(1) work_left_def)
qed

lemma step_enabled:
  assumes "cm_phase c \<noteq> Done"
  shows "\<exists>l' c'. command_step E cfg k l c l' c'"
proof (cases "cm_phase c")
  case ToAcknowledge
  then show ?thesis using command_step.step_ack [of c "c\<lparr>cm_phase := ToLock\<rparr>" E cfg k l]
    by (auto simp: written_def)
next
  case ToLock
  show ?thesis
  proof (cases l)
    case None
    obtain logs r w' where "execute E cfg True (cm_payload c) undefined = ((logs, r), w')" by (metis prod.collapse)
    from command_step.step_locked [OF ToLock this] None show ?thesis by blast
  next
    case (Some j)
    obtain logs r w' where "execute E cfg False (cm_payload c) undefined = ((logs, r), w')" by (metis prod.collapse)
    from command_step.step_busy [OF ToLock this] Some show ?thesis by blast
  qed
next
  case (Running logs r)
  show ?thesis
  proof (cases logs)
    case Nil
    with Running command_step.step_unlock [of c r E cfg k l] show ?thesis by auto
  next
    case (Cons line rest)
    with Running command_step.step_log [of c line rest r "c\<lparr>cm_phase := Running rest r\<rparr>" E cfg k l] show ?thesis
      by (auto simp: written_def)
  qed
next
  case (ToReport r)
  then show ?thesis using command_step.step_report [of c r "c\<lparr>cm_phase := Done\<rparr>" E cfg k l]
    by (auto simp: written_def)
next
  case Done
  with assms show ?thesis by simp
qed

lemma stuck_done: "(\<nexists>s'. work E cfg s s') \<longleftrightarrow> list_all (\<lambda>c. cm_phase c = Done) (as_commands s)"
proof
  assume stuck: "\<nexists>s'. work E cfg s s'"
  show "list_all (\<lambda>c. cm_phase c = Done) (as_commands s)"
    unfolding list_all_length
  proof (intro allI impI, rule ccontr)
    fix k assume k: "k < length (as_commands s)" and "cm_phase (as_commands s ! k) \<noteq> Done"
    with step_enabled [of "as_commands s ! k" E cfg k "as_lock s"] obtain l' c'
      where "command_step E cfg k (as_lock s) (as_commands s ! k) l' c'" by blast
    from work_one [OF k this] stuck show False by blast
  qed
next
  assume finished: "list_all (\<lambda>c. cm_phase c = Done) (as_commands s)"
  show "\<nexists>s'. work E cfg s s'"
  proof
    assume "\<exists>s'. work E cfg s s'"
    then obtain k l' c' where "k < length (as_commands s)" "command_step E cfg k (as_lock s) (as_commands s ! k) l' c'"
      by (auto elim: work.cases)
    with finished show False by (auto simp: list_all_length elim!: command_step.cases)
  qed
qed

section \<open>Properties\<close>

lemma running_at_most_one:
  assumes "agent_state_ok E cfg s"
  shows "length (filter (is_running \<circ> cm_phase) (as_commands s)) \<le> 1"
proof -
  let ?cs = "as_commands s"
  have "{k. k < length ?cs \<and> is_running (cm_phase (?cs ! k))} \<subseteq> set_option (as_lock s)"
    using assms by (auto simp: agent_state_ok_def)
  then have "card {k. k < length ?cs \<and> (is_running \<circ> cm_phase) (?cs ! k)} \<le> card (set_option (as_lock s))"
    by (intro card_mono) auto
  also have "\<dots> \<le> 1" by (cases "as_lock s") auto
  finally show ?thesis by (simp only: length_filter_conv_card)
qed


definition sample_exec :: "unit os_exec" where
  "sample_exec =
     \<lparr>xc_stdout_pipe = Pair None, xc_stderr_pipe = Pair None, xc_start = (\<lambda>path args t. Pair None),
      xc_output = Pair [Line ''up''], xc_wait = Pair None, xc_ctx_err = Pair None\<rparr>"

definition sample_executor :: executor_config where
  "sample_executor = \<lparr>ec_script_path = ''/opt/dst.sh'', ec_exec_timeout = 60\<rparr>"

definition start_command :: cmd_payload where
  "start_command = \<lparr>cmd_action = ActionStart, cmd_slot = 1, cmd_cluster_token = []\<rparr>"

definition sample_agent :: "phase \<Rightarrow> envelope list \<Rightarrow> nat option \<Rightarrow> agent_state" where
  "sample_agent ph sent l =
     \<lparr>as_lock = l, as_commands = [\<lparr>cm_id = ''x'', cm_payload = start_command, cm_phase = ph, cm_sent = sent\<rparr>]\<rparr>"

lemma sample_work:
  assumes "command_step sample_exec sample_executor 0 l \<lparr>cm_id = ''x'', cm_payload = start_command, cm_phase = ph, cm_sent = sent\<rparr>
      l' \<lparr>cm_id = ''x'', cm_payload = start_command, cm_phase = ph', cm_sent = sent'\<rparr>"
  shows "agent_step sample_exec sample_executor (sample_agent ph sent l) (sample_agent ph' sent' l')"
  using work_one [of 0 "sample_agent ph sent l" sample_exec sample_executor l'] assms
  by (auto simp: sample_agent_def intro!: agent_work)

definition sample_sent :: "envelope list" where
  "sample_sent =
     [ack_envelope ''x'' \<lparr>ack_accepted = True, ack_reason = []\<rparr>, log_envelope ''x'' ''up'',
      result_envelope ''x'' (exit_result start_command 0 None)]"

lemma sample_reachable: "agent_reachable sample_exec sample_executor (sample_agent Done sample_sent None)"
proof -
  note r = rtranclp.rtrancl_into_rtrancl
  let ?R = "agent_step sample_exec sample_executor"
  let ?r = "exit_result start_command 0 None"
  have m: "on_message (Inr (marshal_envelope (client_envelope ''x'' TypeCommand (Some (marshal_cmd start_command))))) =
      StartCommand ''x'' start_command"
    by code_simp
  have e: "execute sample_exec sample_executor True start_command () = (([''up''], ?r), ())"
    by (simp add: execute_def run_script_def build_args_def sample_exec_def start_command_def actions)
  have "?R\<^sup>*\<^sup>* idle_agent (sample_agent ToAcknowledge [] None)"
    using agent_receive [OF m, of sample_exec sample_executor idle_agent]
    by (auto simp: idle_agent_def sample_agent_def)
  then have "?R\<^sup>*\<^sup>* idle_agent (sample_agent ToLock (take 1 sample_sent) None)"
    by (rule r) (auto simp: sample_sent_def accepted_ack_def written_def intro!: sample_work step_ack)
  then have "?R\<^sup>*\<^sup>* idle_agent (sample_agent (Running [''up''] ?r) (take 1 sample_sent) (Some 0))"
    by (rule r) (rule sample_work, use step_locked [of "\<lparr>cm_id = ''x'', cm_payload = start_command, cm_phase = ToLock,
      cm_sent = take 1 sample_sent\<rparr>", OF _ _, of sample_exec sample_executor "()" "[''up'']" ?r "()"] e in simp)
  then have "?R\<^sup>*\<^sup>* idle_agent (sample_agent (Running [] ?r) (take 2 sample_sent) (Some 0))"
    by (rule r) (auto simp: sample_sent_def written_def intro!: sample_work step_log)
  then have "?R\<^sup>*\<^sup>* idle_agent (sample_agent (ToReport ?r) (take 2 sample_sent) None)"
    by (rule r) (rule sample_work, use step_unlock [of "\<lparr>cm_id = ''x'', cm_payload = start_command,
      cm_phase = Running [] ?r, cm_sent = take 2 sample_sent\<rparr>" ?r] in simp)
  then have "?R\<^sup>*\<^sup>* idle_agent (sample_agent Done sample_sent None)"
    by (rule r) (auto simp: sample_sent_def written_def intro!: sample_work step_report)
  then show ?thesis by (simp add: agent_reachable_def)
qed


end
