(* ===== verification/JsonString.thy ===== *)
theory JsonString
  imports JsonText
begin

text \<open>
  The text \<open>encoding/json\<close> writes for a string, and that its scanner reads it back: quotes, control characters, the
  characters of HTML, U+2028 and U+2029 are escaped, and bytes that are not UTF-8 become the replacement character.
\<close>

definition json_byte :: "char \<Rightarrow> string" where
  "json_byte c =
     (if c = CHR 0x22 \<or> c = CHR 0x5C then [CHR 0x5C, c]
      else if c = CHR 0x0A then [CHR 0x5C, CHR ''n'']
      else if c = CHR 0x0D then [CHR 0x5C, CHR ''r'']
      else if c = CHR 0x09 then [CHR 0x5C, CHR ''t'']
      else if c = CHR 0x08 then [CHR 0x5C, CHR ''b'']
      else if c = CHR 0x0C then [CHR 0x5C, CHR ''f'']
      else if in_range 0 0x1F c \<or> c \<in> {CHR ''<'', CHR ''>'', CHR ''&''} then
        [CHR 0x5C, CHR ''u'', CHR ''0'', CHR ''0'', hex_digit (of_char c div 16), hex_digit (of_char c mod 16)]
      else [c])"

function json_chars :: "string \<Rightarrow> string" where
  "json_chars [] = []"
| "json_chars (c # cs) =
     (case rune_len (c # cs) of
        0 \<Rightarrow> CHR 0x5C # ''ufffd'' @ json_chars cs
      | Suc n \<Rightarrow>
          (if n = 0 then json_byte c
           else if take 2 cs = [CHR 0x80, CHR 0xA8] \<and> c = CHR 0xE2 then CHR 0x5C # ''u2028''
           else if take 2 cs = [CHR 0x80, CHR 0xA9] \<and> c = CHR 0xE2 then CHR 0x5C # ''u2029''
           else take (Suc n) (c # cs)) @ json_chars (drop n cs))"
  by pat_completeness auto
termination by (relation "measure length") auto

definition quoted :: "string \<Rightarrow> string" where
  "quoted s = [CHR 0x22] @ json_chars s @ [CHR 0x22]"

section \<open>Reading it back\<close>

definition raw_char :: "char \<Rightarrow> bool" where
  "raw_char c \<longleftrightarrow> c \<noteq> CHR 0x22 \<and> c \<noteq> CHR 0x5C \<and> \<not> in_range 0 0x1F c"

lemma scan_raw: "list_all raw_char t \<Longrightarrow> scan_chars s = Some (u, r) \<Longrightarrow> scan_chars (t @ s) = Some (t @ u, r)"
proof (induction t)
  case (Cons c t)
  then show ?case by (subst scan_chars.simps) (simp add: raw_char_def)
qed simp

lemma scan_escape:
  assumes "simple_escape e = Some b" and "scan_chars s = Some (u, r)"
  shows "scan_chars (CHR 0x5C # e # s) = Some (b # u, r)"
  using assms by (subst scan_chars.simps) (simp add: in_range_def)

lemma scan_u:
  assumes "scan_unicode (h @ s) = Some (x, 4)" and "length h = 4" and "scan_chars s = Some (u, r)"
  shows "scan_chars (CHR 0x5C # CHR ''u'' # h @ s) = Some (x @ u, r)"
  using assms by (subst scan_chars.simps) (simp add: in_range_def simple_escape_def)

lemma in_range_mono: "in_range lo hi c \<Longrightarrow> lo' \<le> lo \<Longrightarrow> hi \<le> hi' \<Longrightarrow> in_range lo' hi' c"
  by (simp add: in_range_def)

lemma high_raw: "in_range 0x80 hi c \<Longrightarrow> raw_char c"
  by (auto simp: raw_char_def in_range_def)

text \<open>The bytes of a character that is not ASCII.\<close>

lemma wide_rune_bytes:
  assumes "rune_len (c # cs) = Suc (Suc n)"
  shows "in_range 0x80 0xFF c" and "list_all (in_range 0x80 0xBF) (take (Suc n) cs)"
proof -
  obtain b bs where cs: "cs = b # bs" using assms by (cases cs) (auto simp: Let_def split: if_splits)
  show "in_range 0x80 0xFF c"
    using assms by (auto simp: Let_def intro: in_range_mono split: if_splits)
  show "list_all (in_range 0x80 0xBF) (take (Suc n) cs)"
    using assms unfolding cs
    by (cases bs; cases "tl bs") (auto simp: Let_def intro: in_range_mono split: if_splits)
qed

lemma wide_rune_raw:
  assumes "rune_len (c # cs) = Suc (Suc n)"
  shows "list_all raw_char (take (Suc (Suc n)) (c # cs))"
  using wide_rune_bytes [OF assms] by (auto simp: list_all_iff intro: high_raw)

lemma byte_halves:
  "of_char (c :: char) div 16 < (16 :: nat)" "16 * (of_char c div 16) + of_char c mod 16 = (of_char c :: nat)"
  using nat_of_char_less_256 [of c] by (linarith, simp)

lemma zero_digit: "hex_val CHR ''0'' = Some 0"
  by code_simp

lemma scan_byte:
  assumes "in_range 0 0x7F c" and "scan_chars s = Some (u, r)"
  shows "scan_chars (json_byte c @ s) = Some (c # u, r)"
proof -
  let ?simple = "{CHR 0x22, CHR 0x5C, CHR 0x0A, CHR 0x0D, CHR 0x09, CHR 0x08, CHR 0x0C}"
  let ?escaped = "in_range 0 0x1F c \<or> c \<in> {CHR ''<'', CHR ''>'', CHR ''&''}"
  show ?thesis
  proof (cases "c \<in> ?simple")
    case True
    then show ?thesis using scan_escape [OF _ assms(2)] by (auto simp: json_byte_def simple_escape_def)
  next
    case not_simple: False
    show ?thesis
    proof (cases ?escaped)
      case True
      let ?h = "[CHR ''0'', CHR ''0'', hex_digit (of_char c div 16), hex_digit (of_char c mod 16)]"
      have "json_byte c = CHR 0x5C # CHR ''u'' # ?h" using True not_simple by (simp add: json_byte_def)
      moreover have "scan_unicode (?h @ s) = Some ([c], 4)"
        using assms(1) by (simp add: scan_unicode_def hex_val_digit byte_halves zero_digit surrogate_def encode_rune_def in_range_def)
      ultimately show ?thesis using scan_u [OF _ _ assms(2), of ?h "[c]"] by simp
    next
      case False
      with not_simple have "raw_char c" "json_byte c = [c]" by (simp_all add: raw_char_def json_byte_def)
      then show ?thesis using scan_raw [of "[c]", OF _ assms(2)] by simp
    qed
  qed
qed

lemma replacement:
  "char_of (239 :: nat) = CHR 0xEF" "char_of (191 :: nat) = CHR 0xBF" "char_of (189 :: nat) = CHR 0xBD"
  "char_of (226 :: nat) = CHR 0xE2" "char_of (128 :: nat) = CHR 0x80" "char_of (168 :: nat) = CHR 0xA8"
  "char_of (169 :: nat) = CHR 0xA9"
  by code_simp+

lemma scan_json_chars: "scan_chars (json_chars s @ CHR 0x22 # r) = Some (utf8_coerce s, r)"
proof (induction s rule: json_chars.induct)
  case 1
  show ?case by (subst scan_chars.simps) simp
next
  case (2 c cs)
  show ?case
  proof (cases "rune_len (c # cs)")
    case 0
    let ?s = "json_chars cs @ CHR 0x22 # r"
    have "scan_unicode (''fffd'' @ ?s) = Some ([CHR 0xEF, CHR 0xBF, CHR 0xBD], 4)"
      by (simp add: scan_unicode_def hex_val_def is_digit_def digit_val_def in_range_def surrogate_def encode_rune_def replacement)
    from scan_u [OF this _ "2.IH"(1) [OF 0]] 0 show ?thesis by simp
  next
    case (Suc n)
    let ?s = "json_chars (drop n cs) @ CHR 0x22 # r"
    note ih = "2.IH"(2) [OF Suc]
    show ?thesis
    proof (cases n)
      case 0
      then have "in_range 0 0x7F c" using Suc by (auto simp: Let_def split: if_splits)
      from scan_byte [OF this ih] Suc 0 show ?thesis by simp
    next
      case m: (Suc m)
      have wide: "list_all raw_char (take (Suc n) (c # cs))" using wide_rune_raw Suc m by blast
      show ?thesis
      proof (cases "c = CHR 0xE2 \<and> (take 2 cs = [CHR 0x80, CHR 0xA8] \<or> take 2 cs = [CHR 0x80, CHR 0xA9])")
        case True
        then have "n = 2" and t: "take (Suc n) (c # cs) = c # take 2 cs"
          using Suc by (auto simp: Let_def in_range_def split: if_splits)
        have "scan_unicode (''2028'' @ ?s) = Some ([CHR 0xE2, CHR 0x80, CHR 0xA8], 4)"
          "scan_unicode (''2029'' @ ?s) = Some ([CHR 0xE2, CHR 0x80, CHR 0xA9], 4)"
          by (simp_all add: scan_unicode_def hex_val_def is_digit_def digit_val_def in_range_def surrogate_def encode_rune_def replacement)
        from scan_u [OF this(1) _ ih] scan_u [OF this(2) _ ih] True Suc m t show ?thesis by auto
      next
        case False
        with scan_raw [OF wide ih] Suc m show ?thesis by auto
      qed
    qed
  qed
qed

text \<open>What is printed is UTF-8, so reading it changes nothing more.\<close>

lemma rune_length: "rune_len (c # cs) = Suc n \<Longrightarrow> n \<le> length cs \<and> n \<le> 3"
  by (cases cs; cases "tl cs"; cases "tl (tl cs)") (auto simp: Let_def split: if_split_asm)

lemma rune_len_prefix:
  "rune_len (c # cs) = 1 \<Longrightarrow> rune_len (c # t) = 1"
  "rune_len (c # b # cs) = 2 \<Longrightarrow> rune_len (c # b # t) = 2"
  "rune_len (c # b # d # cs) = 3 \<Longrightarrow> rune_len (c # b # d # t) = 3"
  "rune_len (c # b # d # e # cs) = 4 \<Longrightarrow> rune_len (c # b # d # e # t) = 4"
  by (simp_all add: Let_def split: if_split_asm)

lemma rune_len_append:
  assumes "rune_len (c # cs) = Suc n"
  shows "rune_len (c # take n cs @ t) = Suc n"
proof -
  from rune_length [OF assms] have "n \<le> length cs" and "n \<in> {0, 1, 2, 3}" by auto
  with assms show ?thesis
    by (cases cs; cases "tl cs"; cases "tl (tl cs)")
      (auto simp: numeral_eq_Suc simp del: rune_len.simps dest: rune_len_prefix [unfolded numeral_eq_Suc, simplified])
qed

lemma coerce_valid: "utf8_coerce (utf8_coerce s) = utf8_coerce s"
proof (induction s rule: utf8_coerce.induct)
  case (2 c cs)
  show ?case
  proof (cases "rune_len (c # cs)")
    case 0
    have "rune_len ([CHR 0xEF, CHR 0xBF, CHR 0xBD] @ t) = 3" for t by (simp add: Let_def in_range_def)
    with 0 "2.IH"(1) [OF 0] show ?thesis by (simp add: numeral_eq_Suc)
  next
    case (Suc n)
    let ?t = "utf8_coerce (drop n cs)"
    have "rune_len (c # take n cs @ ?t) = Suc n" by (rule rune_len_append [OF Suc])
    then have "utf8_coerce (c # take n cs @ ?t) = take (Suc n) (c # take n cs @ ?t) @ utf8_coerce (drop n (take n cs @ ?t))"
      by (simp del: rune_len.simps)
    with rune_length [OF Suc] Suc "2.IH"(2) [OF Suc] show ?thesis by (simp del: rune_len.simps)
  qed
qed simp

lemma scan_quoted: "scan_string (json_chars s @ CHR 0x22 # r) = Some (utf8_coerce s, r)"
  by (simp add: scan_string_def scan_json_chars coerce_valid)

end
