(* ===== verification/EndToEnd.thy ===== *)
theory EndToEnd
  imports AgentRun AgentHandler JsonString
begin

text \<open>
  The server and the agent together: what the service sends the agent decodes and executes, what the agent answers the
  endpoint decodes and reports, over the texts of \<open>encoding/json\<close> on both sides.
\<close>

section \<open>Frames of the agent's messages\<close>

text \<open>A message of the agent as the endpoint reads it, with the read deadline renewed.\<close>

definition received :: "envelope \<Rightarrow> frame" where
  "received env = Document (marshal_envelope env) None"

lemma valid_types [simp]:
  "valid_utf8 TypeAck" "valid_utf8 TypeLog" "valid_utf8 TypeResult" "valid_utf8 TypeCommand"
  by (simp_all add: message_types ascii_valid_utf8 in_range_def)

lemma types_differ [simp]:
  "TypeLog \<noteq> TypeAck" "TypeResult \<noteq> TypeAck" "TypeResult \<noteq> TypeLog" "TypeAck \<noteq> TypePing" "TypeLog \<noteq> TypePing"
  "TypeResult \<noteq> TypePing" "TypeCommand \<noteq> TypeAck"
  by (simp_all add: message_types)

lemma decode_ack:
  assumes "valid_utf8 i" and "valid_utf8 (ack_reason a)"
  shows "decode_frames (received (ack_envelope i a) # fs) = (fst (decode_frames fs), InAck i a # snd (decode_frames fs))"
proof -
  have "unmarshal_envelope (marshal_envelope (ack_envelope i a)) = Inr (ack_envelope i a)"
    using assms(1) by (intro envelope_roundtrip) (simp_all add: ack_envelope_def client_envelope_def)
  with ack_roundtrip [OF assms(2)] show ?thesis
    by (simp add: received_def ack_envelope_def client_envelope_def unmarshal_raw_def Let_def)
qed

lemma log_decodes: "unmarshal_log (marshal_log \<lparr>log_content = l\<rparr>) = Inr \<lparr>log_content = utf8_coerce l\<rparr>"
  by (simp add: unmarshal_log_def marshal_log_def codec_simps)

lemma decode_log:
  assumes "valid_utf8 i"
  shows "decode_frames (received (log_envelope i l) # fs) =
    (fst (decode_frames fs), InLog i \<lparr>log_content = utf8_coerce l\<rparr> # snd (decode_frames fs))"
proof -
  have "unmarshal_envelope (marshal_envelope (log_envelope i l)) = Inr (log_envelope i l)"
    using assms(1) by (intro envelope_roundtrip) (simp_all add: log_envelope_def client_envelope_def)
  with log_decodes [of l] show ?thesis
    by (simp add: received_def log_envelope_def client_envelope_def unmarshal_raw_def Let_def)
qed

lemma decode_logs:
  assumes "valid_utf8 i"
  shows "decode_frames (map received (map (log_envelope i) ls) @ fs) =
    (fst (decode_frames fs), map (\<lambda>l. InLog i \<lparr>log_content = utf8_coerce l\<rparr>) ls @ snd (decode_frames fs))"
  by (induction ls) (simp_all add: decode_log [OF assms])

definition result_ok :: "cmd_result \<Rightarrow> bool" where
  "result_ok r \<longleftrightarrow> valid_utf8 (res_action r) \<and> valid_utf8 (res_error r) \<and> int64_range (res_slot r) \<and> int64_range (res_exit_code r)"

lemma decode_result:
  assumes "valid_utf8 i" and "result_ok r"
  shows "decode_frames (received (result_envelope i r) # fs) =
    (fst (decode_frames fs), InResult i r # snd (decode_frames fs))"
proof -
  have "unmarshal_envelope (marshal_envelope (result_envelope i r)) = Inr (result_envelope i r)"
    using assms(1) by (intro envelope_roundtrip) (simp_all add: result_envelope_def client_envelope_def)
  moreover have "unmarshal_result (marshal_result r) = Inr r"
    using assms(2) by (intro result_roundtrip) (simp_all add: result_ok_def)
  ultimately show ?thesis
    by (simp add: received_def result_envelope_def client_envelope_def unmarshal_raw_def Let_def)
qed

lemma decode_messages:
  assumes "valid_utf8 (cm_id c)" and "result_ok r"
  shows "decode_frames (map received (messages c logs r)) =
    (False, InAck (cm_id c) \<lparr>ack_accepted = True, ack_reason = []\<rparr> #
      map (\<lambda>l. InLog (cm_id c) \<lparr>log_content = utf8_coerce l\<rparr>) logs @ [InResult (cm_id c) r])"
  using decode_ack [OF assms(1)] decode_logs [OF assms(1), of logs] decode_result [OF assms]
  by (simp add: messages_def accepted_ack_def)

section \<open>The result of an execution\<close>

lemma execute_echoes:
  assumes "execute E cfg locked p w = ((logs, r), w')"
  shows "res_action r = cmd_action p \<and> res_slot r = cmd_slot p"
  using assms
  by (auto simp: execute_def run_script_def failed_result_def exit_result_def Let_def
      split: if_splits sum.splits prod.splits option.splits wait_error.splits)

section \<open>A command from end to end\<close>

definition command_ok_to_send :: "string \<Rightarrow> cmd_payload \<Rightarrow> bool" where
  "command_ok_to_send i p \<longleftrightarrow>
     valid_utf8 i \<and> valid_utf8 (cmd_action p) \<and> valid_utf8 (cmd_cluster_token p) \<and> int64_range (cmd_slot p)"

definition command_envelope :: "string \<Rightarrow> cmd_payload \<Rightarrow> envelope" where
  "command_envelope i p = \<lparr>env_id = i, env_type = TypeCommand, env_payload = Some (marshal_cmd p)\<rparr>"

lemma on_command:
  assumes "command_ok_to_send i p"
  shows "on_message (Inr (marshal_envelope (command_envelope i p))) = StartCommand i p"
proof -
  have "unmarshal_envelope (marshal_envelope (command_envelope i p)) = Inr (command_envelope i p)"
    using assms by (intro envelope_roundtrip) (simp_all add: command_ok_to_send_def command_envelope_def)
  moreover have "unmarshal_cmd (marshal_cmd p) = Inr p"
    using assms by (intro cmd_roundtrip) (simp_all add: command_ok_to_send_def)
  ultimately show ?thesis by (simp add: on_message_def command_envelope_def unmarshal_raw_def)
qed

lemma deliver_result_reports:
  assumes "hub_wf h" and "reports_outcomes cb" and "waiting_on h sid i"
  shows "EvResult sid i r \<in> set (fst (deliver finish cb sid (InResult i r) h))"
proof -
  obtain b h' where f: "finish sid i h = (b, h')" by fastforce
  have "b" using hub_tracker.finish_cases [OF assms(1), of sid i] f assms(3) by force
  with f assms(2) show ?thesis by (simp add: handle_result_def reports_outcomes_def emit_def)
qed
lemma deliver_all_append:
  "deliver_all fin cb (xs @ ys) h =
     (fst (deliver_all fin cb xs h) @ fst (deliver_all fin cb ys (snd (deliver_all fin cb xs h))),
      snd (deliver_all fin cb ys (snd (deliver_all fin cb xs h))))"
  by (induction xs arbitrary: h) (auto split: prod.split)

text \<open>The answers before the result leave the command waiting.\<close>

lemma answers_before_result:
  assumes "hub_wf h" and "waiting_on h sid i" and "\<forall>m\<in>set ms. \<not> carries_outcome sid i (sid, m)"
  shows "waiting_on (snd (deliver_all finish cb (map (Pair sid) ms) h)) sid i"
  using hub_tracker.deliver_all_outcomes [OF assms(1), of sid i cb "map (Pair sid) ms"] assms(2,3) by auto


section \<open>How long a log line may be\<close>

text \<open>
  \<open>SetReadLimit\<close> of the endpoint, and the buffer of the agent's scanner: it yields the lines that fit into the buffer
  with their line feed.
\<close>

definition read_limit :: nat where
  "read_limit = 1024 * 1024"

definition scanner_buffer :: nat where
  "scanner_buffer = 1024 * 1024"

definition scannable :: "string \<Rightarrow> bool" where
  "scannable line \<longleftrightarrow> length line < scanner_buffer"

text \<open>The text \<open>WriteJSON\<close> makes of a log message; the JSON encoder escapes quotes, control and HTML characters.\<close>

definition log_text :: "string \<Rightarrow> string \<Rightarrow> string" where
  "log_text i line =
     ''{'' @ (if i = [] then [] else quoted ''id'' @ '':'' @ quoted i @ '','') @ quoted ''type'' @ '':'' @ quoted TypeLog @ '','' @
     quoted ''payload'' @ '':{'' @ quoted ''content'' @ '':'' @ quoted line @ ''}}'' @ [CHR 0x0A]"

lemma quoted_plain: "length (quoted (replicate n CHR ''a'')) = n + 2"
proof -
  have "json_chars (replicate n CHR ''a'') = replicate n CHR ''a''"
    by (induction n) (simp_all add: Let_def json_byte_def in_range_def)
  then show ?thesis by (simp add: quoted_def)
qed

text \<open>
  A line the agent's scanner yields may be longer, as a message, than what the endpoint reads: then the read loop
  ends with an error, the connection is closed, and what is pending on it is reported interrupted.
\<close>

lemma log_line_over_limit:
  assumes "scanner_buffer - 39 \<le> n" and "n < scanner_buffer"
  shows "scannable (replicate n CHR ''a'') \<and> read_limit < length (log_text i (replicate n CHR ''a''))"
proof
  show "scannable (replicate n CHR ''a'')" using assms(2) by (simp add: scannable_def)
  have k: "length (quoted ''type'') \<ge> 2" "length (quoted TypeLog) \<ge> 2" "length (quoted ''payload'') \<ge> 2" "length (quoted ''content'') \<ge> 2"
    by (simp_all add: quoted_def)
  have t: "quoted ''type'' = [CHR 0x22] @ ''type'' @ [CHR 0x22]" "quoted TypeLog = [CHR 0x22] @ ''log'' @ [CHR 0x22]"
    "quoted ''payload'' = [CHR 0x22] @ ''payload'' @ [CHR 0x22]" "quoted ''content'' = [CHR 0x22] @ ''content'' @ [CHR 0x22]"
    by code_simp+
  from assms(1) show "read_limit < length (log_text i (replicate n CHR ''a''))"
    unfolding log_text_def t by (simp add: quoted_plain read_limit_def scanner_buffer_def)
qed

end
