(* ===== verification/Logging.thy ===== *)
theory Logging
  imports GoStrings
begin

text \<open>
  Logging, \<open>src/internal/platform/logger\<close>: which entries are written and with what. \<open>log/slog\<close> formats an entry
  and writes it; the model stops at the entry. Durations are kept in nanoseconds, and a formatted time or number is
  not modelled.
\<close>

section \<open>Levels\<close>

datatype log_level = LevelDebug | LevelInfo | LevelWarn | LevelError

fun level_number :: "log_level \<Rightarrow> int" where
  "level_number LevelDebug = -4"
| "level_number LevelInfo = 0"
| "level_number LevelWarn = 4"
| "level_number LevelError = 8"

definition parse_level :: "string \<Rightarrow> log_level" where
  "parse_level level =
     (let l = to_lower level in
      if l = ''debug'' then LevelDebug
      else if l = ''info'' then LevelInfo
      else if l = ''warn'' \<or> l = ''warning'' then LevelWarn
      else if l = ''error'' then LevelError
      else LevelInfo)"

section \<open>Entries\<close>

datatype log_message =
    T_sql_failed
  | T_sql_slow
  | T_sql_done
  | T_request_panicked
  | T_agent_ack
  | T_agent_log
  | T_agent_result
  | T_agent_interrupted
  | Formatted string

datatype log_value = VInt int | VText string | VBool bool | VMsg msg | VDuration int | VError go_err

record log_entry =
  le_level :: log_level
  le_text :: log_message
  le_attrs :: "(string \<times> log_value) list"

text \<open>\<open>TraceHandler.Handle\<close>: the entry that the wrapped handler gets, given the trace id of the context.\<close>

definition trace_handle :: "string \<Rightarrow> log_entry \<Rightarrow> log_entry" where
  "trace_handle trace_id r =
     (if trace_id \<noteq> [] then r\<lparr>le_attrs := le_attrs r @ [(''traceID'', VText trace_id)]\<rparr> else r)"

section \<open>The logger\<close>

record log_config =
  lc_level :: string
  lc_format :: string
  lc_to_console :: bool
  lc_to_file :: bool
  lc_dir :: string
  lc_filename :: string
  lc_max_size :: int
  lc_max_backups :: int
  lc_max_age :: int
  lc_compress :: bool
  lc_add_source :: bool

datatype log_writer = Stdout | RotatedFile string int int int bool

text \<open>A logger: where it writes (nowhere if the list is empty), from which level on, and in which format.\<close>

record slogger =
  sl_writers :: "log_writer list"
  sl_level :: log_level
  sl_add_source :: bool
  sl_json :: bool

definition log_enabled :: "slogger \<Rightarrow> log_level \<Rightarrow> bool" where
  "log_enabled l level \<longleftrightarrow> level_number (sl_level l) \<le> level_number level"

definition slogger_of :: "log_config \<Rightarrow> log_writer list \<Rightarrow> slogger" where
  "slogger_of cfg ws =
     \<lparr>sl_writers = ws, sl_level = parse_level (lc_level cfg), sl_add_source = lc_add_source cfg,
      sl_json = (to_lower (lc_format cfg) = ''json'')\<rparr>"

definition new_logger ::
    "(string \<Rightarrow> int \<Rightarrow> ('w, unit) go) \<Rightarrow> (string \<Rightarrow> string \<Rightarrow> string) \<Rightarrow> log_config \<Rightarrow> ('w, slogger) go" where
  "new_logger mkdir_all path_join cfg =
     (let console = (if lc_to_console cfg then [Stdout] else []) in
      if lc_to_file cfg \<and> lc_filename cfg \<noteq> [] then
        call (mkdir_all (lc_dir cfg) 511) (\<lambda>e. fail (Wrapped (BootMsg (M_log_dir_failed (lc_dir cfg))) e))
          (\<lambda>_. ret (slogger_of cfg
             (console @ [RotatedFile (path_join (lc_dir cfg) (lc_filename cfg)) (lc_max_size cfg) (lc_max_backups cfg)
                (lc_max_age cfg) (lc_compress cfg)])))
      else ret (slogger_of cfg console))"

section \<open>The database's logger\<close>

text \<open>The levels of \<open>gorm.io/gorm/logger\<close>.\<close>

abbreviation GormSilent :: int where "GormSilent \<equiv> 1"
abbreviation GormError :: int where "GormError \<equiv> 2"
abbreviation GormWarn :: int where "GormWarn \<equiv> 3"
abbreviation GormInfo :: int where "GormInfo \<equiv> 4"

record gorm_logger =
  gl_log_level :: int
  gl_slow_threshold :: int
  gl_ignore_not_found :: bool

definition parse_gorm_log_level :: "string \<Rightarrow> int" where
  "parse_gorm_log_level level =
     (let l = to_lower level in
      if l = ''silent'' then GormSilent
      else if l = ''error'' then GormError
      else if l = ''warn'' \<or> l = ''warning'' then GormWarn
      else if l = ''info'' then GormInfo
      else GormInfo)"

definition new_gorm_logger :: "string \<Rightarrow> int \<Rightarrow> bool \<Rightarrow> gorm_logger" where
  "new_gorm_logger log_level slow_threshold ignore_record_not_found =
     \<lparr>gl_log_level = parse_gorm_log_level log_level, gl_slow_threshold = slow_threshold,
      gl_ignore_not_found = ignore_record_not_found\<rparr>"

definition log_mode :: "int \<Rightarrow> gorm_logger \<Rightarrow> gorm_logger" where
  "log_mode level l = l\<lparr>gl_log_level := level\<rparr>"

text \<open>The entry of a call, if there is one; \<open>s\<close> is the formatted message.\<close>

definition gorm_info :: "gorm_logger \<Rightarrow> string \<Rightarrow> log_entry option" where
  "gorm_info l s =
     (if GormInfo \<le> gl_log_level l then Some \<lparr>le_level = LevelInfo, le_text = Formatted s, le_attrs = []\<rparr> else None)"

definition gorm_warn :: "gorm_logger \<Rightarrow> string \<Rightarrow> log_entry option" where
  "gorm_warn l s =
     (if GormWarn \<le> gl_log_level l then Some \<lparr>le_level = LevelWarn, le_text = Formatted s, le_attrs = []\<rparr> else None)"

definition gorm_error :: "gorm_logger \<Rightarrow> string \<Rightarrow> log_entry option" where
  "gorm_error l s =
     (if GormError \<le> gl_log_level l then Some \<lparr>le_level = LevelError, le_text = Formatted s, le_attrs = []\<rparr> else None)"

text \<open>The level and the message of a statement that took \<open>elapsed\<close> and ended with \<open>err\<close>.\<close>

definition trace_level :: "gorm_logger \<Rightarrow> int \<Rightarrow> go_err option \<Rightarrow> (log_level \<times> log_message) option" where
  "trace_level l elapsed err =
     (if (case err of None \<Rightarrow> False
          | Some e \<Rightarrow> GormError \<le> gl_log_level l \<and> (\<not> gl_ignore_not_found l \<or> \<not> errors_is e ErrRecordNotFound))
      then Some (LevelError, T_sql_failed)
      else if 0 < gl_slow_threshold l \<and> gl_slow_threshold l < elapsed \<and> GormWarn \<le> gl_log_level l
      then Some (LevelWarn, T_sql_slow)
      else if GormInfo \<le> gl_log_level l then Some (LevelInfo, T_sql_done)
      else None)"

definition gorm_trace ::
    "gorm_logger \<Rightarrow> (log_level \<Rightarrow> bool) \<Rightarrow> int \<Rightarrow> string \<times> int \<Rightarrow> go_err option \<Rightarrow> log_entry option" where
  "gorm_trace l enabled elapsed fc err =
     (if gl_log_level l \<le> GormSilent then None
      else
        case trace_level l elapsed err of
          None \<Rightarrow> None
        | Some (level, message) \<Rightarrow>
            if \<not> enabled level then None
            else
              let (sql, row_count) = fc;
                  attrs = [(''durationMs'', VDuration elapsed), (''rows'', VInt row_count), (''sql'', VText sql)]
              in Some \<lparr>le_level = level, le_text = message,
                   le_attrs = attrs @
                     (if level = LevelError then (case err of Some e \<Rightarrow> [(''error'', VError e)] | None \<Rightarrow> []) else []) @
                     (if level = LevelWarn then [(''slowThresholdMs'', VDuration (gl_slow_threshold l))] else [])\<rparr>)"

text \<open>\<open>ParamsFilter\<close>: the statement without its parameters.\<close>

definition params_filter :: "string \<Rightarrow> 'a list \<Rightarrow> string \<times> 'a list" where
  "params_filter sql params = (sql, [])"

section \<open>What is logged\<close>

lemma gorm_level_range: "parse_gorm_log_level s \<in> {GormSilent .. GormInfo}"
  by (simp add: parse_gorm_log_level_def Let_def)

text \<open>Only the text \<open>silent\<close>, in any case, turns the statements off.\<close>

lemma gorm_silent_iff: "parse_gorm_log_level s = GormSilent \<longleftrightarrow> to_lower s = ''silent''"
  by (auto simp: parse_gorm_log_level_def Let_def)

text \<open>A statement that fails is reported with its error unless the logger is silent, or the error only says that no
  row was found and the logger is told to pass over that.\<close>

lemma sql_failure_logged:
  assumes "l = new_gorm_logger s threshold ignore" and "enabled LevelError"
    and "to_lower s \<noteq> ''silent''" and "\<not> (ignore \<and> errors_is e ErrRecordNotFound)"
  shows "\<exists>r. gorm_trace l enabled elapsed fc (Some e) = Some r \<and> le_level r = LevelError \<and>
    map_of (le_attrs r) ''error'' = Some (VError e) \<and> map_of (le_attrs r) ''sql'' = Some (VText (fst fc))"
proof -
  have level: "parse_gorm_log_level s \<noteq> GormSilent" "parse_gorm_log_level s \<in> {GormSilent .. GormInfo}"
    using assms(3) gorm_silent_iff gorm_level_range by blast+
  then have "GormError \<le> gl_log_level l" "\<not> gl_log_level l \<le> GormSilent" by (auto simp: assms(1) new_gorm_logger_def)
  then show ?thesis
    using assms by (simp add: gorm_trace_def trace_level_def new_gorm_logger_def Let_def split_beta)
qed

text \<open>A row that is not there is never an error of the database when it is passed over.\<close>

lemma not_found_is_no_error:
  assumes "gorm_trace l enabled elapsed fc (Some e) = Some r" and "gl_ignore_not_found l" and "errors_is e ErrRecordNotFound"
  shows "le_level r \<noteq> LevelError"
  using assms by (auto simp: gorm_trace_def trace_level_def Let_def split: if_splits prod.splits)

text \<open>A higher log level never loses an entry.\<close>

lemma gorm_trace_monotone:
  assumes "gorm_trace l enabled elapsed fc err = Some r" and "gl_log_level l \<le> level"
  shows "gorm_trace (log_mode level l) enabled elapsed fc err = Some r"
  using assms
  by (auto simp: gorm_trace_def trace_level_def log_mode_def Let_def split: if_splits option.splits prod.splits)

end
