(* ===== verification/Gin.thy ===== *)
theory Gin
  imports Logging Result AuthService Panel
begin

text \<open>
  What the HTTP layer uses of gin: a context with the request, the values middleware leaves for handlers, and
  what has been answered. A handler is a step on the context and the world; a middleware is given the step that
  \<open>c.Next()\<close> runs. Matching a path, parsing headers and cookies and decoding a body are the library's: their
  outcome is part of the request.
\<close>

section \<open>Requests\<close>

text \<open>
  \<open>rq_route\<close> is the registered method and path that gin found, \<open>rq_id\<close> the value of \<open>:id\<close> in it; headers are
  empty when absent; \<open>rq_cookie\<close> is \<open>c.Cookie\<close>.
\<close>

record gin_request =
  rq_method :: string
  rq_path :: string
  rq_raw_query :: string
  rq_route :: "(string \<times> string) option"
  rq_id :: string
  rq_header :: "string \<Rightarrow> string"
  rq_cookie :: "string \<Rightarrow> go_err + string"
  rq_client_ip :: string
  rq_body :: string

section \<open>Answers\<close>

datatype web_data =
    WCaptcha captcha_resp
  | WLogin login_resp
  | WAccessToken string \<comment> \<open>\<open>gin.H{"accessToken": ...}\<close>\<close>
  | WResetToken string \<comment> \<open>\<open>gin.H{"resetToken": ...}\<close>\<close>
  | WUser user_resp
  | WServer server_resp
  | WServers server_list_resp
  | WDst dst_resp
  | WDsts dst_list_resp
  | WTask task_resp
  | WTasks task_list_resp

text \<open>What is sent: a JSON answer, a bare status, gin's own 404, or the switch to a websocket for a server.\<close>

datatype web_answer =
    Body "web_data answer"
  | StatusOnly int
  | RouteMissing
  | Upgraded u64

fun web_status :: "web_answer \<Rightarrow> int" where
  "web_status (Body a) = fst a"
| "web_status (StatusOnly n) = n"
| "web_status RouteMissing = 404"
| "web_status (Upgraded sid) = 101"

record cookie =
  ck_name :: string
  ck_value :: string
  ck_max_age :: int
  ck_path :: string
  ck_domain :: string
  ck_secure :: bool
  ck_http_only :: bool

section \<open>The context\<close>

text \<open>\<open>c.Set\<close> stores values of any type; the program stores an id and two texts.\<close>

datatype key_value = KUint u64 | KText string

record access_log =
  al_level :: log_level
  al_status :: int
  al_client_ip :: string
  al_method :: string
  al_path :: string
  al_query :: string

record gin =
  gx_request :: gin_request
  gx_trace :: "string option" \<comment> \<open>\<open>trace_id\<close> in the request's context\<close>
  gx_keys :: "(string \<times> key_value) list"
  gx_header :: "(string \<times> string) list" \<comment> \<open>of the answer\<close>
  gx_cookies :: "cookie list"
  gx_sent :: "web_answer list"
  gx_log :: "access_log list"
  gx_errors :: "log_entry list" \<comment> \<open>the entries of \<open>Recovery\<close>\<close>

definition new_gin :: "gin_request \<Rightarrow> gin" where
  "new_gin rq = \<lparr>gx_request = rq, gx_trace = None, gx_keys = [], gx_header = [], gx_cookies = [], gx_sent = [], gx_log = [],
    gx_errors = []\<rparr>"

type_synonym 'w step = "gin \<Rightarrow> 'w \<Rightarrow> gin \<times> 'w"

type_synonym 'w middleware = "'w step \<Rightarrow> 'w step"

text \<open>\<open>logger.WithTraceID\<close> and \<open>logger.GetTraceID\<close>\<close>

definition with_trace_id :: "string \<Rightarrow> gin \<Rightarrow> gin" where
  "with_trace_id t c = c\<lparr>gx_trace := Some t\<rparr>"

definition get_trace_id :: "gin \<Rightarrow> string" where
  "get_trace_id c = (case gx_trace c of Some t \<Rightarrow> t | None \<Rightarrow> [])"

definition set_header :: "string \<Rightarrow> string \<Rightarrow> gin \<Rightarrow> gin" where
  "set_header k v c = c\<lparr>gx_header := AList.update k v (gx_header c)\<rparr>"

definition add_header :: "string \<Rightarrow> string \<Rightarrow> gin \<Rightarrow> gin" where
  "add_header k v c = c\<lparr>gx_header := gx_header c @ [(k, v)]\<rparr>"

definition set_key :: "string \<Rightarrow> key_value \<Rightarrow> gin \<Rightarrow> gin" where
  "set_key k v c = c\<lparr>gx_keys := AList.update k v (gx_keys c)\<rparr>"

definition send_answer :: "web_answer \<Rightarrow> gin \<Rightarrow> gin" where
  "send_answer a c = c\<lparr>gx_sent := gx_sent c @ [a]\<rparr>"

text \<open>\<open>result.FailWithMsg(c, code, msg)\<close>, \<open>result.Fail(c, err)\<close> and \<open>result.Success(c, data)\<close>\<close>

definition web_fail_msg :: "int \<Rightarrow> msg \<Rightarrow> gin \<Rightarrow> gin" where
  "web_fail_msg code m c = send_answer (Body (fail_with_msg (get_trace_id c) code m)) c"

definition web_fail :: "go_err \<Rightarrow> gin \<Rightarrow> gin" where
  "web_fail e c = send_answer (Body (fail_answer (get_trace_id c) e)) c"

definition web_success :: "web_data option \<Rightarrow> gin \<Rightarrow> gin" where
  "web_success d c = send_answer (Body (success (get_trace_id c) d)) c"

text \<open>\<open>x, err := f(); if err != nil { result.Fail(c, err); return }; ...; result.Success(c, x)\<close>\<close>

definition respond :: "('w, 'a) go \<Rightarrow> ('a \<Rightarrow> gin \<Rightarrow> gin) \<Rightarrow> 'w step" where
  "respond m k c w = (case m w of (Inl e, w') \<Rightarrow> (web_fail e c, w') | (Inr a, w') \<Rightarrow> (k a c, w'))"

text \<open>\<open>if err := c.ShouldBind...(&req); err != nil { result.FailWithMsg(c, 400, m); return }\<close>\<close>

definition with_request :: "go_err + 'a \<Rightarrow> msg \<Rightarrow> ('a \<Rightarrow> 'w step) \<Rightarrow> 'w step" where
  "with_request r m k c w = (case r of Inl e \<Rightarrow> (web_fail_msg 400 m c, w) | Inr a \<Rightarrow> k a c w)"

section \<open>Validation\<close>

text \<open>
  The tags of the request types as the validator reads them. \<open>dec\<close> decodes; \<open>should_bind\<close> decodes and validates.
\<close>

definition should_bind :: "(string \<Rightarrow> go_err + 'a) \<Rightarrow> ('a \<Rightarrow> bool) \<Rightarrow> string \<Rightarrow> go_err + 'a" where
  "should_bind dec valid s =
     (case dec s of Inl e \<Rightarrow> Inl e | Inr r \<Rightarrow> if valid r then Inr r else Inl (LibError ''validation''))"

function rune_count :: "string \<Rightarrow> nat" where
  "rune_count [] = 0"
| "rune_count (c # cs) = Suc (rune_count (drop (rune_len (c # cs) - 1) cs))"
  by pat_completeness auto
termination by (relation "measure length") auto

text \<open>The phone pattern \<open>^1[3-9][0-9]{9}$\<close> that the router registers as \<open>cnphone\<close>.\<close>

fun cn_phone :: "string \<Rightarrow> bool" where
  "cn_phone (a # b # cs) \<longleftrightarrow> a = CHR ''1'' \<and> in_range 0x33 0x39 b \<and> length cs = 9 \<and> list_all is_digit cs"
| "cn_phone _ \<longleftrightarrow> False"

definition print_ascii :: "string \<Rightarrow> bool" where
  "print_ascii s \<longleftrightarrow> list_all (in_range 0x20 0x7E) s"

definition is_number :: "string \<Rightarrow> bool" where
  "is_number s \<longleftrightarrow> s \<noteq> [] \<and> list_all is_digit s"

definition hex_lower :: "char \<Rightarrow> bool" where
  "hex_lower c \<longleftrightarrow> is_digit c \<or> in_range 0x61 0x66 c"

text \<open>\<open>^[0-9a-f]{8}-[0-9a-f]{4}-4[0-9a-f]{3}-[89ab][0-9a-f]{3}-[0-9a-f]{12}$\<close>\<close>

definition uuid4 :: "string \<Rightarrow> bool" where
  "uuid4 s \<longleftrightarrow>
     length s = 36 \<and>
     list_all (\<lambda>i. if i \<in> {8, 13, 18, 23} then s ! i = CHR ''-'' else hex_lower (s ! i)) [0..<36] \<and>
     s ! 14 = CHR ''4'' \<and> s ! 19 \<in> {CHR ''8'', CHR ''9'', CHR ''a'', CHR ''b''}"

text \<open>\<open>net.ParseIP(s) != nil\<close>: an address without a zone.\<close>

definition ip_text :: "string \<Rightarrow> bool" where
  "ip_text s \<longleftrightarrow> (case parse_addr s of None \<Rightarrow> False | Some (Addr4 fs) \<Rightarrow> True | Some (Addr6 gs z) \<Rightarrow> z = [])"

definition password_text :: "string \<Rightarrow> bool" where
  "password_text s \<longleftrightarrow> 8 \<le> rune_count s \<and> rune_count s \<le> 72 \<and> print_ascii s"

definition sms_code_text :: "string \<Rightarrow> bool" where
  "sms_code_text s \<longleftrightarrow> rune_count s = 6 \<and> is_number s"

definition between :: "int \<Rightarrow> int \<Rightarrow> int \<Rightarrow> bool" where
  "between lo hi n \<longleftrightarrow> lo \<le> n \<and> n \<le> hi"

definition valid_send_sms_code_req :: "send_sms_code_req \<Rightarrow> bool" where
  "valid_send_sms_code_req r \<longleftrightarrow> cn_phone (sr_phone r) \<and> sr_captcha_id r \<noteq> [] \<and> sr_captcha_code r \<noteq> []"

text \<open>\<open>alnum\<close> decides \<open>alphanumunicode\<close>, the letters and digits of Unicode.\<close>

definition valid_register_req :: "(string \<Rightarrow> bool) \<Rightarrow> register_req \<Rightarrow> bool" where
  "valid_register_req alnum r \<longleftrightarrow>
     2 \<le> rune_count (rr_username r) \<and> rune_count (rr_username r) \<le> 64 \<and> alnum (rr_username r) \<and>
     password_text (rr_password r) \<and> cn_phone (rr_phone r) \<and> sms_code_text (rr_sms_code r)"

definition valid_login_req :: "login_req \<Rightarrow> bool" where
  "valid_login_req r \<longleftrightarrow>
     cn_phone (lr_phone r) \<and> password_text (lr_password r) \<and> lr_captcha_id r \<noteq> [] \<and> lr_captcha_code r \<noteq> []"

definition valid_login_by_sms_req :: "login_by_sms_req \<Rightarrow> bool" where
  "valid_login_by_sms_req r \<longleftrightarrow> cn_phone (lq_phone r) \<and> sms_code_text (lq_sms_code r)"

definition valid_verify_reset_code_req :: "verify_reset_code_req \<Rightarrow> bool" where
  "valid_verify_reset_code_req r \<longleftrightarrow> cn_phone (vr_phone r) \<and> sms_code_text (vr_sms_code r)"

definition valid_reset_password_req :: "reset_password_req \<Rightarrow> bool" where
  "valid_reset_password_req r \<longleftrightarrow> uuid4 (rq_reset_token r) \<and> password_text (rq_new_password r)"

definition valid_create_server_req :: "create_server_req \<Rightarrow> bool" where
  "valid_create_server_req r \<longleftrightarrow>
     cr_name r \<noteq> [] \<and> rune_count (cr_name r) \<le> 64 \<and> ip_text (cr_ip r) \<and> between 1 65535 (cr_port r) \<and>
     cr_username r \<noteq> [] \<and> rune_count (cr_username r) \<le> 64 \<and> cr_password r \<noteq> [] \<and> rune_count (cr_password r) \<le> 256"

definition valid_update_server_req :: "update_server_req \<Rightarrow> bool" where
  "valid_update_server_req r \<longleftrightarrow>
     up_name r \<noteq> [] \<and> rune_count (up_name r) \<le> 64 \<and> ip_text (up_ip r) \<and> between 1 65535 (up_port r) \<and>
     update_server_req.up_username r \<noteq> [] \<and> rune_count (update_server_req.up_username r) \<le> 64 \<and>
     rune_count (up_password r) \<le> 256"

definition valid_paging :: "int \<Rightarrow> int \<Rightarrow> bool" where
  "valid_paging page page_size \<longleftrightarrow> between 1 1000000 page \<and> between 1 100 page_size"

definition valid_list_server_req :: "list_server_req \<Rightarrow> bool" where
  "valid_list_server_req r \<longleftrightarrow> valid_paging (lr_page r) (lr_page_size r)"

definition valid_mods :: "string list option \<Rightarrow> bool" where
  "valid_mods ms \<longleftrightarrow> length (or_empty ms) \<le> 200 \<and> list_all (\<lambda>s. is_number s \<and> rune_count s \<le> 32) (or_empty ms)"

definition valid_create_dst_req :: "create_dst_req \<Rightarrow> bool" where
  "valid_create_dst_req r \<longleftrightarrow>
     cd_server_id r \<noteq> 0 \<and> between 1 5 (cd_slot r) \<and> cd_name r \<noteq> [] \<and> rune_count (cd_name r) \<le> 64 \<and>
     rune_count (cd_description r) \<le> 255 \<and> rune_count (cd_password r) \<le> 64 \<and> 1 \<le> cd_max_players r \<and>
     rune_count (cd_cluster_token r) \<le> 255 \<and> valid_mods (cd_mods r)"

definition valid_update_dst_req :: "update_dst_req \<Rightarrow> bool" where
  "valid_update_dst_req r \<longleftrightarrow>
     ud_name r \<noteq> [] \<and> rune_count (ud_name r) \<le> 64 \<and> rune_count (ud_description r) \<le> 255 \<and>
     (case ud_password r of None \<Rightarrow> True | Some p \<Rightarrow> rune_count p \<le> 64) \<and> 1 \<le> ud_max_players r \<and>
     rune_count (ud_cluster_token r) \<le> 255 \<and> valid_mods (ud_mods r)"

definition valid_list_dst_req :: "list_dst_req \<Rightarrow> bool" where
  "valid_list_dst_req r \<longleftrightarrow> ld_server_id r \<noteq> 0 \<and> valid_paging (ld_page r) (ld_page_size r)"

definition valid_list_task_req :: "list_task_req \<Rightarrow> bool" where
  "valid_list_task_req r \<longleftrightarrow>
     valid_paging (lt_page r) (lt_page_size r) \<and> rune_count (lt_type r) \<le> 64 \<and>
     lt_status r \<in> {[], ''pending'', ''running'', ''succeeded'', ''failed''} \<and> rune_count (lt_resource_type r) \<le> 64"

text \<open>What the library decodes: JSON bodies, and query strings with the defaults of the \<open>form\<close> tags.\<close>

record decoders =
  dc_send_sms_code :: "string \<Rightarrow> go_err + send_sms_code_req"
  dc_register :: "string \<Rightarrow> go_err + register_req"
  dc_login :: "string \<Rightarrow> go_err + login_req"
  dc_login_by_sms :: "string \<Rightarrow> go_err + login_by_sms_req"
  dc_verify_reset_code :: "string \<Rightarrow> go_err + verify_reset_code_req"
  dc_reset_password :: "string \<Rightarrow> go_err + reset_password_req"
  dc_create_server :: "string \<Rightarrow> go_err + create_server_req"
  dc_update_server :: "string \<Rightarrow> go_err + update_server_req"
  dc_list_servers :: "string \<Rightarrow> go_err + list_server_req"
  dc_create_dst :: "string \<Rightarrow> go_err + create_dst_req"
  dc_update_dst :: "string \<Rightarrow> go_err + update_dst_req"
  dc_list_dsts :: "string \<Rightarrow> go_err + list_dst_req"
  dc_list_tasks :: "string \<Rightarrow> go_err + list_task_req"
  dc_alnum_unicode :: "string \<Rightarrow> bool"

lemmas contexts = with_trace_id_def set_header_def add_header_def set_key_def send_answer_def web_fail_msg_def web_fail_def
  web_success_def

end
