(* ===== verification/Middleware.thy ===== *)
theory Middleware
  imports Gin RateLimiter
begin

text \<open>
  The middleware of \<open>src/internal/middleware\<close>. Each either answers and stops or runs the rest of the chain, which
  it is given as a step.
\<close>

section \<open>Trace\<close>

definition trace_header_key :: string where
  "trace_header_key = ''X-Trace-ID''"

definition trace_middleware :: "'w runtime \<Rightarrow> 'w middleware" where
  "trace_middleware rt next_step c w =
     (let given = rq_header (gx_request c) trace_header_key;
          (trace_id, w1) = (if given = [] then rt_uuid rt w else (given, w))
      in next_step (set_header trace_header_key trace_id (with_trace_id trace_id c)) w1)"

section \<open>Logger\<close>

definition response_status :: "gin \<Rightarrow> int" where
  "response_status c = (if gx_sent c = [] then 200 else web_status (last (gx_sent c)))"

definition access_level :: "int \<Rightarrow> log_level" where
  "access_level status = (if 500 \<le> status then LevelError else if 400 \<le> status then LevelWarn else LevelInfo)"

text \<open>The entry without its duration.\<close>

definition logger_middleware :: "'w middleware" where
  "logger_middleware next_step c w =
     (let path = rq_path (gx_request c); raw_query = rq_raw_query (gx_request c);
          (c1, w1) = next_step c w; status = response_status c1
      in (c1\<lparr>gx_log := gx_log c1 @
            [\<lparr>al_level = access_level status, al_status = status, al_client_ip = rq_client_ip (gx_request c1),
              al_method = rq_method (gx_request c1), al_path = path, al_query = raw_query\<rparr>]\<rparr>, w1))"

section \<open>Recovery\<close>

text \<open>
  A step that may panic works on a world with the panic that is under way, the value it was raised with and its stack,
  if there is one; what the step had done to the context and the world by then stays. A panic unwinds through the
  middleware inside, which have nothing left to do after \<open>c.Next()\<close>.
\<close>

type_synonym 'w panicking = "('w \<times> (string \<times> string) option) step"

definition panic_entry :: "string \<Rightarrow> string \<times> string \<Rightarrow> log_entry" where
  "panic_entry trace_id v =
     trace_handle trace_id
       \<lparr>le_level = LevelError, le_text = T_request_panicked,
        le_attrs = [(''error'', VText (fst v)), (''stack'', VText (snd v))]\<rparr>"

definition recovery_middleware :: "'w panicking \<Rightarrow> 'w step" where
  "recovery_middleware next_step c w =
     (case next_step c (w, None) of
        (c1, w1, None) \<Rightarrow> (c1, w1)
      | (c1, w1, Some v) \<Rightarrow>
          (web_fail_msg 500 (SysMsg M_internal_error)
             (c1\<lparr>gx_errors := gx_errors c1 @ [panic_entry (get_trace_id c1) v]\<rparr>), w1))"

text \<open>A step that does not panic.\<close>

definition quietly :: "'w step \<Rightarrow> 'w panicking" where
  "quietly h c w = (case h c (fst w) of (c', w') \<Rightarrow> (c', w', snd w))"

lemma recovery_quietly [simp]: "recovery_middleware (quietly h) = h"
  by (simp add: fun_eq_iff recovery_middleware_def quietly_def split: prod.split)

section \<open>CORS\<close>

definition cors_middleware :: "string list \<Rightarrow> 'w middleware" where
  "cors_middleware allowed_origins next_step c w =
     (let c0 = add_header ''Vary'' ''Origin'' c; origin = rq_header (gx_request c) ''Origin'' in
      if origin = [] then next_step c0 w
      else if origin \<notin> set (filter (\<lambda>ori. ori \<noteq> []) allowed_origins) then
        (web_fail_msg 403 (WebMsg M_origin_untrusted) c0, w)
      else
        let c1 = set_header ''Access-Control-Expose-Headers'' ''X-Trace-ID''
                   (set_header ''Access-Control-Allow-Credentials'' ''true''
                     (set_header ''Access-Control-Allow-Origin'' origin c0))
        in if rq_method (gx_request c) = ''OPTIONS'' \<and> rq_header (gx_request c) ''Access-Control-Request-Method'' \<noteq> [] then
             (send_answer (StatusOnly 204)
               (set_header ''Access-Control-Max-Age'' ''600''
                 (set_header ''Access-Control-Allow-Headers'' ''Content-Type, Authorization, X-CSRF-Token, X-Trace-ID''
                   (set_header ''Access-Control-Allow-Methods'' ''GET, POST, PUT, PATCH, DELETE, OPTIONS'' c1))), w)
           else next_step c1 w)"

section \<open>Rate limit\<close>

text \<open>\<open>limiter\<close> is the method \<open>Allow\<close> of \<open>redis.Limiter\<close>.\<close>

definition global_limit_key :: string where
  "global_limit_key = ''ratelimit:global''"

definition rate_limit_middleware :: "(string \<Rightarrow> int \<Rightarrow> int \<Rightarrow> ('w, bool) go) \<Rightarrow> int \<Rightarrow> int \<Rightarrow> 'w middleware" where
  "rate_limit_middleware limiter limit window next_step c w =
     (case limiter global_limit_key limit window w of
        (Inl e, w1) \<Rightarrow> (web_fail_msg 503 (WebMsg M_server_busy) c, w1)
      | (Inr allowed, w1) \<Rightarrow>
          if \<not> allowed then (web_fail_msg 503 (WebMsg M_server_busy) c, w1) else next_step c w1)"

section \<open>Authentication\<close>

text \<open>The token of an authorization header, or the message for its absence.\<close>

definition bearer_credential :: "string \<Rightarrow> msg + string" where
  "bearer_credential h =
     (if h = [] then Inl (AuthMsg M_credential_missing)
      else
        let parts = split_blank2 h in
        if length parts \<noteq> 2 \<or> parts ! 0 \<noteq> ''Bearer'' then Inl (WebMsg M_credential_malformed) else Inr (parts ! 1))"

definition set_identity :: "identity \<Rightarrow> gin \<Rightarrow> gin" where
  "set_identity i c =
     set_key ''role'' (KText (id_role i))
       (set_key ''username'' (KText (id_username i)) (set_key ''userID'' (KUint (id_user_id i)) c))"

definition auth_middleware :: "(string \<Rightarrow> ('w, identity) go) \<Rightarrow> 'w middleware" where
  "auth_middleware auth next_step c w =
     (case bearer_credential (rq_header (gx_request c) ''Authorization'') of
        Inl m \<Rightarrow> (web_fail_msg 401 m c, w)
      | Inr token \<Rightarrow>
          (case auth token w of
             (Inl e, w1) \<Rightarrow> (web_fail e c, w1)
           | (Inr i, w1) \<Rightarrow> next_step (set_identity i c) w1))"

end
