(* ===== verification/AuthHandlers.thy ===== *)
theory AuthHandlers
  imports Gin
begin

text \<open>
  The handlers for accounts and sessions, \<open>src/internal/handler/v1/auth/handler.go\<close>: each decodes and validates
  its request, calls the authentication service, and answers; the refresh token travels in a cookie.
\<close>

section \<open>The authorization header of a logout\<close>

definition space_at :: "string \<Rightarrow> bool" where
  "space_at s \<longleftrightarrow> list_ex (\<lambda>r. starts_with r s) space_runes"

fun field_end :: "string \<Rightarrow> string \<times> string" where
  "field_end [] = ([], [])"
| "field_end (c # cs) =
     (if space_at (c # cs) then ([], c # cs) else (case field_end cs of (f, rest) \<Rightarrow> (c # f, rest)))"

lemma field_end_append: "field_end s = (f, rest) \<Longrightarrow> s = f @ rest"
  by (induction s arbitrary: f rest) (auto split: if_splits prod.splits)

lemma strip_not_space: "\<not> space_at (strip space_runes s) \<or> strip space_runes s = []"
proof -
  have "[] \<notin> set space_runes" by (simp add: space_runes_def)
  with strip_space_free [of space_runes s] show ?thesis by (auto simp: space_free_def space_at_def list_ex_iff)
qed

lemma field_end_shorter:
  assumes "strip space_runes s \<noteq> []"
  shows "length (snd (field_end (strip space_runes s))) < length s"
proof -
  obtain t where t: "s = t @ strip space_runes s" using strip_suffix [of s space_runes] by blast
  then have le: "length (strip space_runes s) \<le> length s" by (metis length_append le_add2)
  obtain c cs where c: "strip space_runes s = c # cs" using assms by (cases "strip space_runes s") auto
  with strip_not_space [of s] have "\<not> space_at (c # cs)" by auto
  moreover obtain f rest where f: "field_end cs = (f, rest)" by fastforce
  with field_end_append have "length rest \<le> length cs" by fastforce
  ultimately show ?thesis using c f le by simp
qed

text \<open>\<open>strings.Fields\<close>\<close>

function split_fields :: "string \<Rightarrow> string list" where
  "split_fields s =
     (let t = strip space_runes s in
      if t = [] then [] else fst (field_end t) # split_fields (snd (field_end t)))"
  by pat_completeness auto
termination
  by (relation "measure length") (auto simp: field_end_shorter)

declare split_fields.simps [simp del]

text \<open>\<open>strings.EqualFold(s, "Bearer")\<close>: no other character folds to one of these letters.\<close>

definition equal_fold_bearer :: "string \<Rightarrow> bool" where
  "equal_fold_bearer s \<longleftrightarrow> map lower s = ''bearer''"

section \<open>The handler\<close>

record ('w, 'h) auth_handler =
  ah_service :: "('w, 'h) auth_parts"
  ah_refresh_expire :: int
  ah_cookie_secure :: bool
  ah_decoders :: decoders

definition new_auth_handler :: "('w, 'h) auth_parts \<Rightarrow> int \<Rightarrow> bool \<Rightarrow> decoders \<Rightarrow> ('w, 'h) auth_handler" where
  "new_auth_handler s refresh_expire cookie_secure d =
     \<lparr>ah_service = s, ah_refresh_expire = refresh_expire, ah_cookie_secure = cookie_secure, ah_decoders = d\<rparr>"

definition refresh_token_cookie_name :: string where
  "refresh_token_cookie_name = ''refresh_token''"

definition refresh_token_cookie_path :: string where
  "refresh_token_cookie_path = ''/api/v1/auth''"

text \<open>\<open>d / time.Second\<close> truncates toward zero.\<close>

definition whole_seconds :: "int \<Rightarrow> int" where
  "whole_seconds d = (if d < 0 then - (- d div 1000000000) else d div 1000000000)"

definition set_cookie :: "cookie \<Rightarrow> gin \<Rightarrow> gin" where
  "set_cookie k c = c\<lparr>gx_cookies := gx_cookies c @ [k]\<rparr>"

definition set_refresh_token_cookie :: "('w, 'h) auth_handler \<Rightarrow> string \<Rightarrow> gin \<Rightarrow> gin" where
  "set_refresh_token_cookie h token =
     set_cookie \<lparr>ck_name = refresh_token_cookie_name, ck_value = token, ck_max_age = whole_seconds (ah_refresh_expire h),
       ck_path = refresh_token_cookie_path, ck_domain = [], ck_secure = ah_cookie_secure h, ck_http_only = True\<rparr>"

definition clear_refresh_token_cookie :: "('w, 'h) auth_handler \<Rightarrow> gin \<Rightarrow> gin" where
  "clear_refresh_token_cookie h =
     set_cookie \<lparr>ck_name = refresh_token_cookie_name, ck_value = [], ck_max_age = -1,
       ck_path = refresh_token_cookie_path, ck_domain = [], ck_secure = ah_cookie_secure h, ck_http_only = True\<rparr>"

text \<open>The end of \<open>Register\<close>, \<open>Login\<close> and \<open>LoginBySMS\<close>.\<close>

definition logged_in :: "('w, 'h) auth_handler \<Rightarrow> login_resp \<times> string \<Rightarrow> gin \<Rightarrow> gin" where
  "logged_in h = (\<lambda>(resp, token) c. web_success (Some (WLogin resp)) (set_refresh_token_cookie h token c))"

abbreviation request_invalid :: msg where
  "request_invalid \<equiv> WebMsg M_request_invalid"

definition http_get_captcha :: "('w, 'h) auth_handler \<Rightarrow> 'w step" where
  "http_get_captcha h = respond (auth_generate_captcha (ah_service h)) (\<lambda>r. web_success (Some (WCaptcha r)))"

definition http_send_sms_code :: "('w, 'h) auth_handler \<Rightarrow> 'w step" where
  "http_send_sms_code h c =
     with_request (should_bind (dc_send_sms_code (ah_decoders h)) valid_send_sms_code_req (rq_body (gx_request c))) request_invalid
       (\<lambda>req. respond (auth_send_sms_code (ah_service h) (rq_client_ip (gx_request c)) req) (\<lambda>_. web_success None)) c"

definition http_register :: "('w, 'h) auth_handler \<Rightarrow> 'w step" where
  "http_register h c =
     with_request (should_bind (dc_register (ah_decoders h)) (valid_register_req (dc_alnum_unicode (ah_decoders h)))
         (rq_body (gx_request c))) request_invalid
       (\<lambda>req. respond (register_user (ah_service h) None req) (logged_in h)) c"

definition http_login :: "('w, 'h) auth_handler \<Rightarrow> 'w step" where
  "http_login h c =
     with_request (should_bind (dc_login (ah_decoders h)) valid_login_req (rq_body (gx_request c))) request_invalid
       (\<lambda>req. respond (login (ah_service h) None req) (logged_in h)) c"

definition http_login_by_sms :: "('w, 'h) auth_handler \<Rightarrow> 'w step" where
  "http_login_by_sms h c =
     with_request (should_bind (dc_login_by_sms (ah_decoders h)) valid_login_by_sms_req (rq_body (gx_request c))) request_invalid
       (\<lambda>req. respond (login_by_sms (ah_service h) None req) (logged_in h)) c"

definition http_refresh_token :: "('w, 'h) auth_handler \<Rightarrow> 'w step" where
  "http_refresh_token h c w =
     (case rq_cookie (gx_request c) refresh_token_cookie_name of
        Inl e \<Rightarrow> (web_fail_msg 401 (AuthMsg M_refresh_missing) c, w)
      | Inr token \<Rightarrow>
          if token = [] then (web_fail_msg 401 (AuthMsg M_refresh_missing) c, w)
          else
            respond (refresh_token (ah_service h) None token)
              (\<lambda>(access, refresh) c. web_success (Some (WAccessToken access)) (set_refresh_token_cookie h refresh c)) c w)"

definition http_logout :: "('w, 'h) auth_handler \<Rightarrow> 'w step" where
  "http_logout h c w =
     (let parts = split_fields (rq_header (gx_request c) ''Authorization'') in
      if length parts \<noteq> 2 \<or> \<not> equal_fold_bearer (parts ! 0) then
        (web_fail_msg 400 (WebMsg M_bearer_missing_or_malformed) c, w)
      else
        let refresh = (case rq_cookie (gx_request c) refresh_token_cookie_name of Inl e \<Rightarrow> [] | Inr t \<Rightarrow> t)
        in respond (logout (ah_service h) (parts ! 1) refresh)
             (\<lambda>_ c. web_success None (clear_refresh_token_cookie h c)) c w)"

definition http_verify_reset_code :: "('w, 'h) auth_handler \<Rightarrow> 'w step" where
  "http_verify_reset_code h c =
     with_request (should_bind (dc_verify_reset_code (ah_decoders h)) valid_verify_reset_code_req (rq_body (gx_request c)))
       request_invalid
       (\<lambda>req. respond (verify_reset_code (ah_service h) None req) (\<lambda>t. web_success (Some (WResetToken t)))) c"

definition http_reset_password :: "('w, 'h) auth_handler \<Rightarrow> 'w step" where
  "http_reset_password h c =
     with_request (should_bind (dc_reset_password (ah_decoders h)) valid_reset_password_req (rq_body (gx_request c)))
       request_invalid
       (\<lambda>req. respond (reset_password (ah_service h) None req) (\<lambda>_. web_success None)) c"

definition http_get_profile :: "('w, 'h) auth_handler \<Rightarrow> 'w step" where
  "http_get_profile h c w =
     (case map_of (gx_keys c) ''userID'' of
        None \<Rightarrow> (web_fail_msg 401 (AgentMsg M_unauthorized) c, w)
      | Some (KText _) \<Rightarrow> (web_fail_msg 401 (SessionMsg M_user_id_invalid) c, w)
      | Some (KUint uid) \<Rightarrow> respond (get_profile (ah_service h) None uid) (\<lambda>u. web_success (Some (WUser u))) c w)"

end
