(* ===== verification/PanelHandlers.thy ===== *)
theory PanelHandlers
  imports Gin
begin

text \<open>
  The handlers for servers, saved worlds and tasks, \<open>src/internal/handler/v1/server/handler.go\<close>,
  \<open>src/internal/handler/v1/dst/handler.go\<close> and \<open>src/internal/handler/v1/task/handler.go\<close>.
\<close>

section \<open>The user and the id\<close>

text \<open>\<open>getUserID\<close>, the same in the three handlers, followed by the rest of the handler.\<close>

definition with_user_id :: "(u64 \<Rightarrow> 'w step) \<Rightarrow> 'w step" where
  "with_user_id k c w =
     (case map_of (gx_keys c) ''userID'' of
        None \<Rightarrow> (web_fail_msg 401 (AgentMsg M_unauthorized) c, w)
      | Some (KText _) \<Rightarrow> (web_fail_msg 401 (SessionMsg M_user_id_invalid) c, w)
      | Some (KUint uid) \<Rightarrow>
          if uid = 0 then (web_fail_msg 401 (SessionMsg M_user_id_invalid) c, w) else k uid c w)"

text \<open>\<open>getServerID\<close>, \<open>getDstID\<close> and the same lines for tasks, with the message each answers.\<close>

definition with_path_id :: "msg \<Rightarrow> (u64 \<Rightarrow> 'w step) \<Rightarrow> 'w step" where
  "with_path_id m k c w =
     (case parse_uint (rq_id (gx_request c)) 63 of
        Inl e \<Rightarrow> (web_fail_msg 400 m c, w)
      | Inr i \<Rightarrow> if i = 0 then (web_fail_msg 400 m c, w) else k i c w)"

definition with_server_id :: "(u64 \<Rightarrow> 'w step) \<Rightarrow> 'w step" where
  "with_server_id = with_path_id (WebMsg M_server_path_id_invalid)"

definition with_dst_id :: "(u64 \<Rightarrow> 'w step) \<Rightarrow> 'w step" where
  "with_dst_id = with_path_id (WebMsg M_dst_path_id_invalid)"

definition with_task_id :: "(u64 \<Rightarrow> 'w step) \<Rightarrow> 'w step" where
  "with_task_id = with_path_id (WebMsg M_task_path_id_invalid)"

section \<open>Servers\<close>

definition http_create_server :: "decoders \<Rightarrow> ('w, 'h) server_parts \<Rightarrow> 'w step" where
  "http_create_server d s = with_user_id (\<lambda>uid c.
     with_request (should_bind (dc_create_server d) valid_create_server_req (rq_body (gx_request c))) (WebMsg M_request_invalid)
       (\<lambda>req. respond (svc_create_server s None uid req) (\<lambda>r. web_success (Some (WServer r)))) c)"

definition http_get_server :: "('w, 'h) server_parts \<Rightarrow> 'w step" where
  "http_get_server s = with_user_id (\<lambda>uid. with_server_id (\<lambda>sid.
     respond (svc_get_server s None uid sid) (\<lambda>r. web_success (Some (WServer r)))))"

definition http_list_servers :: "decoders \<Rightarrow> ('w, 'h) server_parts \<Rightarrow> 'w step" where
  "http_list_servers d s = with_user_id (\<lambda>uid c.
     with_request (should_bind (dc_list_servers d) valid_list_server_req (rq_raw_query (gx_request c))) (ServerMsg M_paging_invalid)
       (\<lambda>req. respond (svc_list_servers s None uid req) (\<lambda>r. web_success (Some (WServers r)))) c)"

definition http_update_server :: "decoders \<Rightarrow> ('w, 'h) server_parts \<Rightarrow> 'w step" where
  "http_update_server d s = with_user_id (\<lambda>uid. with_server_id (\<lambda>sid c.
     with_request (should_bind (dc_update_server d) valid_update_server_req (rq_body (gx_request c))) (WebMsg M_request_invalid)
       (\<lambda>req. respond (svc_update_server s None uid sid req) (\<lambda>_. web_success None)) c))"

definition http_delete_server :: "('w, 'h) server_parts \<Rightarrow> 'w step" where
  "http_delete_server s = with_user_id (\<lambda>uid. with_server_id (\<lambda>sid.
     respond (svc_delete_server s None uid sid) (\<lambda>_. web_success None)))"

section \<open>Saved worlds\<close>

definition http_create_dst :: "decoders \<Rightarrow> ('w, 'h) dst_parts \<Rightarrow> 'w step" where
  "http_create_dst d s = with_user_id (\<lambda>uid c.
     with_request (should_bind (dc_create_dst d) valid_create_dst_req (rq_body (gx_request c))) (WebMsg M_request_invalid)
       (\<lambda>req. respond (svc_create_dst s None uid req) (\<lambda>r. web_success (Some (WDst r)))) c)"

definition http_get_dst :: "('w, 'h) dst_parts \<Rightarrow> 'w step" where
  "http_get_dst s = with_user_id (\<lambda>uid. with_dst_id (\<lambda>i.
     respond (svc_get_dst s None uid i) (\<lambda>r. web_success (Some (WDst r)))))"

definition http_list_dsts :: "decoders \<Rightarrow> ('w, 'h) dst_parts \<Rightarrow> 'w step" where
  "http_list_dsts d s = with_user_id (\<lambda>uid c.
     with_request (should_bind (dc_list_dsts d) valid_list_dst_req (rq_raw_query (gx_request c))) (DstMsg M_query_params_invalid)
       (\<lambda>req. respond (svc_list_dsts s None uid req) (\<lambda>r. web_success (Some (WDsts r)))) c)"

definition http_update_dst :: "decoders \<Rightarrow> ('w, 'h) dst_parts \<Rightarrow> 'w step" where
  "http_update_dst d s = with_user_id (\<lambda>uid. with_dst_id (\<lambda>i c.
     with_request (should_bind (dc_update_dst d) valid_update_dst_req (rq_body (gx_request c))) (WebMsg M_request_invalid)
       (\<lambda>req. respond (svc_update_dst s None uid i req) (\<lambda>_. web_success None)) c))"

definition http_delete_dst :: "('w, 'h) dst_parts \<Rightarrow> 'w step" where
  "http_delete_dst s = with_user_id (\<lambda>uid. with_dst_id (\<lambda>i.
     respond (svc_delete_dst s None uid i) (\<lambda>_. web_success None)))"

section \<open>Tasks\<close>

definition http_list_tasks :: "decoders \<Rightarrow> ('w, 'h) task_parts \<Rightarrow> 'w step" where
  "http_list_tasks d s = with_user_id (\<lambda>uid c.
     with_request (should_bind (dc_list_tasks d) valid_list_task_req (rq_raw_query (gx_request c))) (DstMsg M_query_params_invalid)
       (\<lambda>req. respond (svc_list_tasks s None uid (Some req)) (\<lambda>r. web_success (Some (WTasks r)))) c)"

definition http_get_task :: "('w, 'h) task_parts \<Rightarrow> 'w step" where
  "http_get_task s = with_user_id (\<lambda>uid. with_task_id (\<lambda>i.
     respond (svc_get_task s None uid i) (\<lambda>r. web_success (Some (WTask r)))))"

end
