(* ===== verification/Router.thy ===== *)
theory Router
  imports Middleware AuthHandlers PanelHandlers AgentHandler
begin

text \<open>
  The routes, \<open>src/internal/router\<close>, and the application they serve, put together as
  \<open>src/internal/bootstrap/app.go\<close> does.
\<close>

section \<open>The agents' endpoint\<close>

text \<open>
  \<open>ServeWS\<close> up to the switch of protocols: its answer, or the server whose agent is let in. What follows is the
  subject of AgentHandler.
\<close>

definition http_agent_ws :: "'w agent_auth \<Rightarrow> 'w step" where
  "http_agent_ws a c w =
     (case parse_bearer_token (rq_header (gx_request c) ''Authorization'') of
        Inl e \<Rightarrow> (web_fail_msg 401 (AgentMsg M_unauthorized) c, w)
      | Inr token \<Rightarrow>
          (case agent_authenticate a token w of
             (Inl e, w1) \<Rightarrow> (web_fail e c, w1)
           | (Inr sid, w1) \<Rightarrow> (send_answer (Upgraded sid) c, w1)))"

section \<open>Routes\<close>

text \<open>A route: method, path, and the handlers from the middleware of its groups to its own.\<close>

type_synonym 'w route = "string \<times> string \<times> 'w step"

definition chain :: "'w middleware list \<Rightarrow> 'w step \<Rightarrow> 'w step" where
  "chain ms h = foldr (\<lambda>m k. m k) ms h"

definition route_group :: "string \<Rightarrow> 'w middleware list \<Rightarrow> 'w route list \<Rightarrow> 'w route list" where
  "route_group prefix ms rs = map (\<lambda>(method, path, h). (method, prefix @ path, chain ms h)) rs"

record ('w, 'h) web_handlers =
  wh_auth_service :: "('w, 'h) auth_parts"
  wh_auth :: "('w, 'h) auth_handler"
  wh_server :: "('w, 'h) server_parts"
  wh_dst :: "('w, 'h) dst_parts"
  wh_task :: "('w, 'h) task_parts"
  wh_agent :: "'w agent_auth"
  wh_decoders :: decoders

definition auth_routes :: "('w, 'h) web_handlers \<Rightarrow> 'w route list" where
  "auth_routes H = route_group ''/auth'' []
     [(''GET'', ''/captcha'', http_get_captcha (wh_auth H)),
      (''POST'', ''/sms-code'', http_send_sms_code (wh_auth H)),
      (''POST'', ''/register'', http_register (wh_auth H)),
      (''POST'', ''/login'', http_login (wh_auth H)),
      (''POST'', ''/login/sms'', http_login_by_sms (wh_auth H)),
      (''POST'', ''/refresh'', http_refresh_token (wh_auth H)),
      (''POST'', ''/logout'', http_logout (wh_auth H)),
      (''POST'', ''/password/verify'', http_verify_reset_code (wh_auth H)),
      (''POST'', ''/password/reset'', http_reset_password (wh_auth H))]"

definition protected_routes :: "('w, 'h) web_handlers \<Rightarrow> 'w route list" where
  "protected_routes H =
     [(''GET'', ''/auth/profile'', http_get_profile (wh_auth H))] @
     route_group ''/server'' []
       [(''POST'', '''', http_create_server (wh_decoders H) (wh_server H)),
        (''GET'', '''', http_list_servers (wh_decoders H) (wh_server H)),
        (''GET'', ''/:id'', http_get_server (wh_server H)),
        (''PUT'', ''/:id'', http_update_server (wh_decoders H) (wh_server H)),
        (''DELETE'', ''/:id'', http_delete_server (wh_server H))] @
     route_group ''/dst'' []
       [(''POST'', '''', http_create_dst (wh_decoders H) (wh_dst H)),
        (''GET'', '''', http_list_dsts (wh_decoders H) (wh_dst H)),
        (''GET'', ''/:id'', http_get_dst (wh_dst H)),
        (''PUT'', ''/:id'', http_update_dst (wh_decoders H) (wh_dst H)),
        (''DELETE'', ''/:id'', http_delete_dst (wh_dst H))] @
     route_group ''/tasks'' []
       [(''GET'', '''', http_list_tasks (wh_decoders H) (wh_task H)),
        (''GET'', ''/:id'', http_get_task (wh_task H))]"

definition register_v1_routes :: "('w, 'h) web_handlers \<Rightarrow> 'w middleware \<Rightarrow> 'w route list" where
  "register_v1_routes H rate_limit =
     route_group ''/api/v1'' []
       (route_group '''' [rate_limit]
          (auth_routes H @
           route_group '''' [auth_middleware (authenticate (wh_auth_service H) None)] (protected_routes H)) @
        route_group ''/agent'' [] [(''GET'', ''/ws'', http_agent_ws (wh_agent H))])"

section \<open>The router\<close>

definition route_missing :: "'w step" where
  "route_missing c w = (send_answer RouteMissing c, w)"

text \<open>The route gin found for a request, with the global middleware before it.\<close>

definition route_step :: "'w route list \<Rightarrow> 'w step" where
  "route_step rs c =
     (case rq_route (gx_request c) of
        None \<Rightarrow> route_missing c
      | Some mp \<Rightarrow>
          (case find (\<lambda>(method, path, h). (method, path) = mp) rs of
             None \<Rightarrow> route_missing c
           | Some (method, path, h) \<Rightarrow> h c))"

text \<open>
  \<open>InitRouter\<close>: the global middleware before every route and before the answer of gin when there is none.
  \<open>global_chain\<close> is what it makes of any routes, of steps that may panic too; no operation of the model panics.
\<close>

definition global_chain :: "'w runtime \<Rightarrow> string list \<Rightarrow> 'w panicking \<Rightarrow> 'w step" where
  "global_chain rt allowed_origins routes =
     trace_middleware rt (logger_middleware (recovery_middleware (cors_middleware allowed_origins routes)))"

definition init_router ::
    "'w runtime \<Rightarrow> string list \<Rightarrow> (string \<Rightarrow> int \<Rightarrow> int \<Rightarrow> ('w, bool) go) \<Rightarrow> ('w, 'h) web_handlers \<Rightarrow> 'w step" where
  "init_router rt allowed_origins limiter H =
     global_chain rt allowed_origins (quietly (route_step (register_v1_routes H (rate_limit_middleware limiter 100 (seconds 1)))))"

lemma cors_quietly: "cors_middleware os (quietly h) = quietly (cors_middleware os h)"
  by (auto simp: fun_eq_iff cors_middleware_def quietly_def Let_def)

lemma init_router_steps:
  "init_router rt os limiter H = trace_middleware rt (logger_middleware (cors_middleware os
     (route_step (register_v1_routes H (rate_limit_middleware limiter 100 (seconds 1))))))"
  by (simp add: init_router_def global_chain_def cors_quietly)

section \<open>The application\<close>

record app_config =
  ac_jwt :: jwt_config
  ac_captcha_expire :: int
  ac_cookie_secure :: bool
  ac_allowed_origins :: "string list"

text \<open>\<open>jwtManager\<close> and the server repository as the agents' endpoint uses them.\<close>

definition new_agent_auth :: "('w, 'h) externals \<Rightarrow> ('w, 'h) panel \<Rightarrow> jwt_config \<Rightarrow> 'w agent_auth" where
  "new_agent_auth X Y cfg =
     \<lparr>aa_parse_agent_token = parse_agent_token (ex_jwt X) cfg,
      aa_exists_by_id = server_exists_by_id (pe_servers Y) (pe_db Y) None\<rparr>"

definition app_handlers ::
    "('w, 'h) externals \<Rightarrow> ('w, 'h) panel \<Rightarrow> app_config \<Rightarrow> decoders \<Rightarrow> ('w, 'h) web_handlers" where
  "app_handlers X Y cfg d =
     (let auth_service = new_auth_service X (ac_jwt cfg) (ac_captcha_expire cfg) in
      \<lparr>wh_auth_service = auth_service,
       wh_auth = new_auth_handler auth_service (jc_refresh_expire (ac_jwt cfg)) (ac_cookie_secure cfg) d,
       wh_server = server_service Y, wh_dst = dst_service Y, wh_task = task_service Y,
       wh_agent = new_agent_auth X Y (ac_jwt cfg), wh_decoders = d\<rparr>)"

definition app :: "('w, 'h) externals \<Rightarrow> ('w, 'h) panel \<Rightarrow> app_config \<Rightarrow> decoders \<Rightarrow> gin_request \<Rightarrow> 'w \<Rightarrow> gin \<times> 'w" where
  "app X Y cfg d rq =
     init_router (ex_runtime X) (ac_allowed_origins cfg) (allow (ex_redis X) (ex_runtime X)) (app_handlers X Y cfg d)
       (new_gin rq)"

end
