(* ===== verification/WebAnswers.thy ===== *)
theory WebAnswers
  imports Router
begin

text \<open>
  What every request to the application is replied: one answer, in the uniform shape, with the trace id of the
  request, and one entry in the access log.
\<close>

section \<open>One answer\<close>

text \<open>An answer in the uniform shape: the code of the body is the status, and only success carries data.\<close>

fun answer_ok :: "string \<Rightarrow> web_answer \<Rightarrow> bool" where
  "answer_ok t (Body (status, r)) \<longleftrightarrow>
     status = rs_code r \<and> rs_trace_id r = t \<and> (response.rs_data r = None \<or> status = 200)"
| "answer_ok t (StatusOnly n) \<longleftrightarrow> n = 204"
| "answer_ok t RouteMissing \<longleftrightarrow> True"
| "answer_ok t (Upgraded sid) \<longleftrightarrow> True"

text \<open>A context after one answer, and with what the outer middleware has set unchanged.\<close>

definition replied :: "gin \<Rightarrow> gin \<Rightarrow> bool" where
  "replied c c' \<longleftrightarrow>
     (\<exists>a. gx_sent c' = gx_sent c @ [a] \<and> answer_ok (get_trace_id c) a) \<and> gx_trace c' = gx_trace c \<and>
     gx_request c' = gx_request c \<and> gx_log c' = gx_log c \<and>
     map_of (gx_header c') trace_header_key = map_of (gx_header c) trace_header_key"

definition replies :: "'w step \<Rightarrow> bool" where
  "replies h \<longleftrightarrow> (\<forall>c w. replied c (fst (h c w)))"

named_theorems one_answer "handlers that answer once"

lemma repliesI: "(\<And>c w. replied c (fst (h c w))) \<Longrightarrow> replies h"
  by (simp add: replies_def)

lemma repliesD: "replies h \<Longrightarrow> replied c (fst (h c w))"
  by (simp add: replies_def)

lemma fail_answer_shape: "answer_ok t (Body (fail_answer t e))"
  by (simp add: answers split: option.split)

lemma answered_fail_msg [one_answer]: "replied c (web_fail_msg code m c)"
  by (simp add: replied_def contexts answers)

lemma answered_fail [one_answer]: "replied c (web_fail e c)"
  using fail_answer_shape [of "get_trace_id c" e] by (simp add: replied_def contexts)

lemma answered_success [one_answer]: "replied c (web_success d c)"
  by (simp add: replied_def contexts answers)

lemma answered_other [one_answer]: "replied c (send_answer RouteMissing c)" "replied c (send_answer (Upgraded sid) c)"
  by (simp_all add: replied_def contexts)

lemma answered_with_cookie [one_answer]: "replied c (web_success d (set_cookie k c))"
  by (simp add: replied_def contexts answers set_cookie_def get_trace_id_def)

lemma answered_respond [one_answer]:
  "(\<And>a. replied c (k a c)) \<Longrightarrow> replied c (fst (respond m k c w))"
  by (simp add: respond_def answered_fail split: prod.split sum.split)

lemma answered_bound [one_answer]:
  "(\<And>a. replied c (fst (k a c w))) \<Longrightarrow> replied c (fst (with_request r m k c w))"
  by (simp add: with_request_def answered_fail_msg split: sum.split)

lemma answered_user_id [one_answer]:
  "(\<And>uid. replied c (fst (k uid c w))) \<Longrightarrow> replied c (fst (with_user_id k c w))"
  by (simp add: with_user_id_def answered_fail_msg split: option.split key_value.split)

lemma answered_path_id [one_answer]:
  "(\<And>i. replied c (fst (k i c w))) \<Longrightarrow> replied c (fst (with_path_id m k c w))"
  by (simp add: with_path_id_def answered_fail_msg split: sum.split)

lemmas with_ids = with_server_id_def with_dst_id_def with_task_id_def

lemmas auth_handlers = http_get_captcha_def http_send_sms_code_def http_register_def http_login_def http_login_by_sms_def
  http_refresh_token_def http_logout_def http_verify_reset_code_def http_reset_password_def http_get_profile_def

lemmas panel_handlers = http_create_server_def http_get_server_def http_list_servers_def http_update_server_def
  http_delete_server_def http_create_dst_def http_get_dst_def http_list_dsts_def http_update_dst_def http_delete_dst_def
  http_list_tasks_def http_get_task_def

lemma auth_handlers_answer:
  "replies (http_get_captcha h)" "replies (http_send_sms_code h)" "replies (http_register h)" "replies (http_login h)"
  "replies (http_login_by_sms h)" "replies (http_verify_reset_code h)" "replies (http_reset_password h)"
  by (auto intro!: repliesI one_answer simp: auth_handlers logged_in_def set_refresh_token_cookie_def split_beta)

lemma session_handlers_answer:
  "replies (http_refresh_token h)" "replies (http_logout h)" "replies (http_get_profile h)"
  by (auto intro!: repliesI one_answer
      simp: auth_handlers set_refresh_token_cookie_def clear_refresh_token_cookie_def Let_def
      split: sum.split option.split key_value.split)

lemma panel_handlers_answer:
  "replies (http_create_server d s)" "replies (http_get_server s)" "replies (http_list_servers d s)"
  "replies (http_update_server d s)" "replies (http_delete_server s)" "replies (http_create_dst d z)"
  "replies (http_get_dst z)" "replies (http_list_dsts d z)" "replies (http_update_dst d z)" "replies (http_delete_dst z)"
  "replies (http_list_tasks d t)" "replies (http_get_task t)"
  by (auto intro!: repliesI one_answer simp: panel_handlers with_ids)

lemma agent_ws_answers: "replies (http_agent_ws a)"
  by (auto intro!: repliesI one_answer simp: http_agent_ws_def split: sum.split prod.split)

section \<open>The routes\<close>

lemma rate_limit_answers:
  assumes "replies h"
  shows "replies (rate_limit_middleware limiter n win h)"
proof (rule repliesI)
  fix c :: gin and w
  show "replied c (fst (rate_limit_middleware limiter n win h c w))"
    using repliesD [OF assms, of c]
    by (simp add: rate_limit_middleware_def answered_fail_msg split: sum.split prod.split)
qed

lemma answered_identity: "replied (set_identity i c) c' \<Longrightarrow> replied c c'"
  by (simp add: replied_def set_identity_def set_key_def get_trace_id_def)

lemma auth_middleware_answers:
  assumes "replies h"
  shows "replies (auth_middleware auth h)"
proof (rule repliesI)
  fix c :: gin and w
  have "replied c (fst (h (set_identity i c) w'))" for i w'
    using repliesD [OF assms] by (rule answered_identity)
  then show "replied c (fst (auth_middleware auth h c w))"
    by (simp add: auth_middleware_def answered_fail_msg answered_fail split: sum.split prod.split)
qed

text \<open>A context with more headers, the trace id aside, is replied alike.\<close>

definition same_outside :: "gin \<Rightarrow> gin \<Rightarrow> bool" where
  "same_outside c c' \<longleftrightarrow>
     gx_sent c' = gx_sent c \<and> gx_trace c' = gx_trace c \<and> gx_request c' = gx_request c \<and> gx_log c' = gx_log c \<and>
     map_of (gx_header c') trace_header_key = map_of (gx_header c) trace_header_key"

lemma same_outside_headers:
  "same_outside c c" "k \<noteq> trace_header_key \<Longrightarrow> same_outside c c' \<Longrightarrow> same_outside c (set_header k v c')"
  "k \<noteq> trace_header_key \<Longrightarrow> same_outside c c' \<Longrightarrow> same_outside c (add_header k v c')"
  by (simp_all add: same_outside_def set_header_def add_header_def map_of_update_iff map_add_def split: option.split)

lemma answered_outside: "same_outside c c' \<Longrightarrow> replied c' c'' \<Longrightarrow> replied c c''"
  by (simp add: same_outside_def replied_def get_trace_id_def)

lemma cors_cases:
  obtains c0 where "same_outside c c0" "gx_errors c0 = gx_errors c"
    "cors_middleware os h c w \<in> {(web_fail_msg 403 (WebMsg M_origin_untrusted) c0, w),
      (send_answer (StatusOnly 204) c0, w), h c0 w}"
proof -
  have key: "''Vary'' \<noteq> trace_header_key" "''Access-Control-Expose-Headers'' \<noteq> trace_header_key"
    "''Access-Control-Allow-Credentials'' \<noteq> trace_header_key" "''Access-Control-Allow-Origin'' \<noteq> trace_header_key"
    "''Access-Control-Max-Age'' \<noteq> trace_header_key" "''Access-Control-Allow-Headers'' \<noteq> trace_header_key"
    "''Access-Control-Allow-Methods'' \<noteq> trace_header_key"
    by (simp_all add: trace_header_key_def)
  let ?origin = "rq_header (gx_request c) ''Origin''"
  let ?c0 = "add_header ''Vary'' ''Origin'' c"
  let ?c1 = "set_header ''Access-Control-Expose-Headers'' ''X-Trace-ID''
      (set_header ''Access-Control-Allow-Credentials'' ''true'' (set_header ''Access-Control-Allow-Origin'' ?origin ?c0))"
  let ?c2 = "set_header ''Access-Control-Max-Age'' ''600''
      (set_header ''Access-Control-Allow-Headers'' ''Content-Type, Authorization, X-CSRF-Token, X-Trace-ID''
        (set_header ''Access-Control-Allow-Methods'' ''GET, POST, PUT, PATCH, DELETE, OPTIONS'' ?c1))"
  have o: "same_outside c ?c0" "same_outside c ?c1" "same_outside c ?c2"
    by (intro same_outside_headers key)+
  have e: "gx_errors ?c0 = gx_errors c" "gx_errors ?c1 = gx_errors c" "gx_errors ?c2 = gx_errors c"
    by (simp_all add: set_header_def add_header_def)
  have "cors_middleware os h c w \<in> {(web_fail_msg 403 (WebMsg M_origin_untrusted) ?c0, w),
      (send_answer (StatusOnly 204) ?c2, w), h ?c0 w, h ?c1 w}"
    by (simp add: cors_middleware_def Let_def)
  then show thesis
  proof (elim insertE emptyE)
    assume "cors_middleware os h c w = (web_fail_msg 403 (WebMsg M_origin_untrusted) ?c0, w)"
    with that [OF o(1) e(1)] show thesis by simp
  next
    assume "cors_middleware os h c w = (send_answer (StatusOnly 204) ?c2, w)"
    with that [OF o(3) e(3)] show thesis by simp
  next
    assume "cors_middleware os h c w = h ?c0 w"
    with that [OF o(1) e(1)] show thesis by simp
  next
    assume "cors_middleware os h c w = h ?c1 w"
    with that [OF o(2) e(2)] show thesis by simp
  qed
qed

lemma answered_no_content: "replied c (send_answer (StatusOnly 204) c)"
  by (simp add: replied_def send_answer_def)

lemma cors_answers:
  assumes "replies h"
  shows "replies (cors_middleware os h)"
proof (rule repliesI)
  fix c :: gin and w
  obtain c0 where "same_outside c c0" and run: "cors_middleware os h c w \<in>
      {(web_fail_msg 403 (WebMsg M_origin_untrusted) c0, w), (send_answer (StatusOnly 204) c0, w), h c0 w}"
    by (rule cors_cases)
  note o = answered_outside [OF this(1)]
  show "replied c (fst (cors_middleware os h c w))"
    using run o [OF answered_fail_msg] o [OF answered_no_content] o [OF repliesD [OF assms]]
    by (elim insertE emptyE) simp_all
qed

text \<open>What holds of every handler of a list of routes, with the middleware of its groups.\<close>

definition every_route :: "('w step \<Rightarrow> bool) \<Rightarrow> 'w route list \<Rightarrow> bool" where
  "every_route P rs \<longleftrightarrow> list_all (\<lambda>(m, p, h). P h) rs"

lemma chain_simps [simp]: "chain [] h = h" "chain (m # ms) h = m (chain ms h)"
  by (simp_all add: chain_def)

lemma every_route_simps [simp]:
  "every_route P []" "every_route P ((m, p, h) # rs) \<longleftrightarrow> P h \<and> every_route P rs"
  "every_route P (rs @ rs') \<longleftrightarrow> every_route P rs \<and> every_route P rs'"
  "every_route P (route_group prefix ms rs) \<longleftrightarrow> every_route (\<lambda>h. P (chain ms h)) rs"
  by (auto simp: every_route_def route_group_def list_all_iff split_beta)

lemma find_SomeD: "find Q xs = Some x \<Longrightarrow> x \<in> set xs \<and> Q x"
  by (induction xs) (auto split: if_splits)

lemma every_route_find:
  "every_route P rs \<Longrightarrow> find Q rs = Some (m, p, h) \<Longrightarrow> P h"
  by (auto simp: every_route_def list_all_iff dest!: find_SomeD)

lemma routes_answer: "every_route replies (register_v1_routes H (rate_limit_middleware limiter n win))"
  by (simp add: register_v1_routes_def auth_routes_def protected_routes_def auth_handlers_answer session_handlers_answer
      panel_handlers_answer agent_ws_answers rate_limit_answers auth_middleware_answers)

lemma route_step_answers:
  assumes "every_route replies rs"
  shows "replies (route_step rs)"
proof (rule repliesI)
  fix c :: gin and w
  show "replied c (fst (route_step rs c w))"
    using repliesD [OF every_route_find [OF assms]]
    by (auto simp: route_step_def route_missing_def answered_other split: option.split)
qed
section \<open>The application\<close>

definition access_entry :: "gin_request \<Rightarrow> web_answer \<Rightarrow> access_log" where
  "access_entry rq a =
     \<lparr>al_level = access_level (web_status a), al_status = web_status a, al_client_ip = rq_client_ip rq,
      al_method = rq_method rq, al_path = rq_path rq, al_query = rq_raw_query rq\<rparr>"

definition uniform_reply :: "gin_request \<Rightarrow> gin \<Rightarrow> bool" where
  "uniform_reply rq c \<longleftrightarrow>
     (\<exists>a t. gx_sent c = [a] \<and> answer_ok t a \<and> map_of (gx_header c) trace_header_key = Some t \<and>
        (rq_header rq trace_header_key = [] \<or> t = rq_header rq trace_header_key) \<and> gx_log c = [access_entry rq a])"

text \<open>What the application runs for a request: the steps inside \<open>Trace\<close> and \<open>Logger\<close> begin with the context they set up.\<close>

definition traced :: "string \<Rightarrow> gin_request \<Rightarrow> gin" where
  "traced t rq = set_header trace_header_key t (with_trace_id t (new_gin rq))"

lemma app_steps:
  "\<exists>t w1. app X Y cfg d rq w =
     logger_middleware (cors_middleware (ac_allowed_origins cfg)
       (route_step (register_v1_routes (app_handlers X Y cfg d)
         (rate_limit_middleware (allow (ex_redis X) (ex_runtime X)) 100 (seconds 1))))) (traced t rq) w1 \<and>
     (if rq_header rq trace_header_key = [] then rt_uuid (ex_runtime X) w = (t, w1)
      else t = rq_header rq trace_header_key \<and> w1 = w)"
  by (simp add: app_def init_router_steps trace_middleware_def traced_def new_gin_def Let_def split: prod.split)

lemma logged_reply:
  assumes "replies h" and "gx_sent c = []" and "gx_log c = []"
    and "logger_middleware h c w = (c', w')"
  shows "\<exists>a. gx_sent c' = [a] \<and> answer_ok (get_trace_id c) a \<and> gx_log c' = [access_entry (gx_request c) a] \<and>
    map_of (gx_header c') trace_header_key = map_of (gx_header c) trace_header_key"
proof -
  obtain c1 w1 where h: "h c w = (c1, w1)" by fastforce
  with repliesD [OF assms(1), of c w] obtain a where
    "gx_sent c1 = [a]" "answer_ok (get_trace_id c) a" "gx_log c1 = []" "gx_request c1 = gx_request c"
    "map_of (gx_header c1) trace_header_key = map_of (gx_header c) trace_header_key"
    using assms(2,3) by (auto simp: replied_def)
  with assms(4) h show ?thesis
    by (auto simp: logger_middleware_def Let_def access_entry_def response_status_def)
qed

section \<open>Steps that may panic\<close>

text \<open>They reply once, or panic before they have replied, and do not write to the log themselves.\<close>

definition replies_or_panics :: "'w panicking \<Rightarrow> bool" where
  "replies_or_panics h \<longleftrightarrow>
     (\<forall>c w. case h c (w, None) of (c', w', p) \<Rightarrow>
        gx_errors c' = gx_errors c \<and> (case p of None \<Rightarrow> replied c c' | Some v \<Rightarrow> same_outside c c'))"

lemma same_outside_trans: "same_outside c c' \<Longrightarrow> same_outside c' c'' \<Longrightarrow> same_outside c c''"
  by (simp add: same_outside_def)

lemma same_outside_errors: "same_outside c (c'\<lparr>gx_errors := es\<rparr>) = same_outside c c'"
  by (simp add: same_outside_def)

lemma answer_errors: "gx_errors (web_fail_msg code m c) = gx_errors c" "gx_errors (send_answer a c) = gx_errors c"
  by (simp_all add: contexts)

lemma panics_cases:
  assumes "replies_or_panics h" and "h c (w, None) = (c', w', p)"
  shows "gx_errors c' = gx_errors c" and "p = None \<Longrightarrow> replied c c'" and "p = Some v \<Longrightarrow> same_outside c c'"
  using spec [OF spec [OF assms(1) [unfolded replies_or_panics_def], of c], of w] assms(2) by auto

lemma cors_may_panic:
  assumes "replies_or_panics h"
  shows "replies_or_panics (cors_middleware os h)"
  unfolding replies_or_panics_def
proof (intro allI)
  fix c :: gin and w
  obtain c0 where o: "same_outside c c0" and e: "gx_errors c0 = gx_errors c" and
    run: "cors_middleware os h c (w, None) \<in> {(web_fail_msg 403 (WebMsg M_origin_untrusted) c0, w, None),
      (send_answer (StatusOnly 204) c0, w, None), h c0 (w, None)}"
    by (rule cors_cases)
  obtain c2 w2 p where h: "h c0 (w, None) = (c2, w2, p)" by (metis prod_cases3)
  note cases = panics_cases [OF assms h]
  have "gx_errors c2 = gx_errors c \<and> (case p of None \<Rightarrow> replied c c2 | Some v \<Rightarrow> same_outside c c2)"
    using cases e answered_outside [OF o] same_outside_trans [OF o] by (cases p) auto
  with h show "case cors_middleware os h c (w, None) of (c', w', p) \<Rightarrow>
      gx_errors c' = gx_errors c \<and> (case p of None \<Rightarrow> replied c c' | Some v \<Rightarrow> same_outside c c')"
    using run e answered_outside [OF o answered_fail_msg] answered_outside [OF o answered_no_content]
    by (elim insertE emptyE) (simp_all add: answer_errors)
qed

lemma recovery_cases:
  assumes "h c (w, None) = (c', w', p)"
  shows "p = None \<Longrightarrow> recovery_middleware h c w = (c', w')"
    and "p = Some v \<Longrightarrow> recovery_middleware h c w =
      (web_fail_msg 500 (SysMsg M_internal_error)
         (c'\<lparr>gx_errors := gx_errors c' @ [panic_entry (get_trace_id c') v]\<rparr>), w')"
  using assms by (simp_all add: recovery_middleware_def)

lemma recovery_replies:
  assumes "replies_or_panics h"
  shows "replies (recovery_middleware h)"
proof (rule repliesI)
  fix c :: gin and w
  obtain c1 w1 p where h: "h c (w, None) = (c1, w1, p)" by (metis prod_cases3)
  note cases = panics_cases [OF assms h] and rec = recovery_cases [where h = h, OF h]
  show "replied c (fst (recovery_middleware h c w))"
  proof (cases p)
    case None
    then show ?thesis using cases(2) rec(1) by simp
  next
    case (Some v)
    with cases(3) have "same_outside c (c1\<lparr>gx_errors := es\<rparr>)" for es by (simp add: same_outside_errors)
    from answered_outside [OF this answered_fail_msg] show ?thesis by (simp add: rec(2) [OF Some])
  qed
qed

lemma recovery_logs:
  assumes "replies_or_panics h" and "recovery_middleware h c w = (c1, w')"
  shows "gx_errors c1 = gx_errors c \<or>
    (\<exists>t v. gx_errors c1 = gx_errors c @ [panic_entry t v] \<and>
       gx_sent c1 = gx_sent c @ [Body (fail_with_msg t 500 (SysMsg M_internal_error))])"
proof -
  obtain c2 w2 p where h: "h c (w, None) = (c2, w2, p)" by (metis prod_cases3)
  note cases = panics_cases [OF assms(1) h] and rec = recovery_cases [where h = h, OF h, unfolded assms(2)]
  show ?thesis
  proof (cases p)
    case None
    with rec(1) cases(1) show ?thesis by simp
  next
    case (Some v)
    then have "gx_sent c2 = gx_sent c" using cases(3) by (simp add: same_outside_def)
    then show ?thesis
      using rec(2) [OF Some] cases(1)
      by (intro disjI2 exI [of _ "get_trace_id c2"] exI [of _ v]) (simp add: contexts get_trace_id_def)
  qed
qed

section \<open>Properties\<close>



definition one_clock :: "unit runtime" where
  "one_clock = \<lparr>rt_now = (\<lambda>w. (0, w)), rt_uuid = (\<lambda>w. (''u'', w))\<rparr>"

definition panic_request :: gin_request where
  "panic_request = \<lparr>rq_method = ''GET'', rq_path = ''/'', rq_raw_query = [], rq_route = None, rq_id = [], rq_header = (\<lambda>k. []),
     rq_cookie = (\<lambda>k. Inl (LibError ''http: named cookie not present'')), rq_client_ip = [], rq_body = []\<rparr>"

definition panicking_route :: "unit panicking" where
  "panicking_route c w = (c, (), Some (''nil'', ''main.go''))"


end
