(* ===== verification/WebSafety.thy ===== *)
theory WebSafety
  imports WebAnswers AuthSession PasswordReset Login
begin

text \<open>
  What a request to the application may do to the data of the panel: the accounts' routes leave it alone, and the
  others change it only for the user whose token they bring.
\<close>

section \<open>The world of the application\<close>

text \<open>
  The stores of the authentication service and of the panel are one database \<open>D\<close>; Redis is \<open>V\<close>, the agent hub \<open>H\<close>.
  The captcha library, the SMS provider and \<open>crypto/rand\<close> do not touch the database.
\<close>

definition app_world ::
    "server_config \<Rightarrow> ('w, 'h) externals \<Rightarrow> ('w, 'h) panel \<Rightarrow> ('w \<Rightarrow> rstore) \<Rightarrow> ('w \<Rightarrow> database) \<Rightarrow> ('w \<Rightarrow> hub) \<Rightarrow>
      (string \<Rightarrow> string \<Rightarrow> custom_claims option) \<Rightarrow> (string \<Rightarrow> string \<Rightarrow> registered_claims option) \<Rightarrow> int \<Rightarrow> bool"
where
  "app_world q X Y V D H cust regd d \<longleftrightarrow>
     auth_world q X V D cust regd d \<and> panel_law q Y D H \<and>
     (\<forall>save. (\<forall>i v. leaves D (save i v)) \<longrightarrow> leaves D (ex_captcha_lib X save)) \<and>
     (\<forall>phone code. leaves D (sm_send_sms (ex_sms_client X) phone code)) \<and> (\<forall>n. leaves D (ex_rand_int X n))"

lemma app_worldD:
  assumes "app_world q X Y V D H cust regd d"
  shows "auth_world q X V D cust regd d" and "panel_law q Y D H"
    and "(\<And>i v. leaves D (save i v)) \<Longrightarrow> leaves D (ex_captcha_lib X save)"
    and "leaves D (sm_send_sms (ex_sms_client X) phone code)" and "leaves D (ex_rand_int X n)"
  using assms by (simp_all add: app_world_def)

definition panel_tables :: "database \<Rightarrow> server table \<times> dst table \<times> task table" where
  "panel_tables d = (db_servers d, db_dsts d, db_tasks d)"

lemma leaves_effect [leaves_intros]:
  "(\<And>w. V (snd (f w)) = V w) \<Longrightarrow> (\<And>a. leaves V (k a)) \<Longrightarrow> leaves V (effect f k)"
  by (simp add: leaves_def effect_def split_beta)

lemma leaves_tables: "leaves D f \<Longrightarrow> leaves (\<lambda>w. panel_tables (D w)) f"
  by (simp add: leaves_def)

section \<open>Redis, tokens and the users leave the panel alone\<close>

lemma redis_calls_leave:
  assumes "redis_leaves R D"
  shows "leaves D (rd_run R body)" and "leaves D (rd_set R k v ttl)" and "leaves D (rd_get R k)" and "leaves D (rd_getdel R k)"
    and "leaves D (rd_del R k)" and "leaves D (rd_exists R k)" and "leaves D (rd_setnx R k v ttl)"
  using assms by (simp_all add: redis_leaves_def)

lemma runtime_leaves:
  assumes "auth_world q X V D cust regd d"
  shows "D (snd (rt_now (ex_runtime X) w)) = D w" and "D (snd (rt_uuid (ex_runtime X) w)) = D w"
    and "V (snd (rt_now (ex_runtime X) w)) = V w" and "V (snd (rt_uuid (ex_runtime X) w)) = V w"
  using runtime_views [OF assms prod.collapse [symmetric], of w] by simp_all

lemma clock_leaves:
  assumes "auth_world q X V D cust regd d"
  shows "D (snd (unix_milli (ex_runtime X) w)) = D w" and "D (snd (time_until (ex_runtime X) t w)) = D w"
  using runtime_leaves [OF assms, of w] by (simp_all add: unix_milli_def time_until_def split_beta)

lemma allow_leaves:
  assumes "auth_world q X V D cust regd d"
  shows "leaves D (allow (ex_redis X) (ex_runtime X) key n win)"
  unfolding allow_def
  by (intro leaves_intros clock_leaves [OF assms] runtime_leaves [OF assms]
      redis_calls_leave [OF auth_worldD(2) [OF assms]])

lemma quota_leaves:
  assumes "auth_world q X V D cust regd d"
  shows "leaves D (reserve (ex_redis X) (ex_runtime X) ip phone p)" and "leaves D (release (ex_redis X) rv)"
    and "leaves D (set_code (ex_redis X) phone code ttl)"
  unfolding reserve_def release_def set_code_def
  by (intro leaves_intros runtime_leaves [OF assms] redis_calls_leave [OF auth_worldD(2) [OF assms]])+

lemma cache_leaves:
  assumes "auth_world q X V D cust regd d"
  shows "leaves D (set_reset_token (ex_redis X) token uid v ttl)" and "leaves D (is_token_in_blacklist (ex_redis X) token)"
  unfolding set_reset_token_def is_token_in_blacklist_def
  by (intro leaves_intros redis_calls_leave [OF auth_worldD(2) [OF assms]])+

lemma jwt_leaves:
  assumes "auth_world q X V D cust regd d"
  shows "leaves D (parse_token (ex_jwt X) cfg token b)"
    and "leaves D (generate_access_token (ex_jwt X) (ex_runtime X) cfg uid name role v)"
    and "leaves D (generate_refresh_token (ex_jwt X) (ex_runtime X) cfg uid name role v)"
    and "leaves D (hash_password (ex_bcrypt X) cost p)"
proof -
  show "leaves D (parse_token (ex_jwt X) cfg token b)"
    using parse_views(2) [OF assms prod.collapse [symmetric]] by (simp add: leaves_def)
  show "leaves D (generate_access_token (ex_jwt X) (ex_runtime X) cfg uid name role v)"
    "leaves D (generate_refresh_token (ex_jwt X) (ex_runtime X) cfg uid name role v)"
    using generate_views(2) [OF assms prod.collapse [symmetric]]
    by (simp_all add: leaves_def generate_access_token_def generate_refresh_token_def)
  have "leaves (\<lambda>w. (V w, D w)) (bl_generate (ex_bcrypt X) p' c)" for p' c by (rule auth_worldD(6) [OF assms])
  then have "leaves D (bl_generate (ex_bcrypt X) p' c)" for p' c by (simp add: leaves_def)
  then show "leaves D (hash_password (ex_bcrypt X) cost p)"
    by (simp add: hash_password_def)
qed

lemma users_leave:
  assumes "model_law q users M D V"
  shows "leaves (\<lambda>w. panel_tables (D w)) (user_create M db ctx u)"
    and "leaves (\<lambda>w. panel_tables (D w)) (user_get_by_id M db ctx uid)"
    and "leaves (\<lambda>w. panel_tables (D w)) (user_get_by_username M db ctx name)"
    and "leaves (\<lambda>w. panel_tables (D w)) (user_get_by_phone M db ctx phone)"
    and "leaves (\<lambda>w. panel_tables (D w)) (user_update_password M db ctx uid hash v)"
proof -
  have leave: "leaves (\<lambda>w. panel_tables (D w)) f"
    if "statement D V c f" and "\<And>d. panel_tables (snd (c d)) = panel_tables d" for f :: "('a, 'x) go" and c
    unfolding leaves_def
  proof
    fix w
    show "panel_tables (D (snd (f w))) = panel_tables (D w)"
      by (rule statement_cases [OF that(1) prod.collapse [of "f w", symmetric]])
        (use that(2) [of "D w"] in \<open>auto dest: arg_cong [of _ _ snd]\<close>)
  qed
  note law = model_lawD [OF assms]
  have first: "leaves (\<lambda>w. panel_tables (D w)) (gm_first M h cs)" for h cs
    by (rule leave [OF law(2)]) (simp add: stmt_first_def split: list.split)
  show "leaves (\<lambda>w. panel_tables (D w)) (user_create M db ctx u)"
    unfolding user_create_def
    by (rule leave [OF law(1)]) (simp add: stmt_create_def Let_def panel_tables_def)
  show id: "leaves (\<lambda>w. panel_tables (D w)) (user_get_by_id M db ctx uid)" for uid
    unfolding user_get_by_id_def first_or_nil_def by (intro leaves_intros first)
  show "leaves (\<lambda>w. panel_tables (D w)) (user_get_by_username M db ctx name)"
    unfolding user_get_by_username_def first_or_nil_def by (intro leaves_intros first)
  show "leaves (\<lambda>w. panel_tables (D w)) (user_get_by_phone M db ctx phone)"
    unfolding user_get_by_phone_def first_or_nil_def by (intro leaves_intros first)
  have "leaves (\<lambda>w. panel_tables (D w)) (gm_updates M h cs ups)" for h cs ups
    by (rule leave [OF law(5)]) (simp add: stmt_updates_def Let_def put_rows_def panel_tables_def)
  then show "leaves (\<lambda>w. panel_tables (D w)) (user_update_password M db ctx uid hash v)"
    unfolding user_update_password_def by (intro leaves_intros id)
qed

section \<open>The operations on accounts\<close>

lemma sms_service_simps [simp]:
  "ss_send_code (ap_sms (new_auth_service X cfg ce)) =
     send_code (new_captcha (ex_redis X) (ex_captcha_lib X) ce) (new_sms_cache (ex_redis X)) (ex_sms_client X)
       (new_sms_limit (ex_redis X) (ex_runtime X)) (ex_rand_int X)"
  "cs_generate_captcha (ap_captcha (new_auth_service X cfg ce)) =
     svc_generate_captcha (new_captcha (ex_redis X) (ex_captcha_lib X) ce)"
  by (simp_all add: new_auth_service_def Let_def new_sms_service_def new_captcha_service_def)

text \<open>Everything the accounts' operations are made of leaves the panel's tables.\<close>

lemma parts_leave:
  assumes "app_world q X Y V D H cust regd d"
  shows "leaves (\<lambda>w. panel_tables (D w)) (allow (ex_redis X) (ex_runtime X) key n win)"
    and "leaves (\<lambda>w. panel_tables (D w)) (verify_code (new_sms_cache (ex_redis X)) phone code)"
    and "leaves (\<lambda>w. panel_tables (D w)) (captcha_verify (ex_redis X) i answer clear)"
    and "leaves (\<lambda>w. panel_tables (D w)) (is_token_in_blacklist (ex_redis X) token)"
    and "leaves (\<lambda>w. panel_tables (D w)) (add_token_to_blacklist (ex_redis X) token ttl)"
    and "leaves (\<lambda>w. panel_tables (D w)) (consume_refresh_token (ex_redis X) token ttl)"
    and "leaves (\<lambda>w. panel_tables (D w)) (set_reset_token (ex_redis X) token uid v ttl)"
    and "leaves (\<lambda>w. panel_tables (D w)) (get_reset_token (ex_redis X) token)"
    and "leaves (\<lambda>w. panel_tables (D w)) (del_reset_token (ex_redis X) token)"
    and "leaves (\<lambda>w. panel_tables (D w)) (parse_token (ex_jwt X) cfg token b)"
    and "leaves (\<lambda>w. panel_tables (D w)) (generate_access_token (ex_jwt X) (ex_runtime X) cfg uid name role v)"
    and "leaves (\<lambda>w. panel_tables (D w)) (generate_refresh_token (ex_jwt X) (ex_runtime X) cfg uid name role v)"
    and "leaves (\<lambda>w. panel_tables (D w)) (hash_password (ex_bcrypt X) cost p)"
    and "panel_tables (D (snd (time_until (ex_runtime X) t w))) = panel_tables (D w)"
    and "panel_tables (D (snd (rt_uuid (ex_runtime X) w))) = panel_tables (D w)"
  by (simp_all add: leaves_tables
      allow_leaves [OF app_worldD(1) [OF assms]]
      verify_leaves [OF auth_worldD(2) [OF app_worldD(1) [OF assms]]]
      captcha_leaves [OF auth_worldD(2) [OF app_worldD(1) [OF assms]]]
      cache_leaves [OF app_worldD(1) [OF assms]]
      add_token_leaves [OF auth_worldD(2) [OF app_worldD(1) [OF assms]]]
      consume_leaves [OF auth_worldD(2) [OF app_worldD(1) [OF assms]]]
      get_reset_leaves [OF auth_worldD(2) [OF app_worldD(1) [OF assms]]]
      del_reset_leaves [OF auth_worldD(2) [OF app_worldD(1) [OF assms]]]
      jwt_leaves [OF app_worldD(1) [OF assms]]
      clock_leaves(2) [OF app_worldD(1) [OF assms]]
      runtime_leaves(2) [OF app_worldD(1) [OF assms]])

lemmas user_calls_leave = users_leave [OF auth_worldD(3) [OF app_worldD(1)]]

lemma accounts_leave:
  assumes "app_world q X Y V D H cust regd d"
  shows "leaves (\<lambda>w. panel_tables (D w)) (authenticate (new_auth_service X cfg ce) ctx token)"
    and "leaves (\<lambda>w. panel_tables (D w)) (register_user (new_auth_service X cfg ce) ctx r)"
    and "leaves (\<lambda>w. panel_tables (D w)) (login (new_auth_service X cfg ce) ctx l)"
    and "leaves (\<lambda>w. panel_tables (D w)) (login_by_sms (new_auth_service X cfg ce) ctx ls)"
    and "leaves (\<lambda>w. panel_tables (D w)) (refresh_token (new_auth_service X cfg ce) ctx token)"
    and "leaves (\<lambda>w. panel_tables (D w)) (revoke_token (new_auth_service X cfg ce) token b)"
    and "leaves (\<lambda>w. panel_tables (D w)) (verify_reset_code (new_auth_service X cfg ce) ctx v)"
    and "leaves (\<lambda>w. panel_tables (D w)) (reset_password (new_auth_service X cfg ce) ctx rp)"
    and "leaves (\<lambda>w. panel_tables (D w)) (get_profile (new_auth_service X cfg ce) ctx uid)"
  unfolding authenticate_def register_user_def login_def login_by_sms_def refresh_token_def revoke_token_def
    verify_reset_code_def reset_password_def get_profile_def issue_tokens_def new_auth_service_simps
  by (intro leaves_intros parts_leave [OF assms] user_calls_leave [OF assms])+

lemma logout_leaves:
  assumes "app_world q X Y V D H cust regd d"
  shows "leaves (\<lambda>w. panel_tables (D w)) (logout (new_auth_service X cfg ce) access refresh)"
  unfolding logout_def by (intro leaves_intros accounts_leave(6) [OF assms])

lemma send_sms_leaves:
  assumes "app_world q X Y V D H cust regd d"
  shows "leaves (\<lambda>w. panel_tables (D w)) (auth_send_sms_code (new_auth_service X cfg ce) ip req)"
proof -
  note world = app_worldD(1) [OF assms]
  have "leaves D (auth_send_sms_code (new_auth_service X cfg ce) ip req)"
    unfolding auth_send_sms_code_def sms_service_simps send_code_def Let_def
    by (intro leaves_intros)
      (simp_all add: new_captcha_def new_sms_limit_def new_sms_cache_def quota_leaves [OF world] app_worldD [OF assms]
        captcha_leaves [OF auth_worldD(2) [OF world]])
  then show ?thesis by (rule leaves_tables)
qed

lemma generate_captcha_leaves:
  assumes "app_world q X Y V D H cust regd d"
  shows "leaves (\<lambda>w. panel_tables (D w)) (auth_generate_captcha (new_auth_service X cfg ce))"
proof -
  have "leaves D (store_set (ex_redis X) p ce i v)" for p i v
    by (simp add: store_set_def redis_calls_leave [OF auth_worldD(2) [OF app_worldD(1) [OF assms]]])
  then have "leaves D (captcha_generate (ex_redis X) (ex_captcha_lib X) ce)"
    unfolding captcha_generate_def by (intro leaves_intros app_worldD(3) [OF assms])
  then have "leaves D (auth_generate_captcha (new_auth_service X cfg ce))"
    unfolding auth_generate_captcha_def sms_service_simps svc_generate_captcha_def
    by (intro leaves_intros) (simp add: new_captcha_def)
  then show ?thesis by (rule leaves_tables)
qed

section \<open>The handlers\<close>

definition tables_kept :: "('w \<Rightarrow> database) \<Rightarrow> 'w step \<Rightarrow> bool" where
  "tables_kept D h \<longleftrightarrow> (\<forall>c w. panel_tables (D (snd (h c w))) = panel_tables (D w))"

lemma kept_respond:
  "leaves (\<lambda>w. panel_tables (D w)) m \<Longrightarrow> panel_tables (D (snd (respond m k c w))) = panel_tables (D w)"
  by (auto simp: respond_def split: prod.split sum.split dest: leavesD)

lemma kept_bound:
  "(\<And>a. panel_tables (D (snd (k a c w))) = panel_tables (D w)) \<Longrightarrow>
   panel_tables (D (snd (with_request r m k c w))) = panel_tables (D w)"
  by (simp add: with_request_def split: sum.split)

lemma new_auth_handler_simps [simp]: "ah_service (new_auth_handler s t b dec) = s"
  by (simp add: new_auth_handler_def)

lemma account_handlers_keep:
  fixes dec :: decoders and ex ce :: int and b :: bool and cfg :: jwt_config
  assumes "app_world q X Y V D H cust regd d"
  defines "h \<equiv> new_auth_handler (new_auth_service X cfg ce) ex b dec"
  shows "tables_kept D (http_get_captcha h)" and "tables_kept D (http_send_sms_code h)"
    and "tables_kept D (http_register h)" and "tables_kept D (http_login h)" and "tables_kept D (http_login_by_sms h)"
    and "tables_kept D (http_refresh_token h)" and "tables_kept D (http_logout h)"
    and "tables_kept D (http_verify_reset_code h)" and "tables_kept D (http_reset_password h)"
    and "tables_kept D (http_get_profile h)"
  unfolding tables_kept_def
  by (simp_all add: auth_handlers h_def Let_def kept_bound kept_respond accounts_leave [OF assms(1)]
      logout_leaves [OF assms(1)] send_sms_leaves [OF assms(1)] generate_captcha_leaves [OF assms(1)]
      split: sum.split option.split key_value.split)

lemma agent_ws_keeps:
  assumes "app_world q X Y V D H cust regd d"
  shows "tables_kept D (http_agent_ws (new_agent_auth X Y cfg))"
proof -
  note world = app_worldD(1) [OF assms]
  have parse: "D w' = D w" if "parse_agent_token (ex_jwt X) cfg token w = (r, w')" for token w r w'
    using parse_agent_token_reply [OF auth_worldD(4) [OF world] that] by simp
  have exists: "D w' = D w" if "server_exists_by_id (pe_servers Y) (pe_db Y) None sid w = (r, w')" for sid w r w'
    using server_exists_reply [OF panel_lawD(1) [OF app_worldD(2) [OF assms]] that] by simp
  have "leaves D (agent_authenticate (new_agent_auth X Y cfg) token)" for token
    unfolding agent_authenticate_def check_server_def new_agent_auth_def
    by (intro leaves_intros) (auto simp: leaves_def intro: parse exists prod.collapse [symmetric])
  from leavesD [OF this] have "D w' = D w" if "agent_authenticate (new_agent_auth X Y cfg) token w = (r, w')" for token w r w'
    using that .
  then show ?thesis
    unfolding tables_kept_def http_agent_ws_def by (auto split: sum.split prod.split)
qed

text \<open>What the panel's handlers do for the user whose id the context holds.\<close>

definition changes_for :: "u64 \<Rightarrow> ('w \<Rightarrow> database) \<Rightarrow> 'w step \<Rightarrow> bool" where
  "changes_for uid D h \<longleftrightarrow>
     (\<forall>c w. map_of (gx_keys c) ''userID'' = Some (KUint uid) \<longrightarrow> change uid (D w) (D (snd (h c w))))"

lemma changes_user:
  "(\<And>c w. change uid (D w) (D (snd (k uid c w)))) \<Longrightarrow> changes_for uid D (with_user_id k)"
  by (simp add: changes_for_def with_user_id_def change_none)

lemma changes_path_id:
  "(\<And>i. change uid (D w) (D (snd (k i c w)))) \<Longrightarrow> change uid (D w) (D (snd (with_path_id m k c w)))"
  by (simp add: with_path_id_def change_none split: sum.split)

lemma changes_bound:
  "(\<And>a. change uid (D w) (D (snd (k a c w)))) \<Longrightarrow> change uid (D w) (D (snd (with_request r m k c w)))"
  by (simp add: with_request_def change_none split: sum.split)

lemma changes_respond:
  "change uid (D w) (D (snd (m w))) \<Longrightarrow> change uid (D w) (D (snd (respond m k c w)))"
  by (simp add: respond_def split_beta split: sum.split)

lemma as_answer_snd [simp]: "snd (as_answer f m w) = snd (m w)"
  by (simp add: as_answer_def call_def ret_def fail_def split: prod.split sum.split)

lemma services_change:
  assumes "panel_law q Y D H"
  shows "change uid (D w) (D (snd (svc_create_server (server_service Y) None uid cs w)))"
    and "change uid (D w) (D (snd (svc_get_server (server_service Y) None uid i w)))"
    and "change uid (D w) (D (snd (svc_list_servers (server_service Y) None uid ls w)))"
    and "change uid (D w) (D (snd (svc_update_server (server_service Y) None uid i us w)))"
    and "change uid (D w) (D (snd (svc_delete_server (server_service Y) None uid i w)))"
    and "change uid (D w) (D (snd (svc_create_dst (dst_service Y) None uid cd w)))"
    and "change uid (D w) (D (snd (svc_get_dst (dst_service Y) None uid i w)))"
    and "change uid (D w) (D (snd (svc_list_dsts (dst_service Y) None uid ld w)))"
    and "change uid (D w) (D (snd (svc_update_dst (dst_service Y) None uid i ud w)))"
    and "change uid (D w) (D (snd (svc_delete_dst (dst_service Y) None uid i w)))"
    and "change uid (D w) (D (snd (svc_get_task (task_service Y) None uid i w)))"
    and "change uid (D w) (D (snd (svc_list_tasks (task_service Y) None uid lt w)))"
proof -
  have step: "change uid (D w) (D (snd (panel_op_step Y uid x w)))" for x
    by (rule step_changes [OF assms prod.collapse [symmetric]])
  show "change uid (D w) (D (snd (svc_create_server (server_service Y) None uid cs w)))"
    using step [of "CreateServer cs"] by simp
  show "change uid (D w) (D (snd (svc_get_server (server_service Y) None uid i w)))" using step [of "GetServer i"] by simp
  show "change uid (D w) (D (snd (svc_list_servers (server_service Y) None uid ls w)))"
    using step [of "ListServers ls"] by simp
  show "change uid (D w) (D (snd (svc_update_server (server_service Y) None uid i us w)))"
    using step [of "UpdateServer i us"] by simp
  show "change uid (D w) (D (snd (svc_delete_server (server_service Y) None uid i w)))"
    using step [of "DeleteServer i"] by simp
  show "change uid (D w) (D (snd (svc_create_dst (dst_service Y) None uid cd w)))" using step [of "CreateDst cd"] by simp
  show "change uid (D w) (D (snd (svc_get_dst (dst_service Y) None uid i w)))" using step [of "GetDst i"] by simp
  show "change uid (D w) (D (snd (svc_list_dsts (dst_service Y) None uid ld w)))" using step [of "ListDsts ld"] by simp
  show "change uid (D w) (D (snd (svc_update_dst (dst_service Y) None uid i ud w)))"
    using step [of "UpdateDst i ud"] by simp
  show "change uid (D w) (D (snd (svc_delete_dst (dst_service Y) None uid i w)))" using step [of "DeleteDst i"] by simp
  show "change uid (D w) (D (snd (svc_get_task (task_service Y) None uid i w)))" using step [of "GetTask i"] by simp
  show "change uid (D w) (D (snd (svc_list_tasks (task_service Y) None uid lt w)))"
    using step [of "ListTasks lt"] by simp
qed

lemma panel_handlers_change:
  assumes "panel_law q Y D H"
  shows "changes_for uid D (http_create_server dec (server_service Y))"
    and "changes_for uid D (http_get_server (server_service Y))"
    and "changes_for uid D (http_list_servers dec (server_service Y))"
    and "changes_for uid D (http_update_server dec (server_service Y))"
    and "changes_for uid D (http_delete_server (server_service Y))"
    and "changes_for uid D (http_create_dst dec (dst_service Y))" and "changes_for uid D (http_get_dst (dst_service Y))"
    and "changes_for uid D (http_list_dsts dec (dst_service Y))" and "changes_for uid D (http_update_dst dec (dst_service Y))"
    and "changes_for uid D (http_delete_dst (dst_service Y))"
    and "changes_for uid D (http_list_tasks dec (task_service Y))" and "changes_for uid D (http_get_task (task_service Y))"
  unfolding panel_handlers with_ids
  by (intro changes_user changes_path_id changes_bound changes_respond services_change [OF assms])+

section \<open>The routes\<close>

text \<open>
  A request that a limiter admitted and that brought a token the authentication service's verdict accepts, and what
  it did is a change of that user.
\<close>

definition authorised ::
    "('w, 'h) externals \<Rightarrow> (string \<Rightarrow> string \<Rightarrow> custom_claims option) \<Rightarrow> jwt_config \<Rightarrow> ('w \<Rightarrow> rstore) \<Rightarrow> ('w \<Rightarrow> database) \<Rightarrow>
      gin_request \<Rightarrow> 'w \<Rightarrow> 'w \<Rightarrow> bool"
where
  "authorised X cust cfg V D rq w w' \<longleftrightarrow>
     (\<exists>w1 token i. allow (ex_redis X) (ex_runtime X) global_limit_key 100 (seconds 1) w = (Inr True, w1) \<and> D w1 = D w \<and>
        bearer_credential (rq_header rq ''Authorization'') = Inr token \<and>
        auth_verdict cust cfg (fst (rt_now (ex_runtime X) w1)) (V w1) (D w1) token = Inr i \<and>
        change (id_user_id i) (D w) (D w'))"

definition route_safe ::
    "('w, 'h) externals \<Rightarrow> (string \<Rightarrow> string \<Rightarrow> custom_claims option) \<Rightarrow> jwt_config \<Rightarrow> ('w \<Rightarrow> rstore) \<Rightarrow> ('w \<Rightarrow> database) \<Rightarrow>
      'w step \<Rightarrow> bool"
where
  "route_safe X cust cfg V D h \<longleftrightarrow>
     (\<forall>c w. panel_tables (D (snd (h c w))) = panel_tables (D w) \<or>
        authorised X cust cfg V D (gx_request c) w (snd (h c w)))"

lemma kept_safe: "tables_kept D h \<Longrightarrow> route_safe X cust cfg V D h"
  by (simp add: tables_kept_def route_safe_def)

lemma limited_kept:
  assumes "app_world q X Y V D H cust regd d" and "tables_kept D h"
  shows "tables_kept D (rate_limit_middleware (allow (ex_redis X) (ex_runtime X)) n win h)"
  using assms(2) leavesD [OF parts_leave(1) [OF assms(1)]]
  by (auto simp: tables_kept_def rate_limit_middleware_def split: prod.split sum.split)

lemma guarded_kept:
  assumes "app_world q X Y V D H cust regd d" and "tables_kept D h"
  shows "tables_kept D (auth_middleware (authenticate (new_auth_service X cfg ce) None) h)"
  using assms(2) leavesD [OF accounts_leave(1) [OF assms(1)]]
  by (auto simp: tables_kept_def auth_middleware_def split: prod.split sum.split)

lemma set_identity_id [simp]: "map_of (gx_keys (set_identity i c)) ''userID'' = Some (KUint (id_user_id i))"
  by (simp add: set_identity_def set_key_def map_of_update_iff)

lemma guarded_safe:
  fixes X :: "('w, 'h) externals"
  assumes world: "app_world q X Y V D H cust regd d" and changes: "\<And>uid. changes_for uid D h"
  shows "route_safe X cust cfg V D (rate_limit_middleware (allow (ex_redis X) (ex_runtime X)) 100 (seconds 1)
    (auth_middleware (authenticate (new_auth_service X cfg ce) None) h))"
  unfolding route_safe_def
proof (intro allI)
  fix c :: gin and w
  let ?S = "new_auth_service X cfg ce" and ?h = "rq_header (gx_request c) ''Authorization''"
  let ?mw = "rate_limit_middleware (allow (ex_redis X) (ex_runtime X)) 100 (seconds 1)
    (auth_middleware (authenticate ?S None) h)"
  obtain r1 w1 where lim: "allow (ex_redis X) (ex_runtime X) global_limit_key 100 (seconds 1) w = (r1, w1)" by fastforce
  have d1: "D w1 = D w" by (rule leavesD [OF allow_leaves [OF app_worldD(1) [OF world]] lim])
  show "panel_tables (D (snd (?mw c w))) = panel_tables (D w) \<or>
      authorised X cust cfg V D (gx_request c) w (snd (?mw c w))"
  proof (cases "r1 = Inr True \<and> (\<exists>token i w2. bearer_credential ?h = Inr token \<and> authenticate ?S None token w1 = (Inr i, w2))")
    case True
    then obtain token i w2 where r1: "r1 = Inr True" and token: "bearer_credential ?h = Inr token"
      and auth: "authenticate ?S None token w1 = (Inr i, w2)" by blast
    from authenticate_reply [OF app_worldD(1) [OF world] auth]
    have v: "D w2 = D w1" "auth_verdict cust cfg (fst (rt_now (ex_runtime X) w1)) (V w1) (D w1) token = Inr i" by auto
    have "snd (?mw c w) = snd (h (set_identity i c) w2)"
      using lim r1 token auth by (simp add: rate_limit_middleware_def auth_middleware_def)
    moreover have "change (id_user_id i) (D w2) (D (snd (h (set_identity i c) w2)))"
      using changes [of "id_user_id i"] by (simp add: changes_for_def)
    ultimately show ?thesis
      using lim r1 d1 token v unfolding authorised_def by metis
  next
    case False
    have "snd (?mw c w) = w1 \<or> (\<exists>token r. authenticate ?S None token w1 = (r, snd (?mw c w)))"
      using lim False by (auto simp: rate_limit_middleware_def auth_middleware_def split: sum.splits prod.splits)
    then have "panel_tables (D (snd (?mw c w))) = panel_tables (D w1)"
      using leavesD [OF accounts_leave(1) [OF world]] by auto
    with d1 show ?thesis by simp
  qed
qed

lemma routes_safe:
  assumes "app_world q X Y V D H cust regd d"
  shows "every_route (route_safe X cust (ac_jwt cfg) V D) (register_v1_routes (app_handlers X Y cfg dec)
    (rate_limit_middleware (allow (ex_redis X) (ex_runtime X)) 100 (seconds 1)))"
  by (simp add: register_v1_routes_def auth_routes_def protected_routes_def app_handlers_def Let_def kept_safe
      limited_kept [OF assms] guarded_kept [OF assms] account_handlers_keep [OF assms] agent_ws_keeps [OF assms]
      guarded_safe [OF assms] panel_handlers_change [OF app_worldD(2) [OF assms]])

lemma route_step_safe:
  assumes "every_route (route_safe X cust cfg V D) rs"
  shows "route_safe X cust cfg V D (route_step rs)"
proof -
  have "route_safe X cust cfg V D h" if "find Q rs = Some (m, p, h)" for Q m p h
    by (rule every_route_find [OF assms that])
  then show ?thesis
    by (auto simp: route_safe_def route_step_def route_missing_def split: option.split)
qed

lemma header_request [simp]:
  "gx_request (set_header k v c) = gx_request c" "gx_request (add_header k v c) = gx_request c"
  by (simp_all add: set_header_def add_header_def)

lemma next_run: "h c0 w = (c', w') \<Longrightarrow> gx_request c0 = rq \<Longrightarrow> \<exists>c0. gx_request c0 = rq \<and> w' = snd (h c0 w)"
  by (metis snd_conv)

lemma cors_request:
  assumes "cors_middleware os h c w = (c', w')"
  shows "w' = w \<or> (rq_header (gx_request c) ''Origin'' = [] \<or> rq_header (gx_request c) ''Origin'' \<in> set os) \<and>
    (\<exists>c0. gx_request c0 = gx_request c \<and> w' = snd (h c0 w))"
proof -
  let ?origin = "rq_header (gx_request c) ''Origin''"
  let ?c0 = "add_header ''Vary'' ''Origin'' c"
  let ?c1 = "set_header ''Access-Control-Expose-Headers'' ''X-Trace-ID''
      (set_header ''Access-Control-Allow-Credentials'' ''true'' (set_header ''Access-Control-Allow-Origin'' ?origin ?c0))"
  have "w' = w \<or> (?origin = [] \<or> ?origin \<in> set os) \<and> (h ?c0 w = (c', w') \<or> h ?c1 w = (c', w'))"
    using assms by (auto simp: cors_middleware_def Let_def split: if_splits)
  with next_run [of h ?c0 w c' w' "gx_request c"] next_run [of h ?c1 w c' w' "gx_request c"] show ?thesis by auto
qed

section \<open>Properties\<close>

text \<open>C2: the panel's data changes only for the user who is logged in. Whatever request comes, with whatever path,
  method, headers, cookies and body, the servers, saved worlds and tasks stay as they were, or else the request
  came from a trusted origin or none, the limiter admitted it, it brought a bearer token on which the verdict is an
  identity, and what happened is a change of that user alone.\<close>

theorem panel_changes_need_login:
  fixes X :: "('w, 'h) externals"
  assumes "app_world q X Y V D H cust regd d" and "app X Y cfg dec rq w = (c, w')"
  shows "panel_tables (D w') = panel_tables (D w) \<or>
    (rq_header rq ''Origin'' = [] \<or> rq_header rq ''Origin'' \<in> set (ac_allowed_origins cfg)) \<and>
    (\<exists>w0. V w0 = V w \<and> D w0 = D w \<and> authorised X cust (ac_jwt cfg) V D rq w0 w')"
proof -
  let ?routes = "route_step (register_v1_routes (app_handlers X Y cfg dec)
      (rate_limit_middleware (allow (ex_redis X) (ex_runtime X)) 100 (seconds 1)))"
  obtain t w1 where run: "logger_middleware (cors_middleware (ac_allowed_origins cfg) ?routes) (traced t rq) w1 = (c, w')"
    and t: "if rq_header rq trace_header_key = [] then rt_uuid (ex_runtime X) w = (t, w1)
      else t = rq_header rq trace_header_key \<and> w1 = w"
    using app_steps [of X Y cfg dec rq w] assms(2) by auto
  have w1: "V w1 = V w" "D w1 = D w"
    using t runtime_views(2) [OF app_worldD(1) [OF assms(1)], of w t w1] by (auto split: if_splits)
  obtain c' where "cors_middleware (ac_allowed_origins cfg) ?routes (traced t rq) w1 = (c', w')"
    using run by (auto simp: logger_middleware_def Let_def split: prod.splits)
  note cors = cors_request [OF this]
  have "route_safe X cust (ac_jwt cfg) V D ?routes" by (intro route_step_safe routes_safe [OF assms(1)])
  then have "panel_tables (D (snd (?routes c0 w1))) = panel_tables (D w1) \<or>
      authorised X cust (ac_jwt cfg) V D (gx_request c0) w1 (snd (?routes c0 w1))" for c0
    by (simp add: route_safe_def)
  moreover have "gx_request (traced t rq) = rq" by (simp add: traced_def with_trace_id_def new_gin_def)
  ultimately show ?thesis using cors w1 by metis
qed

section \<open>A reference world\<close>

text \<open>A Redis store, a database and an agent hub.\<close>

type_synonym app_state = "rstore \<times> database \<times> hub"

abbreviation state_db :: "app_state \<Rightarrow> database" where
  "state_db \<equiv> \<lambda>w. fst (snd w)"

abbreviation state_hub :: "app_state \<Rightarrow> hub" where
  "state_hub \<equiv> \<lambda>w. snd (snd w)"

definition put_state_db :: "database \<Rightarrow> app_state \<Rightarrow> app_state" where
  "put_state_db d w = (fst w, d, snd (snd w))"

definition app_externals :: "(app_state, unit) externals" where
  "app_externals =
     \<lparr>ex_redis = pair_redis, ex_captcha_lib = (\<lambda>save. call (save ''i'' ''ab'') fail (\<lambda>_. ret (''i'', [], ''ab''))),
      ex_sms_client = \<lparr>sm_send_sms = (\<lambda>ph c. ret ())\<rparr>, ex_rand_int = (\<lambda>n. ret 0),
      ex_jwt = ref_jwt ref_runtime, ex_users = ref_model state_db put_state_db ref_server users, ex_db = (),
      ex_bcrypt = ref_bcrypt, ex_runtime = ref_runtime\<rparr>"

definition app_panel :: "(app_state, unit) panel" where
  "app_panel =
     \<lparr>pe_servers = ref_model state_db put_state_db ref_server servers,
      pe_dsts = ref_model state_db put_state_db ref_server dsts,
      pe_tasks = ref_model state_db put_state_db ref_server tasks,
      pe_db = (), pe_tx = ref_tx state_db put_state_db,
      pe_encryptor = \<lparr>en_encrypt = (\<lambda>p. ret (rev p)), en_decrypt = (\<lambda>c. Inr (rev c))\<rparr>,
      pe_disconnect = (\<lambda>sid w. (fst w, fst (snd w), snd (disconnect sid (snd (snd w)))))\<rparr>"

lemma app_externals_simps [simp]:
  "ex_redis app_externals = pair_redis" "ex_jwt app_externals = ref_jwt ref_runtime"
  "ex_users app_externals = ref_model state_db put_state_db ref_server users" "ex_runtime app_externals = ref_runtime"
  "ex_bcrypt app_externals = ref_bcrypt" "ex_db app_externals = ()"
  by (simp_all add: app_externals_def)

lemma redis_leaves_part: "redis_leaves R V \<Longrightarrow> redis_leaves R (\<lambda>w. f (V w))"
  by (simp add: redis_leaves_def leaves_def)

lemma put_state_db_views: "\<forall>d w. state_db (put_state_db d w) = d \<and> fst (put_state_db d w) = fst w"
  "\<forall>d w. state_db (put_state_db d w) = d \<and> state_hub (put_state_db d w) = state_hub w"
  by (simp_all add: put_state_db_def)

lemma ref_app_world:
  "app_world ref_server app_externals app_panel fst state_db state_hub ref_custom ref_registered 0"
proof -
  have utf8: "valid_utf8 ''u''" by code_simp
  then have "jwt_law (ref_jwt ref_runtime) ref_runtime (\<lambda>w :: app_state. (fst w, state_db w)) ref_custom ref_registered"
    by (intro ref_jwt_law) (simp add: ref_runtime_def)
  moreover have "redis_leaves (pair_redis :: app_state redis) state_db"
    by (rule redis_leaves_part [OF pair_redis_leaves])
  ultimately have "auth_world ref_server app_externals fst state_db ref_custom ref_registered 0"
    by (simp add: auth_world_def pair_redis_law ref_model_law [OF put_state_db_views(1)] ref_runtime_def now_ms_def
        ref_bcrypt_def leaves_def ret_def)
  moreover have "panel_law ref_server app_panel state_db state_hub"
    unfolding panel_law_def app_panel_def
    by (simp add: ref_model_law [OF put_state_db_views(2)] ref_tx_law [OF put_state_db_views(2)] leaves_def ret_def)
  ultimately show ?thesis
    by (simp add: app_world_def app_externals_def leaves_call leaves_fail leaves_ret)
qed

definition app_cfg :: app_config where
  "app_cfg =
     \<lparr>ac_jwt = sample_cfg, ac_captcha_expire = minutes 5, ac_cookie_secure = True,
      ac_allowed_origins = [''https://panel'']\<rparr>"

text \<open>Decoders that know one request of each kind that is used.\<close>

definition app_decoders :: decoders where
  "app_decoders =
     \<lparr>dc_send_sms_code = (\<lambda>_. Inl (LibError ''EOF'')), dc_register = (\<lambda>_. Inl (LibError ''EOF'')),
      dc_login = (\<lambda>_. Inr \<lparr>lr_phone = ''13800000000'', lr_password = ''password'', lr_captcha_id = ''i'', lr_captcha_code = ''ab''\<rparr>),
      dc_login_by_sms = (\<lambda>_. Inl (LibError ''EOF'')), dc_verify_reset_code = (\<lambda>_. Inl (LibError ''EOF'')),
      dc_reset_password = (\<lambda>_. Inl (LibError ''EOF'')), dc_create_server = (\<lambda>_. Inr sample_create),
      dc_update_server = (\<lambda>_. Inl (LibError ''EOF'')), dc_list_servers = (\<lambda>_. Inr \<lparr>lr_page = 1, lr_page_size = 20\<rparr>),
      dc_create_dst = (\<lambda>_. Inl (LibError ''EOF'')), dc_update_dst = (\<lambda>_. Inl (LibError ''EOF'')),
      dc_list_dsts = (\<lambda>_. Inl (LibError ''EOF'')), dc_list_tasks = (\<lambda>_. Inl (LibError ''EOF'')),
      dc_alnum_unicode = (\<lambda>_. True)\<rparr>"

definition app_request :: "string \<Rightarrow> string \<Rightarrow> (string \<times> string) list \<Rightarrow> gin_request" where
  "app_request method path headers =
     \<lparr>rq_method = method, rq_path = path, rq_raw_query = [], rq_route = Some (method, path), rq_id = [],
      rq_header = (\<lambda>k. case map_of headers k of None \<Rightarrow> [] | Some v \<Rightarrow> v),
      rq_cookie = (\<lambda>_. Inl (LibError ''http: named cookie not present'')), rq_client_ip = ''10.1.1.1'', rq_body = ''{}''\<rparr>"

definition app_start :: app_state where
  "app_start = (at_us 0, sample_db, new_hub)"
text \<open>The route of a request, run by itself.\<close>

lemma cors_cong:
  "(\<And>c'. gx_request c' = gx_request c \<Longrightarrow> f c' = g c') \<Longrightarrow> cors_middleware os f c = cors_middleware os g c"
  by (rule ext) (simp add: cors_middleware_def Let_def)

lemma app_route:
  assumes "rq_route rq = Some (method, path)"
    and "find (\<lambda>(m, p, h). (m, p) = (method, path)) (register_v1_routes (app_handlers X Y cfg dec)
      (rate_limit_middleware (allow (ex_redis X) (ex_runtime X)) 100 (seconds 1))) = Some (method, path, h)"
  shows "app X Y cfg dec rq w =
    trace_middleware (ex_runtime X) (logger_middleware (cors_middleware (ac_allowed_origins cfg) h)) (new_gin rq) w"
proof -
  let ?r = "route_step (register_v1_routes (app_handlers X Y cfg dec)
      (rate_limit_middleware (allow (ex_redis X) (ex_runtime X)) 100 (seconds 1)))"
  have "?r c = h c" if "gx_request c = rq" for c
    using assms that by (simp add: route_step_def)
  then have "cors_middleware (ac_allowed_origins cfg) ?r c = cors_middleware (ac_allowed_origins cfg) h c"
    if "gx_request c = rq" for c using that by (intro cors_cong) simp
  then show ?thesis
    by (simp add: app_def init_router_steps trace_middleware_def logger_middleware_def Let_def new_gin_def with_trace_id_def
        split: prod.split)
qed

lemma create_server_route:
  "find (\<lambda>(m, p, h). (m, p) = (''POST'', ''/api/v1/server'')) (register_v1_routes H rl) =
     Some (''POST'', ''/api/v1/server'',
       rl (auth_middleware (authenticate (wh_auth_service H) None) (http_create_server (wh_decoders H) (wh_server H))))"
  by (simp add: register_v1_routes_def auth_routes_def protected_routes_def route_group_def)

text \<open>An access token of the sample user, as the reference signs it.\<close>

definition sample_access_token :: string where
  "sample_access_token =
     [CHR 0x01, CHR ''a'', CHR 0x00, CHR 0x01, CHR ''7'', CHR 0x00, CHR 0x01, CHR ''n'', CHR 0x00, CHR 0x01, CHR ''u'',
      CHR 0x01, CHR ''s'', CHR 0x01, CHR ''e'', CHR 0x01, CHR ''r'', CHR 0x00, CHR 0x01, CHR ''2'', CHR 0x00, CHR 0x01,
      CHR ''u'', CHR 0x00, CHR 0x01, CHR ''p'', CHR 0x00, CHR 0x00, CHR 0x01, CHR ''0'', CHR 0x00, CHR 0x01, CHR ''0'',
      CHR 0x00, CHR 0x01, CHR ''9''] @ concat (replicate 11 [CHR 0x01, CHR ''0'']) @ [CHR 0x00]"

definition create_request :: gin_request where
  "create_request = app_request ''POST'' ''/api/v1/server'' [(''Authorization'', ''Bearer '' @ sample_access_token)]"

definition created_over_http :: "gin \<times> app_state" where
  "created_over_http = app app_externals app_panel app_cfg app_decoders create_request app_start"

lemma create_over_http:
  "(case created_over_http of (c, w) \<Rightarrow> (map web_status (gx_sent c), map sv_user_id (rows servers (state_db w)))) = ([200], [7])"
proof -
  let ?h = "rate_limit_middleware (allow pair_redis ref_runtime) 100 (seconds 1)
      (auth_middleware (authenticate (new_auth_service app_externals sample_cfg (minutes 5)) None)
        (http_create_server app_decoders (server_service app_panel)))"
  have "created_over_http =
      trace_middleware ref_runtime (logger_middleware (cors_middleware [''https://panel''] ?h)) (new_gin create_request) app_start"
    unfolding created_over_http_def
    by (subst app_route [OF _ create_server_route])
      (simp_all add: app_handlers_def Let_def app_cfg_def create_request_def app_request_def)
  moreover have "(case trace_middleware ref_runtime (logger_middleware (cors_middleware [''https://panel''] ?h))
        (new_gin create_request) app_start of
      (c, w) \<Rightarrow> (map web_status (gx_sent c), map sv_user_id (rows servers (state_db w)))) = ([200], [7])"
    by code_simp
  ultimately show ?thesis by (simp only:)
qed

theorem panel_changes_need_login_witness:
  "map sv_user_id (rows servers (state_db (snd created_over_http))) = [7] \<and>
   (\<exists>w0. fst w0 = fst app_start \<and> state_db w0 = state_db app_start \<and>
      authorised app_externals ref_custom sample_cfg fst state_db create_request w0 (snd created_over_http))"
proof
  obtain c w where run: "created_over_http = (c, w)" by (cases created_over_http)
  from create_over_http show rows: "map sv_user_id (rows servers (state_db (snd created_over_http))) = [7]"
    by (simp only: split_beta prod.inject)
  have "rows servers (state_db app_start) = []" by (simp add: app_start_def sample_db_def rows_def)
  with rows have "panel_tables (state_db w) \<noteq> panel_tables (state_db app_start)"
    by (auto simp: run panel_tables_def rows_def)
  with panel_changes_need_login [OF ref_app_world, of app_cfg app_decoders create_request app_start c w] run
  show "\<exists>w0. fst w0 = fst app_start \<and> state_db w0 = state_db app_start \<and>
      authorised app_externals ref_custom sample_cfg fst state_db create_request w0 (snd created_over_http)"
    by (simp add: created_over_http_def app_cfg_def)
qed

end
