(* ===== verification/WebSession.thy ===== *)
theory WebSession
  imports WebSafety
begin

text \<open>
  A session over HTTP: what a login request starts and a later request with its token is answered, through all the
  middleware.
\<close>

section \<open>Scripts that touch one key\<close>

lemma touches_ret: "touches_only k (ret a)"
  by (simp add: touches_only_def ret_def)

lemma touches_fail: "touches_only k (fail e)"
  by (simp add: touches_only_def fail_def)

lemma touches_call:
  assumes "touches_only k m" and "\<And>e. touches_only k (h e)" and "\<And>a. touches_only k (g a)"
  shows "touches_only k (call m h g)"
  unfolding touches_only_def
proof
  fix s
  obtain r s' where m: "m s = (r, s')" by fastforce
  with assms(1) have "now_ms s' = now_ms s" "\<forall>k'. k' \<noteq> k \<longrightarrow> live s' k' = live s k'"
    by (auto simp: touches_only_def dest: spec [of _ s])
  with m assms(2,3) show "now_ms (snd (call m h g s)) = now_ms s \<and>
      (\<forall>k'. k' \<noteq> k \<longrightarrow> live (snd (call m h g s)) k' = live s k')"
    by (cases r) (simp_all add: touches_only_def)
qed

lemma touches_if: "touches_only k f \<Longrightarrow> touches_only k g \<Longrightarrow> touches_only k (if b then f else g)"
  by simp

lemma touches_zset:
  "touches_only k (cmd_zremrangebyscore k b)" "touches_only k (cmd_zcard k)" "touches_only k (cmd_zadd k n m)"
  "touches_only k (cmd_expire k t)"
  by (auto simp: touches_only_def cmd_expire_def cmd_pexpire_def cmd_zremrangebyscore_def cmd_zcard_def cmd_zadd_def cmd_pexpireat_def call_def ret_def
      fail_def split: sum.split option.split)

lemma touches_rate_limit: "touches_only k (rate_limit_lua ref_redis k now win lim m)"
  unfolding rate_limit_lua_def
  by (intro touches_call touches_if touches_ret touches_fail) (simp_all add: touches_zset)

lemma allow_quiet:
  assumes world: "auth_world q X V D cust regd d"
    and run: "allow (ex_redis X) (ex_runtime X) key lim win w = (r, w')"
  shows "D w' = D w" and "now_ms (V w') = now_ms (V w)" and "k \<noteq> key \<Longrightarrow> live (V w') k = live (V w) k"
proof -
  show "D w' = D w" by (rule leavesD [OF allow_leaves [OF world] run])
  note law = auth_worldD(1) [OF world]
  let ?w1 = "snd (unix_milli (ex_runtime X) w)"
  let ?w2 = "snd (rt_uuid (ex_runtime X) ?w1)"
  have v: "V ?w2 = V w"
    using runtime_leaves(3,4) [OF world] by (simp add: unix_milli_def split_beta)
  obtain r1 where r1: "rd_run (ex_redis X) (rate_limit_lua (ex_redis X) key (fst (unix_milli (ex_runtime X) w)) (milliseconds win) lim
      (fst (rt_uuid (ex_runtime X) ?w1))) ?w2 = (r1, w')"
    using run by (auto simp: allow_def effect_def call_def split: prod.splits sum.splits)
  note t = served_touches [OF run_served [OF law rate_limit_lua_exact [OF law]] touches_rate_limit r1]
  from t(1) v show "now_ms (V w') = now_ms (V w)" by simp
  from t(2) v show "k \<noteq> key \<Longrightarrow> live (V w') k = live (V w) k" by simp
qed

lemma allow_blacklisted:
  assumes "auth_world q X V D cust regd d"
    and "allow (ex_redis X) (ex_runtime X) global_limit_key lim win w = (r, w')"
  shows "blacklisted (V w') token = blacklisted (V w) token"
proof -
  have "token_blacklist_prefix @ token \<noteq> global_limit_key"
    by (simp add: token_blacklist_prefix_def global_limit_key_def)
  from allow_quiet(3) [OF assms this] show ?thesis by (simp add: blacklisted_def)
qed

lemma same_seconds:
  assumes world: "auth_world q X V D cust regd d" and "now_ms (V w') = now_ms (V w)"
  shows "k * 1000000000 \<le> fst (rt_now (ex_runtime X) w') \<longleftrightarrow> k * 1000000000 \<le> fst (rt_now (ex_runtime X) w)"
proof -
  have ms: "fst (rt_now (ex_runtime X) w') div 1000000 = fst (rt_now (ex_runtime X) w) div 1000000"
    using assms(2) auth_worldD(5) [OF world, of w'] auth_worldD(5) [OF world, of w] by simp
  have "k * 1000000000 \<le> n \<longleftrightarrow> k * 1000 \<le> n div 1000000" for n :: int by linarith
  with ms show ?thesis by simp
qed

section \<open>A request through the middleware\<close>

text \<open>
  The routes that the limiter guards: what a request to one of them is answered. It is refused by CORS or by the
  limiter, or is answered by its handler, on a context that holds no more than the request.
\<close>

definition fresh_context :: "gin_request \<Rightarrow> gin \<Rightarrow> bool" where
  "fresh_context rq c \<longleftrightarrow> gx_request c = rq \<and> gx_sent c = [] \<and> gx_cookies c = [] \<and> gx_keys c = []"

lemma fresh_headers [simp]:
  "fresh_context rq (set_header k v c) = fresh_context rq c" "fresh_context rq (add_header k v c) = fresh_context rq c"
  by (simp_all add: fresh_context_def set_header_def add_header_def)

definition refused_by_cors :: "gin_request \<Rightarrow> gin \<Rightarrow> bool" where
  "refused_by_cors rq c \<longleftrightarrow> rq_header rq ''Origin'' \<noteq> [] \<and>
     (gx_sent c = [StatusOnly 204] \<or> (\<exists>t. gx_sent c = [Body (fail_with_msg t 403 (WebMsg M_origin_untrusted))]))"

lemma cors_outcome:
  assumes "cors_middleware os h c w = (c', w')" and "fresh_context rq c"
  shows "refused_by_cors rq c' \<or> (\<exists>c0. fresh_context rq c0 \<and> h c0 w = (c', w'))"
proof -
  let ?origin = "rq_header (gx_request c) ''Origin''"
  let ?c0 = "add_header ''Vary'' ''Origin'' c"
  let ?c1 = "set_header ''Access-Control-Expose-Headers'' ''X-Trace-ID''
      (set_header ''Access-Control-Allow-Credentials'' ''true'' (set_header ''Access-Control-Allow-Origin'' ?origin ?c0))"
  have "h ?c0 w = (c', w') \<or> h ?c1 w = (c', w') \<or> ?origin \<noteq> [] \<and>
      (gx_sent c' = gx_sent c @ [StatusOnly 204] \<or>
       gx_sent c' = gx_sent c @ [Body (fail_with_msg (get_trace_id c) 403 (WebMsg M_origin_untrusted))])"
    using assms(1) by (auto simp: cors_middleware_def Let_def contexts get_trace_id_def split: if_splits)
  moreover have "fresh_context rq ?c0" "fresh_context rq ?c1" using assms(2) by simp_all
  moreover have "gx_sent c = []" "gx_request c = rq" using assms(2) by (simp_all add: fresh_context_def)
  ultimately show ?thesis
    unfolding refused_by_cors_def by auto
qed

lemma limit_outcome:
  assumes "rate_limit_middleware limiter lim win h c w = (c', w')"
  shows "(\<exists>t. gx_sent c' = gx_sent c @ [Body (fail_with_msg t 503 (WebMsg M_server_busy))]) \<or>
    (\<exists>w1. limiter global_limit_key lim win w = (Inr True, w1) \<and> h c w1 = (c', w'))"
  using assms
  by (auto simp: rate_limit_middleware_def web_fail_msg_def send_answer_def split: prod.splits sum.splits if_splits)

lemma limited_request:
  fixes X :: "('w, 'h) externals"
  assumes world: "auth_world q X V D cust regd d"
    and route: "rq_route rq = Some (method, path)"
      "find (\<lambda>(m, p, h). (m, p) = (method, path)) (register_v1_routes (app_handlers X Y cfg dec)
        (rate_limit_middleware (allow (ex_redis X) (ex_runtime X)) 100 (seconds 1))) =
       Some (method, path, rate_limit_middleware (allow (ex_redis X) (ex_runtime X)) 100 (seconds 1) h)"
    and run: "app X Y cfg dec rq w = (c, w')"
  shows "refused_by_cors rq c \<or> (\<exists>t. gx_sent c = [Body (fail_with_msg t 503 (WebMsg M_server_busy))]) \<or>
    (\<exists>c0 w0 w1. fresh_context rq c0 \<and> V w0 = V w \<and> D w0 = D w \<and>
       allow (ex_redis X) (ex_runtime X) global_limit_key 100 (seconds 1) w0 = (Inr True, w1) \<and>
       gx_sent c = gx_sent (fst (h c0 w1)) \<and> gx_cookies c = gx_cookies (fst (h c0 w1)) \<and> w' = snd (h c0 w1))"
proof -
  let ?h = "rate_limit_middleware (allow (ex_redis X) (ex_runtime X)) 100 (seconds 1) h"
  have "trace_middleware (ex_runtime X) (logger_middleware (cors_middleware (ac_allowed_origins cfg) ?h)) (new_gin rq) w = (c, w')"
    using app_route [OF route, where w = w] run by simp
  then obtain t w0 where logged: "logger_middleware (cors_middleware (ac_allowed_origins cfg) ?h)
      (set_header trace_header_key t (with_trace_id t (new_gin rq))) w0 = (c, w')"
    and w0: "w0 = w \<or> rt_uuid (ex_runtime X) w = (t, w0)"
    by (auto simp: trace_middleware_def Let_def split: prod.splits if_splits)
  then obtain c1 where inner: "cors_middleware (ac_allowed_origins cfg) ?h
      (set_header trace_header_key t (with_trace_id t (new_gin rq))) w0 = (c1, w')"
    and c: "gx_sent c = gx_sent c1" "gx_cookies c = gx_cookies c1"
    by (auto simp: logger_middleware_def Let_def split: prod.splits)
  have views: "V w0 = V w" "D w0 = D w" using w0 runtime_views(2) [OF world] by auto
  have "fresh_context rq (set_header trace_header_key t (with_trace_id t (new_gin rq)))"
    by (simp add: fresh_context_def set_header_def with_trace_id_def new_gin_def)
  from cors_outcome [OF inner this] show ?thesis
  proof
    assume "refused_by_cors rq c1"
    then show ?thesis using c by (simp add: refused_by_cors_def)
  next
    assume "\<exists>c0. fresh_context rq c0 \<and> ?h c0 w0 = (c1, w')"
    then obtain c0 where c0: "fresh_context rq c0" "?h c0 w0 = (c1, w')" by blast
    have sent: "gx_sent c0 = []" using c0(1) by (simp add: fresh_context_def)
    from limit_outcome [OF c0(2)] show ?thesis
    proof
      assume "\<exists>t. gx_sent c1 = gx_sent c0 @ [Body (fail_with_msg t 503 (WebMsg M_server_busy))]"
      then show ?thesis using c sent by auto
    next
      assume "\<exists>w1. allow (ex_redis X) (ex_runtime X) global_limit_key 100 (seconds 1) w0 = (Inr True, w1) \<and> h c0 w1 = (c1, w')"
      then obtain w1 where "allow (ex_redis X) (ex_runtime X) global_limit_key 100 (seconds 1) w0 = (Inr True, w1)"
        "h c0 w1 = (c1, w')" by blast
      then show ?thesis
        using c0(1) c views by (intro disjI2 exI [of _ c0] exI [of _ w0] exI [of _ w1]) simp
    qed
  qed
qed

lemma login_route:
  "find (\<lambda>(m, p, h). (m, p) = (''POST'', ''/api/v1/auth/login'')) (register_v1_routes H rl) =
     Some (''POST'', ''/api/v1/auth/login'', rl (http_login (wh_auth H)))"
  by (simp add: register_v1_routes_def auth_routes_def protected_routes_def route_group_def)

lemma profile_route:
  "find (\<lambda>(m, p, h). (m, p) = (''GET'', ''/api/v1/auth/profile'')) (register_v1_routes H rl) =
     Some (''GET'', ''/api/v1/auth/profile'',
       rl (auth_middleware (authenticate (wh_auth_service H) None) (http_get_profile (wh_auth H))))"
  by (simp add: register_v1_routes_def auth_routes_def protected_routes_def route_group_def)

lemma app_handlers_simps [simp]:
  "wh_auth_service (app_handlers X Y cfg dec) = new_auth_service X (ac_jwt cfg) (ac_captcha_expire cfg)"
  "wh_auth (app_handlers X Y cfg dec) = new_auth_handler (new_auth_service X (ac_jwt cfg) (ac_captcha_expire cfg))
     (jc_refresh_expire (ac_jwt cfg)) (ac_cookie_secure cfg) dec"
  by (simp_all add: app_handlers_def Let_def)

section \<open>The two requests\<close>

definition session_cookie :: "app_config \<Rightarrow> string \<Rightarrow> cookie" where
  "session_cookie cfg token =
     \<lparr>ck_name = ''refresh_token'', ck_value = token, ck_max_age = whole_seconds (jc_refresh_expire (ac_jwt cfg)),
      ck_path = ''/api/v1/auth'', ck_domain = [], ck_secure = ac_cookie_secure cfg, ck_http_only = True\<rparr>"

text \<open>A login request that was answered with the data of a login ran \<open>Login\<close> successfully.\<close>

lemma login_request:
  fixes X :: "('w, 'h) externals"
  assumes world: "auth_world q X V D cust regd d" and route: "rq_route rq = Some (''POST'', ''/api/v1/auth/login'')"
    and run: "app X Y cfg dec rq w = (c, w')" and sent: "gx_sent c = [Body (status, r)]" "response.rs_data r = Some (WLogin resp)"
  shows "\<exists>req w1 refresh. D w1 = D w \<and> now_ms (V w1) = now_ms (V w) \<and>
    login (new_auth_service X (ac_jwt cfg) (ac_captcha_expire cfg)) None req w1 = (Inr (resp, refresh), w') \<and>
    gx_cookies c = [session_cookie cfg refresh]"
proof -
  let ?S = "new_auth_service X (ac_jwt cfg) (ac_captcha_expire cfg)"
  let ?h = "new_auth_handler ?S (jc_refresh_expire (ac_jwt cfg)) (ac_cookie_secure cfg) dec"
  from limited_request [OF world route login_route run, unfolded app_handlers_simps]
  have "refused_by_cors rq c \<or> (\<exists>t. gx_sent c = [Body (fail_with_msg t 503 (WebMsg M_server_busy))]) \<or>
    (\<exists>c0 w0 w1. fresh_context rq c0 \<and> V w0 = V w \<and> D w0 = D w \<and>
       allow (ex_redis X) (ex_runtime X) global_limit_key 100 (seconds 1) w0 = (Inr True, w1) \<and>
       gx_sent c = gx_sent (fst (http_login ?h c0 w1)) \<and> gx_cookies c = gx_cookies (fst (http_login ?h c0 w1)) \<and>
       w' = snd (http_login ?h c0 w1))" .
  moreover have "\<not> refused_by_cors rq c" "gx_sent c \<noteq> [Body (fail_with_msg t 503 (WebMsg M_server_busy))]" for t
    using sent by (auto simp: refused_by_cors_def answers)
  ultimately obtain c0 w0 w1 where c0: "fresh_context rq c0" and w0: "V w0 = V w" "D w0 = D w"
    and lim: "allow (ex_redis X) (ex_runtime X) global_limit_key 100 (seconds 1) w0 = (Inr True, w1)"
    and c: "gx_sent c = gx_sent (fst (http_login ?h c0 w1))" "gx_cookies c = gx_cookies (fst (http_login ?h c0 w1))"
      "w' = snd (http_login ?h c0 w1)"
    by blast
  note quiet = allow_quiet(1,2) [OF world lim]
  have fresh: "gx_sent c0 = []" "gx_cookies c0 = []" using c0 by (simp_all add: fresh_context_def)
  obtain req where bind: "should_bind (dc_login dec) valid_login_req (rq_body (gx_request c0)) = Inr req"
    using c(1) sent fresh
    by (cases "should_bind (dc_login dec) valid_login_req (rq_body (gx_request c0))")
      (auto simp: http_login_def with_request_def contexts answers new_auth_handler_def)
  obtain r1 w2 where login: "login ?S None req w1 = (r1, w2)" by fastforce
  show ?thesis
  proof (cases r1)
    case (Inl e)
    with c(1) sent fresh bind login show ?thesis
      by (auto simp: http_login_def with_request_def respond_def contexts answers new_auth_handler_def split: option.splits)
  next
    case (Inr p)
    obtain resp' refresh where p: "p = (resp', refresh)" by (cases p)
    have h: "http_login ?h c0 w1 = (web_success (Some (WLogin resp')) (set_refresh_token_cookie ?h refresh c0), w2)"
      using bind login Inr p by (simp add: http_login_def with_request_def respond_def logged_in_def new_auth_handler_def)
    from c(1) sent fresh h have "resp' = resp" by (auto simp: contexts answers set_refresh_token_cookie_def set_cookie_def)
    moreover have "gx_cookies c = [session_cookie cfg refresh]"
      using c(2) fresh h
      by (simp add: contexts set_refresh_token_cookie_def set_cookie_def session_cookie_def refresh_token_cookie_name_def
          refresh_token_cookie_path_def new_auth_handler_def)
    ultimately show ?thesis using quiet w0 login Inr p c(3) h by (intro exI [of _ req] exI [of _ w1] exI [of _ refresh]) simp
  qed
qed

text \<open>The answer to a profile request whose token \<open>Authenticate\<close> accepts unless a store fails.\<close>

definition profile_answer :: "user \<Rightarrow> gin \<Rightarrow> bool" where
  "profile_answer u c \<longleftrightarrow>
     (\<exists>t. gx_sent c = [Body (success t (Some (WUser (to_user_resp u))))]) \<or>
     (\<exists>t code m. code \<in> {500, 503} \<and> gx_sent c = [Body (fail_with_msg t code m)])"

lemma profile_answers:
  "gx_sent c = [Body (success t (Some (WUser (to_user_resp u))))] \<Longrightarrow> profile_answer u c"
  "gx_sent c = [Body (fail_with_msg t 500 m)] \<Longrightarrow> profile_answer u c"
  "gx_sent c = [Body (fail_with_msg t 503 m)] \<Longrightarrow> profile_answer u c"
  unfolding profile_answer_def by blast+

lemma bearer_of: "bearer_credential (''Bearer '' @ token) = Inr token"
  by (simp add: bearer_credential_def)

lemma profile_request:
  fixes X :: "('w, 'h) externals"
  assumes world: "auth_world q X V D cust regd d" and route: "rq_route rq = Some (''GET'', ''/api/v1/auth/profile'')"
    and rq: "rq_header rq ''Authorization'' = ''Bearer '' @ token" "rq_header rq ''Origin'' = []"
    and u: "user_with_id (D w) (us_id u) = Some u" "us_id u \<noteq> 0"
    and accepted: "\<And>w0 w1 r w2. V w0 = V w \<Longrightarrow> D w0 = D w \<Longrightarrow>
      allow (ex_redis X) (ex_runtime X) global_limit_key 100 (seconds 1) w0 = (Inr True, w1) \<Longrightarrow>
      authenticate (new_auth_service X (ac_jwt cfg) (ac_captcha_expire cfg)) None token w1 = (r, w2) \<Longrightarrow>
      r = Inr \<lparr>id_user_id = us_id u, id_username = us_username u, id_role = us_role u\<rparr> \<or>
      r = Inl (BizError 500 (AuthMsg M_identity_unavailable))"
    and run: "app X Y cfg dec rq w = (c, w')"
  shows "profile_answer u c"
proof -
  let ?S = "new_auth_service X (ac_jwt cfg) (ac_captcha_expire cfg)"
  let ?h = "new_auth_handler ?S (jc_refresh_expire (ac_jwt cfg)) (ac_cookie_secure cfg) dec"
  let ?p = "auth_middleware (authenticate ?S None) (http_get_profile ?h)"
  from limited_request [OF world route profile_route run, unfolded app_handlers_simps]
  have "refused_by_cors rq c \<or> (\<exists>t. gx_sent c = [Body (fail_with_msg t 503 (WebMsg M_server_busy))]) \<or>
    (\<exists>c0 w0 w1. fresh_context rq c0 \<and> V w0 = V w \<and> D w0 = D w \<and>
       allow (ex_redis X) (ex_runtime X) global_limit_key 100 (seconds 1) w0 = (Inr True, w1) \<and>
       gx_sent c = gx_sent (fst (?p c0 w1)))"
    by blast
  moreover have "\<not> refused_by_cors rq c" using rq(2) by (simp add: refused_by_cors_def)
  moreover have "profile_answer u c" if "gx_sent c = [Body (fail_with_msg t 503 (WebMsg M_server_busy))]" for t
    using that by (rule profile_answers)
  moreover have "profile_answer u c" if c0: "fresh_context rq c0" and w0: "V w0 = V w" "D w0 = D w"
    and lim: "allow (ex_redis X) (ex_runtime X) global_limit_key 100 (seconds 1) w0 = (Inr True, w1)"
    and c: "gx_sent c = gx_sent (fst (?p c0 w1))" for c0 w0 w1
  proof -
    obtain r w2 where a: "authenticate ?S None token w1 = (r, w2)" by fastforce
    have req: "gx_request c0 = rq" "gx_sent c0 = []" using c0 by (simp_all add: fresh_context_def)
    have cred: "bearer_credential (rq_header rq ''Authorization'') = Inr token" by (simp only: rq(1) bearer_of)
    from accepted [OF w0 lim a] show ?thesis
    proof
      assume "r = Inl (BizError 500 (AuthMsg M_identity_unavailable))"
      then show ?thesis
        using c a req cred by (auto simp: auth_middleware_def contexts intro: profile_answers)
    next
      let ?i = "\<lparr>id_user_id = us_id u, id_username = us_username u, id_role = us_role u\<rparr>"
      assume r: "r = Inr ?i"
      obtain r3 w3 where g: "get_profile ?S None (us_id u) w2 = (r3, w3)" by fastforce
      have "D w2 = D w1" using authenticate_reply [OF world a] by simp
      then have user: "user_with_id (D w2) (us_id u) = Some u" using allow_quiet(1) [OF world lim] w0 u by simp
      obtain r4 w4 where row: "user_get_by_id (ex_users X) (ex_db X) None (us_id u) w2 = (r4, w4)" by fastforce
      from user_get_by_id_reply [OF auth_worldD(3) [OF world] row] user
      have "r4 = Inr (Some u) \<or> (\<exists>m. r4 = Inl (LibError m))" by simp
      then have "r3 = Inr (to_user_resp u) \<or> r3 = Inl (BizError 500 (SessionMsg M_profile_failed))"
        using g u(2) row by (auto simp: get_profile_def)
      moreover have "gx_sent (set_identity ?i c0) = []" using req(2) by (simp add: set_identity_def set_key_def)
      moreover have "gx_sent c = gx_sent (fst (respond (get_profile ?S None (us_id u)) (\<lambda>u. web_success (Some (WUser u)))
          (set_identity ?i c0) w2))"
        using c a req cred r by (simp add: auth_middleware_def http_get_profile_def)
      ultimately show ?thesis
        using g by (auto simp: respond_def contexts intro: profile_answers)
    qed
  qed
  ultimately show ?thesis by blast
qed

section \<open>Properties\<close>


text \<open>A user of that phone, and the picture of the decoder's login stored.\<close>

definition login_user :: user where
  "login_user = sample_user\<lparr>us_phone := ''13800000000'', us_password := ''$password''\<rparr>"

definition login_start :: app_state where
  "login_start =
     (snd (store_set ref_redis captcha_prefix 300000000000 ''i'' ''ab'' (at_us 0)),
      sample_db\<lparr>db_users := \<lparr>tb_rows = [login_user], tb_next = 8\<rparr>\<rparr>, new_hub)"

definition login_http_request :: gin_request where
  "login_http_request = app_request ''POST'' ''/api/v1/auth/login'' []"

definition login_over_http :: "gin \<times> app_state" where
  "login_over_http = app app_externals app_panel app_cfg app_decoders login_http_request login_start"

fun answered_login :: "web_answer list \<Rightarrow> login_resp option" where
  "answered_login [Body (s, r)] = (case response.rs_data r of Some d \<Rightarrow> (case d of WLogin resp \<Rightarrow> Some resp | _ \<Rightarrow> None) | None \<Rightarrow> None)"
| "answered_login _ = None"

lemma answered_loginE:
  assumes "answered_login as = Some resp"
  obtains s r where "as = [Body (s, r)]" "response.rs_data r = Some (WLogin resp)"
  using assms by (cases as rule: answered_login.cases) (auto split: option.splits web_data.splits)

definition logged_in_as :: "gin \<times> app_state \<Rightarrow> user \<Rightarrow> bool" where
  "logged_in_as p u \<longleftrightarrow>
     (case answered_login (gx_sent (fst p)) of
        None \<Rightarrow> False
      | Some resp \<Rightarrow> user_with_id (state_db (snd p)) (lo_user_id resp) = Some u \<and> lo_user_id resp = us_id u \<and>
          \<not> blacklisted (fst (snd p)) (lo_access_token resp) \<and> fst (rt_now ref_runtime (snd p)) = 0)"

lemma logged_inE:
  assumes "logged_in_as p u"
  obtains s r resp where "gx_sent (fst p) = [Body (s, r)]" "response.rs_data r = Some (WLogin resp)"
    "user_with_id (state_db (snd p)) (lo_user_id resp) = Some u" "lo_user_id resp = us_id u"
    "\<not> blacklisted (fst (snd p)) (lo_access_token resp)" "fst (rt_now ref_runtime (snd p)) = 0"
  using assms by (auto simp: logged_in_as_def split: option.splits elim!: answered_loginE)

lemma login_over_http_answer: "logged_in_as login_over_http login_user"
proof -
  let ?h = "rate_limit_middleware (allow pair_redis ref_runtime) 100 (seconds 1)
      (http_login (new_auth_handler (new_auth_service app_externals sample_cfg (minutes 5)) (jc_refresh_expire sample_cfg) True
        app_decoders))"
  have "login_over_http =
      trace_middleware ref_runtime (logger_middleware (cors_middleware [''https://panel''] ?h)) (new_gin login_http_request) login_start"
    unfolding login_over_http_def
    by (subst app_route [OF _ login_route])
      (simp_all add: app_handlers_def Let_def app_cfg_def login_http_request_def app_request_def)
  moreover have "logged_in_as (trace_middleware ref_runtime (logger_middleware (cors_middleware [''https://panel''] ?h))
        (new_gin login_http_request) login_start) login_user"
    by code_simp
  ultimately show ?thesis by (simp only:)
qed

definition profile_http_request :: "string \<Rightarrow> gin_request" where
  "profile_http_request token = app_request ''GET'' ''/api/v1/auth/profile'' [(''Authorization'', ''Bearer '' @ token)]"


end
