(* ===== verification/AgentConnect.thy ===== *)
theory AgentConnect
  imports AgentRun AgentHandler Jwt
begin

text \<open>
  The agent's connection, \<open>src/internal/agent_client/client.go\<close>: \<open>Start\<close> connects with the token of the identity
  file, serves the connection with a read loop and a heartbeat loop, and connects again when it ends. What the
  network, the file system and the context do are parameters.
\<close>

section \<open>The client\<close>

record ws_config =
  wc_ws_url :: string
  wc_heartbeat_interval :: int
  wc_connect_timeout :: int
  wc_reconnect_interval :: int

record agent_client =
  cn_cfg :: ws_config
  cn_identity :: string \<comment> \<open>the path of the identity file\<close>
  cn_executor :: executor_config
  cn_token :: string

definition new_client :: "ws_config \<Rightarrow> string \<Rightarrow> executor_config \<Rightarrow> agent_client" where
  "new_client server_cfg identity_cfg exec =
     \<lparr>cn_cfg = server_cfg, cn_identity = identity_cfg, cn_executor = exec, cn_token = []\<rparr>"

text \<open>The authorization header of the connection.\<close>

definition dial_header :: "agent_client \<Rightarrow> string" where
  "dial_header c = ''Bearer '' @ cn_token c"

section \<open>One connection\<close>

text \<open>
  What the two loops of a connection wait for: the ticker of the heartbeat, a message, and the end of the context
  with its error. \<open>dl_events\<close> is the order in which it comes; \<open>dl_spawn\<close> is the \<open>go\<close> statement with
  \<open>handleCommand\<close>; \<open>dl_ctx_err\<close> is \<open>ctx.Err()\<close>; \<open>dl_wait\<close> is the wait before the next connection, which the
  end of the context cuts short.
\<close>

datatype loop_event = Tick | Arrives "go_err + json" | Cancelled go_err

record 'w dialer =
  dl_dial :: "string \<Rightarrow> string \<Rightarrow> int \<Rightarrow> 'w \<Rightarrow> ((go_err \<times> int option) + 'w client_wire) \<times> 'w"
  dl_events :: "'w \<Rightarrow> loop_event list \<times> 'w"
  dl_spawn :: "string \<Rightarrow> cmd_payload \<Rightarrow> 'w \<Rightarrow> 'w"
  dl_ctx_err :: "'w \<Rightarrow> go_err option \<times> 'w"
  dl_wait :: "int \<Rightarrow> 'w \<Rightarrow> go_err option \<times> 'w"

text \<open>One turn of the heartbeat loop or of the read loop: the error with which the loop returns, if it does.\<close>

definition heartbeat_turn :: "'w client_wire \<Rightarrow> 'w \<Rightarrow> go_err option \<times> 'w" where
  "heartbeat_turn C w =
     (case client_send C heartbeat_envelope w of
        (Inl e, w1) \<Rightarrow> (Some (Wrapped (ClientMsg M_heartbeat_failed) e), w1)
      | (Inr _, w1) \<Rightarrow> (None, w1))"

definition read_turn :: "'w dialer \<Rightarrow> 'w client_wire \<Rightarrow> go_err + json \<Rightarrow> 'w \<Rightarrow> go_err option \<times> 'w" where
  "read_turn D C m w =
     (case on_message m of
        ReadStops e \<Rightarrow> (Some e, w)
      | Skip \<Rightarrow> (None, w)
      | Refuse i a \<Rightarrow> (None, snd (client_send C (ack_envelope i a) w))
      | StartCommand i p \<Rightarrow> (None, dl_spawn D i p w))"

fun loop_turn :: "'w dialer \<Rightarrow> 'w client_wire \<Rightarrow> loop_event \<Rightarrow> 'w \<Rightarrow> go_err option \<times> 'w" where
  "loop_turn D C Tick w = heartbeat_turn C w"
| "loop_turn D C (Arrives m) w = read_turn D C m w"
| "loop_turn D C (Cancelled e) w = (Some e, w)"

text \<open>The first of the two loops that returns gives the error; while there is none, the connection is served.\<close>

fun run_loops :: "'w dialer \<Rightarrow> 'w client_wire \<Rightarrow> loop_event list \<Rightarrow> 'w \<Rightarrow> go_err option \<times> 'w" where
  "run_loops D C [] w = (None, w)"
| "run_loops D C (ev # evs) w =
     (case loop_turn D C ev w of (Some e, w1) \<Rightarrow> (Some e, w1) | (None, w1) \<Rightarrow> run_loops D C evs w1)"

definition connect_and_serve :: "'w dialer \<Rightarrow> agent_client \<Rightarrow> 'w \<Rightarrow> go_err option \<times> 'w" where
  "connect_and_serve D c w =
     (case dl_dial D (wc_ws_url (cn_cfg c)) (dial_header c) (wc_connect_timeout (cn_cfg c)) w of
        (Inl (e, status), w1) \<Rightarrow> (Some (Wrapped (ClientMsg (M_ws_connect_failed status)) e), w1)
      | (Inr C, w1) \<Rightarrow>
          (case dl_events D w1 of
             (evs, w2) \<Rightarrow>
               (case run_loops D C evs w2 of
                  (None, w3) \<Rightarrow> (None, w3)
                | (Some e, w3) \<Rightarrow> (Some e, cl_close C (cl_close C w3)))))"

section \<open>Start\<close>

text \<open>
  The loop of \<open>Start\<close> need not end, so not returning is a value: \<open>None\<close>. Whatever \<open>connectAndServe\<close> returns is
  printed and forgotten.
\<close>

partial_function (option) connect_loop :: "'w dialer \<Rightarrow> agent_client \<Rightarrow> 'w \<Rightarrow> (go_err \<times> 'w) option" where
  "connect_loop D c w =
     (case dl_ctx_err D w of
        (Some e, w1) \<Rightarrow> Some (e, w1)
      | (None, w1) \<Rightarrow>
          (case connect_and_serve D c w1 of
             (None, w2) \<Rightarrow> None
           | (Some _, w2) \<Rightarrow>
               (case dl_wait D (wc_reconnect_interval (cn_cfg c)) w2 of
                  (Some e, w3) \<Rightarrow> Some (e, w3)
                | (None, w3) \<Rightarrow> connect_loop D c w3)))"

definition start :: "'w files \<Rightarrow> 'w dialer \<Rightarrow> agent_client \<Rightarrow> string \<Rightarrow> 'w \<Rightarrow> (go_err \<times> 'w) option" where
  "start F D c token w =
     (case client_token F (cn_identity c) token w of
        (Inl e, w1) \<Rightarrow> Some (e, w1)
      | (Inr t, w1) \<Rightarrow> connect_loop D (c\<lparr>cn_token := t\<rparr>) w1)"

section \<open>The program\<close>

text \<open>\<open>Load\<close>, over \<open>viper\<close>, and \<open>main\<close> of \<open>src/cmd/agent/main.go\<close> with the status it exits with.\<close>

record agent_config =
  gc_server :: ws_config
  gc_executor :: executor_config
  gc_identity :: string

definition load_agent_config ::
    "(string \<Rightarrow> ('w, 'v) go) \<Rightarrow> ('v \<Rightarrow> go_err + agent_config) \<Rightarrow> string \<Rightarrow> ('w, agent_config) go" where
  "load_agent_config read_in_config unmarshal config_path =
     call (read_in_config config_path) (\<lambda>e. fail (Wrapped (BootMsg M_config_read_failed) e))
       (\<lambda>v. case unmarshal v of
          Inl e \<Rightarrow> fail (Wrapped (BootMsg M_config_parse_failed) e)
        | Inr cfg \<Rightarrow> ret cfg)"

definition agent_main ::
    "(string \<Rightarrow> ('w, 'v) go) \<Rightarrow> ('v \<Rightarrow> go_err + agent_config) \<Rightarrow> 'w files \<Rightarrow> 'w dialer \<Rightarrow> string \<Rightarrow> string \<Rightarrow> 'w
      \<Rightarrow> (int \<times> 'w) option" where
  "agent_main read_in_config unmarshal F D config_path token w =
     (case load_agent_config read_in_config unmarshal config_path w of
        (Inl e, w1) \<Rightarrow> Some (1, w1)
      | (Inr cfg, w1) \<Rightarrow>
          (case start F D (new_client (gc_server cfg) (gc_identity cfg) (gc_executor cfg)) token w1 of
             None \<Rightarrow> None
           | Some (e, w2) \<Rightarrow> Some (if errors_is e CtxCanceled then 0 else 1, w2)))"

section \<open>The identity file\<close>

text \<open>What the client relies on: a file is read as it was last written, and what is not written stays as it is.\<close>

definition files_law :: "'w files \<Rightarrow> ('w \<Rightarrow> string \<Rightarrow> string option) \<Rightarrow> bool" where
  "files_law F content \<longleftrightarrow>
     (\<forall>path w s w'. fs_read F path w = (Inr s, w') \<longrightarrow> content w path = Some s) \<and>
     (\<forall>path s mode w w'. fs_write F path s mode w = (Inr (), w') \<longrightarrow> content w' path = Some s)"

lemma save_token_writes:
  assumes "files_law F content" and "save_token F path token w = (Inr u, w')"
  shows "content w' path = Some (trim_space token)"
  using assms by (auto simp: files_law_def save_token_def split: if_splits call_split_asm)

lemma load_token_reads:
  assumes "files_law F content" and "load_token F path w = (Inr t, w')"
  shows "\<exists>s. content w path = Some s \<and> t = trim_space s \<and> t \<noteq> []"
  using assms by (auto simp: files_law_def load_token_def split: if_splits call_split_asm)

text \<open>The token of \<open>Start\<close>: the one given, which is then in the file, or the one in the file.\<close>

lemma client_token_reply:
  assumes law: "files_law F content" and run: "client_token F path arg w = (Inr t, w')"
  shows "t \<noteq> [] \<and> trim_space t = t" and "trim_space arg \<noteq> [] \<Longrightarrow> t = trim_space arg \<and> content w' path = Some t"
    and "trim_space arg = [] \<Longrightarrow> map_option trim_space (content w path) = Some t"
  using run save_token_writes [OF law] load_token_reads [OF law]
  by (fastforce simp: client_token_def split: if_splits call_split_asm)+

section \<open>The token at the other end\<close>

lemma blank_alone: "r \<in> set space_runes \<Longrightarrow> CHR 0x20 \<in> set r \<Longrightarrow> length r = 1"
  by (auto simp: space_runes_def)

lemma blank_before:
  assumes "space_free (map rev space_runes) u" and "u \<noteq> []"
  shows "space_free (map rev space_runes) (u @ CHR 0x20 # v)"
proof -
  have "\<not> starts_with (rev r) (u @ CHR 0x20 # v)" if r: "r \<in> set space_runes" "r \<noteq> []" for r
  proof (cases "length r \<le> length u")
    case True
    then show ?thesis using assms(1) r by (auto simp: space_free_def starts_with_def)
  next
    case False
    then have "CHR 0x20 \<in> set (take (length r) (u @ CHR 0x20 # v))"
      by (cases "length r - length u") simp_all
    moreover have "length r \<noteq> 1" using False assms(2) by (cases u) auto
    ultimately show ?thesis using blank_alone [OF r(1)] by (metis length_rev set_rev starts_with_def)
  qed
  then show ?thesis by (auto simp: space_free_def)
qed

lemma header_is_trimmed:
  assumes "trim_space t = t" and "t \<noteq> []"
  shows "trim_space (''Bearer '' @ t) = ''Bearer '' @ t"
proof (rule trim_space_id)
  show "space_free space_runes (''Bearer '' @ t)"
    by (auto simp: space_free_def space_runes_def starts_with_def)
  have "space_free (map rev space_runes) (rev t)" using trim_space_back [of t] assms(1) by simp
  from blank_before [OF this, of "rev ''Bearer''"] assms(2)
  show "space_free (map rev space_runes) (rev (''Bearer '' @ t))" by simp
qed

lemma bearer_token_roundtrip:
  assumes "trim_space t = t" and "t \<noteq> []"
  shows "parse_bearer_token (''Bearer '' @ t) = Inr t"
  using assms header_is_trimmed [OF assms]
  by (simp add: parse_bearer_token_def bearer_prefix_def has_prefix_def starts_with_def trim_prefix_def)

section \<open>The loop of \<open>Start\<close>\<close>

text \<open>A round after which the loop goes on, and how it ends at a world.\<close>

inductive round :: "'w dialer \<Rightarrow> agent_client \<Rightarrow> 'w \<Rightarrow> 'w \<Rightarrow> bool" for D c where
  again: "dl_ctx_err D w = (None, w1) \<Longrightarrow> connect_and_serve D c w1 = (Some e, w2) \<Longrightarrow>
    dl_wait D (wc_reconnect_interval (cn_cfg c)) w2 = (None, w3) \<Longrightarrow> round D c w w3"

definition stops_at :: "'w dialer \<Rightarrow> agent_client \<Rightarrow> 'w \<Rightarrow> (go_err \<times> 'w) option" where
  "stops_at D c w =
     (case dl_ctx_err D w of
        (Some e, w1) \<Rightarrow> Some (e, w1)
      | (None, w1) \<Rightarrow>
          (case connect_and_serve D c w1 of
             (None, w2) \<Rightarrow> None
           | (Some _, w2) \<Rightarrow>
               (case dl_wait D (wc_reconnect_interval (cn_cfg c)) w2 of
                  (Some e, w3) \<Rightarrow> Some (e, w3) | (None, w3) \<Rightarrow> None)))"

lemma connect_loop_stops: "stops_at D c w = Some p \<Longrightarrow> connect_loop D c w = Some p"
  by (subst connect_loop.simps) (auto simp: stops_at_def split: prod.splits option.splits)

lemma connect_loop_round: "round D c w w' \<Longrightarrow> connect_loop D c w = connect_loop D c w'"
  by (erule round.cases, subst connect_loop.simps) simp

lemma connect_loop_returns:
  assumes "connect_loop D c w = Some p"
  shows "\<exists>w1. (round D c)\<^sup>*\<^sup>* w w1 \<and> stops_at D c w1 = Some p"
  using assms
proof (induction D c w p rule: connect_loop.raw_induct [rotated, consumes 1, case_names turn])
  case (turn loop D c w p)
  show ?case
  proof (cases "stops_at D c w")
    case (Some q)
    with turn(2) have "p = q" by (auto simp: stops_at_def split: prod.splits option.splits)
    with Some show ?thesis by blast
  next
    case None
    with turn(2) obtain w3 where "round D c w w3" "loop D c w3 = Some p"
      by (auto simp: stops_at_def split: prod.splits option.splits intro: again)
    with turn(1) show ?thesis by (meson converse_rtranclp_into_rtranclp)
  qed
qed

lemma connect_loop_iff:
  "connect_loop D c w = Some p \<longleftrightarrow> (\<exists>w1. (round D c)\<^sup>*\<^sup>* w w1 \<and> stops_at D c w1 = Some p)"
proof
  assume "\<exists>w1. (round D c)\<^sup>*\<^sup>* w w1 \<and> stops_at D c w1 = Some p"
  then obtain w1 where "(round D c)\<^sup>*\<^sup>* w w1" and stop: "stops_at D c w1 = Some p" by blast
  then show "connect_loop D c w = Some p"
    by (induction rule: converse_rtranclp_induct) (simp_all add: connect_loop_stops connect_loop_round)
qed (rule connect_loop_returns)

section \<open>Properties\<close>

text \<open>C23: an agent connects as the server its token was issued for. Started once with the token, and again later
  without, it reads the same token from its identity file; the header it connects with is parsed back to that
  token, and the manager lets it in as that server exactly when the server exists.\<close>

theorem agent_authenticates_as_its_server:
  assumes law: "jwt_law J rt V cust regd" and utf8: "valid_utf8 (jc_issuer jc)"
    and issued: "generate_agent_token J jc sid w = (Inr token, w1)" and compact: "trim_space token = token" "token \<noteq> []"
    and files: "files_law F content"
    and first: "client_token F path arg w2 = (Inr t, w3)" "trim_space arg = token"
    and again: "client_token F path [] w4 = (Inr t', w5)" "content w4 path = content w3 path"
    and auth: "agent_authenticate \<lparr>aa_parse_agent_token = parse_agent_token J jc, aa_exists_by_id = ex\<rparr> t' w6 = (r, w7)"
  shows "t = token \<and> t' = token \<and> parse_bearer_token (dial_header (c\<lparr>cn_token := t'\<rparr>)) = Inr token \<and>
    (\<exists>w8. (\<exists>e. ex sid w8 = (Inl e, w7) \<and> r = Inl (BizError 500 (AgentMsg M_agent_auth_unavailable))) \<or>
       ex sid w8 = (Inr False, w7) \<and> r = Inl (BizError 401 (AgentMsg M_agent_server_absent)) \<or>
       ex sid w8 = (Inr True, w7) \<and> r = Inr sid)"
proof -
  have t: "t = token" "content w3 path = Some token"
    using client_token_reply(2) [OF files first(1)] first(2) compact(2) by simp_all
  have t': "t' = token" using client_token_reply(3) [OF files again(1)] again(2) t(2) compact(1) by simp
  obtain w8 where p: "parse_agent_token J jc token w6 = (Inr sid, w8)"
    using agent_token_reads [OF law utf8 issued] by (metis prod.collapse)
  obtain r8 w9 where e: "ex sid w8 = (r8, w9)" by fastforce
  have "parse_bearer_token (dial_header (c\<lparr>cn_token := t'\<rparr>)) = Inr token"
    using bearer_token_roundtrip [OF compact] by (simp add: dial_header_def t')
  moreover have "w9 = w7" and "case r8 of Inl _ \<Rightarrow> r = Inl (BizError 500 (AgentMsg M_agent_auth_unavailable))
      | Inr b \<Rightarrow> r = (if b then Inr sid else Inl (BizError 401 (AgentMsg M_agent_server_absent)))"
    using auth p e compact(2) by (auto simp: t' agent_authenticate_def check_server_def split: sum.split if_splits call_split_asm)
  ultimately show ?thesis using t t' e by (cases r8) (auto split: if_splits)
qed

definition file_world :: "(string option) files" where
  "file_world =
     \<lparr>fs_read = (\<lambda>path w. case w of None \<Rightarrow> (Inl (LibError ''open''), w) | Some s \<Rightarrow> (Inr s, w)),
      fs_mkdir_all = (\<lambda>path mode. ret ()), fs_write = (\<lambda>path s mode w. (Inr (), Some s)), fs_dir = (\<lambda>path. path)\<rparr>"

definition file_runtime :: "(string option) runtime" where
  "file_runtime = \<lparr>rt_now = (\<lambda>w. (0, w)), rt_uuid = (\<lambda>w. (''u'', w))\<rparr>"

definition issued_token :: string where
  "issued_token = (case generate_agent_token (ref_jwt file_runtime) sample_cfg 7 None of (Inr t, w) \<Rightarrow> t | _ \<Rightarrow> [])"

theorem agent_authenticates_as_its_server_witness:
  "fst (agent_authenticate \<lparr>aa_parse_agent_token = parse_agent_token (ref_jwt file_runtime) sample_cfg,
      aa_exists_by_id = (\<lambda>sid. ret (sid = 7))\<rparr> issued_token (Some issued_token)) = Inr 7 \<and>
   parse_bearer_token (''Bearer '' @ issued_token) = Inr issued_token"
proof -
  have law: "jwt_law (ref_jwt file_runtime) file_runtime id ref_custom ref_registered"
  proof (rule ref_jwt_law)
    have "valid_utf8 ''u''" by code_simp
    then show "\<forall>w. id (snd (rt_now file_runtime w)) = id w \<and> id (snd (rt_uuid file_runtime w)) = id w \<and>
        valid_utf8 (fst (rt_uuid file_runtime w))"
      by (simp add: file_runtime_def)
  qed
  have utf8: "valid_utf8 (jc_issuer sample_cfg)" by code_simp
  have issued: "generate_agent_token (ref_jwt file_runtime) sample_cfg 7 None = (Inr issued_token, None)"
    by (simp add: issued_token_def generate_agent_token_def ref_jwt_def ret_def)
  have compact: "trim_space issued_token = issued_token" "issued_token \<noteq> []" by code_simp+
  have files: "files_law file_world (\<lambda>w path. w)" by (auto simp: files_law_def file_world_def split: option.splits)
  let ?arg = "issued_token @ [CHR 0x0A]"
  have first: "client_token file_world ''id'' ?arg None = (Inr issued_token, Some issued_token)" "trim_space ?arg = issued_token"
    by code_simp+
  have again: "client_token file_world ''id'' [] (Some issued_token) = (Inr issued_token, Some issued_token)" by code_simp
  let ?A = "\<lparr>aa_parse_agent_token = parse_agent_token (ref_jwt file_runtime) sample_cfg,
      aa_exists_by_id = (\<lambda>sid. ret (sid = 7))\<rparr>"
  obtain r w where auth: "agent_authenticate ?A issued_token (Some issued_token) = (r, w)" by fastforce
  from agent_authenticates_as_its_server [OF law utf8 issued compact files first again refl auth,
      of "new_client undefined [] undefined"]
  show ?thesis by (auto simp: auth dial_header_def)
qed


end
