(* ===== verification/SmsProvider.thy ===== *)
theory SmsProvider
  imports SmsService JsonString
begin

text \<open>
  The two providers of SMS messages, \<open>src/internal/platform/sms/aliyun.go\<close> and \<open>src/internal/platform/sms/mock.go\<close>.
  The client library of Aliyun is a parameter: what it answers to a request, with the pointers of the answer as
  options.
\<close>

record aliyun_config =
  ay_access_key_id :: string
  ay_access_key_secret :: string
  ay_sign_name :: string
  ay_template_code :: string

record send_sms_request =
  sy_phone_numbers :: string
  sy_sign_name :: string
  sy_template_code :: string
  sy_template_param :: string

record sms_answer_body =
  sb_code :: "string option"
  sb_message :: "string option"
  sb_request_id :: "string option"
  sb_biz_id :: "string option"

text \<open>\<open>al_send\<close> is given the time limits of connecting and reading in milliseconds, and whether to try again.\<close>

record ('w, 'c) aliyun_lib =
  al_new_client :: "string \<Rightarrow> string \<Rightarrow> string \<Rightarrow> string \<Rightarrow> go_err + 'c"
  al_send :: "'c \<Rightarrow> send_sms_request \<Rightarrow> int \<Rightarrow> int \<Rightarrow> bool \<Rightarrow> ('w, sms_answer_body option option) go"

record 'c aliyun_client =
  yc_client :: 'c
  yc_sign_name :: string
  yc_template_code :: string

definition new_aliyun_client :: "('w, 'c) aliyun_lib \<Rightarrow> aliyun_config \<Rightarrow> go_err + 'c aliyun_client" where
  "new_aliyun_client A cfg =
     (case al_new_client A (ay_access_key_id cfg) (ay_access_key_secret cfg) ''dysmsapi.aliyuncs.com'' ''cn-hangzhou'' of
        Inl e \<Rightarrow> Inl (Wrapped (AliyunMsg M_aliyun_client_failed) e)
      | Inr c \<Rightarrow>
          Inr \<lparr>yc_client = c, yc_sign_name = ay_sign_name cfg, yc_template_code = ay_template_code cfg\<rparr>)"

text \<open>\<open>dara.StringValue\<close>\<close>

definition string_value :: "string option \<Rightarrow> string" where
  "string_value s = (case s of Some t \<Rightarrow> t | None \<Rightarrow> [])"

text \<open>\<open>json.Marshal(map[string]string{"code": code})\<close>, which cannot fail.\<close>

definition template_param :: "string \<Rightarrow> string" where
  "template_param code = ''{'' @ quoted ''code'' @ '':'' @ quoted code @ ''}''"

definition send_request :: "'c aliyun_client \<Rightarrow> string \<Rightarrow> string \<Rightarrow> send_sms_request" where
  "send_request c phone code =
     \<lparr>sy_phone_numbers = phone, sy_sign_name = yc_sign_name c, sy_template_code = yc_template_code c,
      sy_template_param = template_param code\<rparr>"

text \<open>\<open>ctx_err\<close> is \<open>ctx.Err()\<close>.\<close>

definition aliyun_send_sms ::
    "('w, 'c) aliyun_lib \<Rightarrow> ('w \<Rightarrow> go_err option \<times> 'w) \<Rightarrow> 'c aliyun_client \<Rightarrow> string \<Rightarrow> string \<Rightarrow> ('w, unit) go" where
  "aliyun_send_sms A ctx_err c phone code =
     effect ctx_err (\<lambda>err. case err of
       Some e \<Rightarrow> fail e
     | None \<Rightarrow>
         call (al_send A (yc_client c) (send_request c phone code) 3000 5000 False)
           (\<lambda>e. fail (Wrapped (AliyunMsg M_aliyun_call_failed) e))
           (\<lambda>response. case response of
              None \<Rightarrow> fail (ErrorMsg (AliyunMsg M_aliyun_response_empty))
            | Some None \<Rightarrow> fail (ErrorMsg (AliyunMsg M_aliyun_response_empty))
            | Some (Some body) \<Rightarrow>
                if string_value (sb_code body) \<noteq> ''OK'' then
                  fail (ErrorMsg (AliyunMsg (M_aliyun_refused (string_value (sb_code body))
                    (string_value (sb_message body)) (string_value (sb_request_id body)))))
                else ret ()))"

definition aliyun_sms_client ::
    "('w, 'c) aliyun_lib \<Rightarrow> ('w \<Rightarrow> go_err option \<times> 'w) \<Rightarrow> 'c aliyun_client \<Rightarrow> 'w sms_client" where
  "aliyun_sms_client A ctx_err c = \<lparr>sm_send_sms = aliyun_send_sms A ctx_err c\<rparr>"

definition mock_send_sms :: "string \<Rightarrow> string \<Rightarrow> ('w, unit) go" where
  "mock_send_sms phone code = ret ()"

definition new_mock_sms_client :: "'w sms_client" where
  "new_mock_sms_client = \<lparr>sm_send_sms = mock_send_sms\<rparr>"

section \<open>What is sent and what is believed\<close>

lemma quoted_value: "scan_value (quoted s @ r) = Some (JStr (utf8_coerce s), r)"
  by (subst scan_value.simps) (simp add: quoted_def scan_quoted skip_ws_def is_ws_def)

text \<open>An object with one member whose value is a string.\<close>

lemma one_member:
  "scan_value (''{'' @ quoted k @ '':'' @ quoted v @ ''}'') = Some (JObj [(utf8_coerce k, JStr (utf8_coerce v))], [])"
proof -
  let ?v = "quoted v @ ''}''"
  have k: "scan_string (json_chars k @ CHR 0x22 # CHR '':'' # ?v) = Some (utf8_coerce k, CHR '':'' # ?v)"
    by (rule scan_quoted)
  have "scan_members (CHR 0x22 # json_chars k @ CHR 0x22 # CHR '':'' # ?v) = Some ([(utf8_coerce k, JStr (utf8_coerce v))], [])"
    by (subst scan_members.simps) (simp add: skip_ws_def is_ws_def k quoted_value)
  then show ?thesis
    by (subst scan_value.simps) (simp add: skip_ws_def is_ws_def quoted_def)
qed

text \<open>The template's parameter is an object with the code under \<open>code\<close>.\<close>

lemma template_param_parses: "parse_json (template_param code) = Inr (JObj [(''code'', JStr (utf8_coerce code))])"
proof -
  have "utf8_coerce ''code'' = ''code''" by code_simp
  then show ?thesis by (simp add: parse_json_def template_param_def one_member [simplified] skip_ws_def)
qed

text \<open>
  A success means that the library was asked once, with this phone and this code, without trying again, and that it
  answered \<open>OK\<close>.
\<close>

lemma sms_accepted:
  assumes "aliyun_send_sms A ctx_err c phone code w = (Inr u, w')"
  shows "\<exists>w1 body. ctx_err w = (None, w1) \<and>
    al_send A (yc_client c) (send_request c phone code) 3000 5000 False w1 = (Inr (Some (Some body)), w') \<and>
    sb_code body = Some ''OK''"
  using assms
  by (auto simp: aliyun_send_sms_def string_value_def split: effect_split_asm call_split_asm option.splits if_splits)

text \<open>When the context has ended, nothing is sent.\<close>

lemma sms_cancelled: "ctx_err w = (Some e, w1) \<Longrightarrow> aliyun_send_sms A ctx_err c phone code w = (Inl e, w1)"
  by (simp add: aliyun_send_sms_def)

end
