(* ===== verification/Startup.thy ===== *)
theory Startup
  imports WebSafety Logging SmsProvider
begin

text \<open>
  Starting and stopping the server: the configuration (\<open>src/internal/config/config.go\<close>), opening the database and
  Redis (\<open>src/internal/platform/database\<close>, \<open>src/internal/platform/redis/redis.go\<close>, \<open>src/internal/bootstrap\<close>), the
  HTTP server, and \<open>Run\<close>, which puts everything together. Every library is a parameter.
\<close>

section \<open>The configuration\<close>

record app_info =
  ai_env :: string
  ai_name :: string
  ai_version :: string

record http_config =
  hc_host :: string
  hc_port :: int
  hc_mode :: string
  hc_allowed_origins :: "string list"
  hc_cookie_secure :: bool

record log_settings =
  ls_level :: string
  ls_format :: string
  ls_to_console :: bool
  ls_to_file :: bool
  ls_dir :: string
  ls_filename :: string
  ls_max_size :: int
  ls_max_backups :: int
  ls_max_age :: int
  ls_compress :: bool

record mysql_config =
  mc_host :: string
  mc_port :: int
  mc_user :: string
  mc_password :: string
  mc_database :: string
  mc_max_open_conns :: int
  mc_max_idle_conns :: int
  mc_conn_max_lifetime :: int
  mc_conn_max_idle_time :: int
  mc_log_level :: string

record sqlite_config =
  sc_db_path :: string
  sc_max_open_conns :: int
  sc_max_idle_conns :: int
  sc_conn_max_lifetime :: int
  sc_conn_max_idle_time :: int
  sc_log_level :: string

record redis_config =
  kc_host :: string
  kc_port :: int
  kc_password :: string
  kc_db :: int
  kc_pool_size :: int
  kc_dial_timeout :: int
  kc_read_timeout :: int
  kc_write_timeout :: int

text \<open>\<open>max_skew\<close>, a floating-point number the picture is drawn with, is left out.\<close>

record captcha_config =
  cc_expire :: int
  cc_img_width :: int
  cc_img_height :: int
  cc_length :: int
  cc_dot_count :: int

record sms_config =
  pc_provider :: string
  pc_aliyun :: aliyun_config

record settings =
  st_app :: app_info
  st_server :: http_config
  st_log :: log_settings
  st_sqlite :: sqlite_config
  st_redis :: redis_config
  st_jwt :: jwt_config
  st_captcha :: captcha_config
  st_sms :: sms_config
  st_aes_key :: string

text \<open>\<open>viper\<close> reads the file, with the environment before it, and decodes what it read.\<close>

definition load_config :: "(string \<Rightarrow> ('w, 'v) go) \<Rightarrow> ('v \<Rightarrow> go_err + settings) \<Rightarrow> string \<Rightarrow> ('w, settings) go" where
  "load_config read_in_config unmarshal config_path =
     call (read_in_config config_path) (\<lambda>e. fail (Wrapped (BootMsg M_config_read_failed) e))
       (\<lambda>v. case unmarshal v of
          Inl e \<Rightarrow> fail (Wrapped (BootMsg M_config_parse_failed) e)
        | Inr cfg \<Rightarrow> ret cfg)"

definition init_logger ::
    "(string \<Rightarrow> int \<Rightarrow> ('w, unit) go) \<Rightarrow> (string \<Rightarrow> string \<Rightarrow> string) \<Rightarrow> log_settings \<Rightarrow> string \<Rightarrow> ('w, slogger) go" where
  "init_logger mkdir_all path_join cfg env =
     call (new_logger mkdir_all path_join
         \<lparr>lc_level = ls_level cfg, lc_format = ls_format cfg, lc_to_console = ls_to_console cfg, lc_to_file = ls_to_file cfg,
          lc_dir = ls_dir cfg, lc_filename = ls_filename cfg, lc_max_size = ls_max_size cfg,
          lc_max_backups = ls_max_backups cfg, lc_max_age = ls_max_age cfg, lc_compress = ls_compress cfg,
          lc_add_source = (env \<noteq> ''prod'')\<rparr>)
       (\<lambda>e. fail (Wrapped (BootMsg M_logger_failed) e)) ret"

section \<open>The database\<close>

text \<open>\<open>gorm.Open\<close> with a driver, \<open>db.DB()\<close>, the pool and \<open>AutoMigrate\<close>; \<open>'h\<close> is a database handle.\<close>

record ('w, 'h) db_lib =
  db_dir :: "string \<Rightarrow> string"
  db_mkdir_all :: "string \<Rightarrow> int \<Rightarrow> ('w, unit) go"
  db_open_sqlite :: "string \<Rightarrow> gorm_logger \<Rightarrow> ('w, 'h) go"
  db_open_mysql :: "string \<Rightarrow> int \<Rightarrow> ('w, 'h) go"
  db_sql :: "'h \<Rightarrow> ('w, unit) go"
  db_set_pool :: "'h \<Rightarrow> int \<Rightarrow> int \<Rightarrow> int \<Rightarrow> int \<Rightarrow> 'w \<Rightarrow> 'w"
  db_ping :: "'h \<Rightarrow> int \<Rightarrow> ('w, unit) go"
  db_close :: "'h \<Rightarrow> ('w, unit) go"
  db_auto_migrate :: "'h \<Rightarrow> string list \<Rightarrow> ('w, unit) go"

definition change_world :: "('w \<Rightarrow> 'w) \<Rightarrow> ('w, 'a) go \<Rightarrow> ('w, 'a) go" where
  "change_world f k w = k (f w)"

definition sqlite_dsn :: "string \<Rightarrow> string" where
  "sqlite_dsn path =
     path @ ''?_pragma=journal_mode(WAL)&_pragma=busy_timeout(5000)&_pragma=synchronous(NORMAL)''"

definition new_sqlite :: "('w, 'h) db_lib \<Rightarrow> sqlite_config \<Rightarrow> ('w, 'h) go" where
  "new_sqlite L cfg =
     (let dir = db_dir L (sc_db_path cfg) in
      call (db_mkdir_all L dir 511) (\<lambda>e. fail (Wrapped (BootMsg (M_db_dir_failed dir)) e)) (\<lambda>_.
      call (db_open_sqlite L (sqlite_dsn (sc_db_path cfg)) (new_gorm_logger (sc_log_level cfg) 200000000 True))
        (\<lambda>e. fail (Wrapped (BootMsg M_sqlite_open_failed) e)) (\<lambda>db.
      call (db_sql L db) (\<lambda>e. fail (Wrapped (BootMsg M_pool_failed) e)) (\<lambda>_.
      change_world (db_set_pool L db (sc_max_open_conns cfg) (sc_max_idle_conns cfg) (sc_conn_max_lifetime cfg)
          (sc_conn_max_idle_time cfg))
        (ret db)))))"

definition mysql_dsn :: "mysql_config \<Rightarrow> string" where
  "mysql_dsn cfg =
     mc_user cfg @ '':'' @ mc_password cfg @ ''@tcp('' @ mc_host cfg @ '':'' @ show_int (mc_port cfg) @ '')/'' @
     mc_database cfg @ ''?charset=utf8mb4&parseTime=True&loc=Local''"

definition mysql_log_level :: "string \<Rightarrow> int" where
  "mysql_log_level level =
     (let l = to_lower level in
      if l = ''silent'' then GormSilent
      else if l = ''error'' then GormError
      else if l = ''warn'' then GormWarn
      else GormInfo)"

definition new_mysql :: "('w, 'h) db_lib \<Rightarrow> mysql_config \<Rightarrow> ('w, 'h) go" where
  "new_mysql L cfg =
     call (db_open_mysql L (mysql_dsn cfg) (mysql_log_level (mc_log_level cfg)))
       (\<lambda>e. fail (Wrapped (BootMsg M_mysql_open_failed) e)) (\<lambda>db.
     call (db_sql L db) (\<lambda>e. fail (Wrapped (BootMsg M_pool_failed) e)) (\<lambda>_.
     let max_open = (if mc_max_open_conns cfg \<le> 0 then 100 else mc_max_open_conns cfg);
         max_idle = (if mc_max_idle_conns cfg \<le> 0 then 10 else mc_max_idle_conns cfg)
     in change_world (db_set_pool L db max_open max_idle (mc_conn_max_lifetime cfg) (mc_conn_max_idle_time cfg))
          (call (db_ping L db (seconds 3))
            (\<lambda>e. ignoring (db_close L db)
               (fail (Wrapped (BootMsg (M_mysql_connect_failed (mc_host cfg) (mc_port cfg))) e)))
            (\<lambda>_. ret db))))"

text \<open>The migration of the four entities after opening; when it fails the database is closed.\<close>

definition entities :: "string list" where
  "entities = [''User'', ''Server'', ''Dst'', ''Task'']"

definition migrate :: "('w, 'h) db_lib \<Rightarrow> 'h \<Rightarrow> ('w, 'h) go" where
  "migrate L db =
     call (db_auto_migrate L db entities)
       (\<lambda>e. let failed = fail (Wrapped (BootMsg M_migration_failed) e)
            in call (db_sql L db) (\<lambda>_. failed) (\<lambda>_. ignoring (db_close L db) failed))
       (\<lambda>_. ret db)"

definition init_sqlite :: "('w, 'h) db_lib \<Rightarrow> sqlite_config \<Rightarrow> ('w, 'h) go" where
  "init_sqlite L cfg =
     call (new_sqlite L cfg) (\<lambda>e. fail (Wrapped (BootMsg M_sqlite_failed) e)) (migrate L)"

definition init_mysql :: "('w, 'h) db_lib \<Rightarrow> mysql_config \<Rightarrow> ('w, 'h) go" where
  "init_mysql L cfg =
     call (new_mysql L
         (cfg\<lparr>mc_conn_max_lifetime := minutes 30, mc_conn_max_idle_time := minutes 10\<rparr>))
       (\<lambda>e. fail (Wrapped (BootMsg M_mysql_failed) e)) (migrate L)"

section \<open>Redis\<close>

record ('w, 'r) redis_lib =
  kl_new_client :: "string \<Rightarrow> redis_config \<Rightarrow> 'w \<Rightarrow> 'r \<times> 'w" \<comment> \<open>given the address\<close>
  kl_ping :: "'r \<Rightarrow> int \<Rightarrow> ('w, unit) go"
  kl_close :: "'r \<Rightarrow> ('w, unit) go"

definition new_redis_client :: "('w, 'r) redis_lib \<Rightarrow> redis_config \<Rightarrow> ('w, 'r) go" where
  "new_redis_client K cfg =
     effect (kl_new_client K (kc_host cfg @ '':'' @ show_int (kc_port cfg)) cfg) (\<lambda>rdb.
     call (kl_ping K rdb (seconds 3))
       (\<lambda>e. ignoring (kl_close K rdb)
          (fail (Wrapped (BootMsg (M_redis_connect_failed (kc_host cfg) (kc_port cfg))) e)))
       (\<lambda>_. ret rdb))"

definition init_redis :: "('w, 'r) redis_lib \<Rightarrow> redis_config \<Rightarrow> ('w, 'r) go" where
  "init_redis K cfg = call (new_redis_client K cfg) (\<lambda>e. fail (Wrapped (BootMsg M_redis_failed) e)) ret"

section \<open>The HTTP server\<close>

text \<open>
  \<open>hl_serve\<close> is the wait for the end of \<open>ListenAndServe\<close>, which never returns nil, or for a signal; the listener runs the
  handler for every request meanwhile. \<open>hl_served\<close> is what \<open>ListenAndServe\<close> returns after a shutdown.
\<close>

datatype server_end = ListenEnds go_err | Signalled

type_synonym 'w engine = "gin_request \<Rightarrow> 'w \<Rightarrow> gin \<times> 'w"

record 'w http_lib =
  hl_serve :: "string \<Rightarrow> 'w engine \<Rightarrow> 'w \<Rightarrow> server_end \<times> 'w"
  hl_shutdown :: "int \<Rightarrow> ('w, unit) go"
  hl_close :: "('w, unit) go"
  hl_served :: "'w \<Rightarrow> go_err \<times> 'w"

definition run_http_server :: "'w http_lib \<Rightarrow> http_config \<Rightarrow> 'w engine \<Rightarrow> ('w, unit) go" where
  "run_http_server H cfg engine =
     effect (hl_serve H (hc_host cfg @ '':'' @ show_int (hc_port cfg)) engine) (\<lambda>end'. case end' of
       ListenEnds e \<Rightarrow>
         if errors_is e ErrServerClosed then ret () else fail (Wrapped (BootMsg M_listen_failed) e)
     | Signalled \<Rightarrow>
         call (hl_shutdown H (seconds 5))
           (\<lambda>e. call (hl_close H)
              (\<lambda>close_err. fail (Joined (Wrapped (BootMsg M_shutdown_failed) e)
                 (Wrapped (BootMsg M_force_close_failed) close_err)))
              (\<lambda>_. fail (Wrapped (BootMsg M_shutdown_failed) e)))
           (\<lambda>_. effect (hl_served H) (\<lambda>e.
              if \<not> errors_is e ErrServerClosed then fail (Wrapped (BootMsg M_listen_failed) e) else ret ())))"

section \<open>The callbacks of the agents\<close>

text \<open>What \<open>Run\<close> makes of the answers and interruptions of commands: an entry of the log for each.\<close>

fun agent_entry :: "service_event \<Rightarrow> log_entry" where
  "agent_entry (EvAck sid i a) =
     \<lparr>le_level = LevelInfo, le_text = T_agent_ack,
      le_attrs = [(''serverID'', VInt (uint sid)), (''commandID'', VText i), (''accepted'', VBool (ack_accepted a)),
        (''reason'', VText (ack_reason a))]\<rparr>"
| "agent_entry (EvLog sid i line) =
     \<lparr>le_level = LevelInfo, le_text = T_agent_log,
      le_attrs = [(''serverID'', VInt (uint sid)), (''commandID'', VText i), (''content'', VText (log_content line))]\<rparr>"
| "agent_entry (EvResult sid i res) =
     \<lparr>le_level = LevelInfo, le_text = T_agent_result,
      le_attrs = [(''serverID'', VInt (uint sid)), (''commandID'', VText i), (''success'', VBool (res_success res)),
        (''exitCode'', VInt (res_exit_code res)), (''error'', VText (res_error res))]\<rparr>"
| "agent_entry (EvInterrupted sid i reason) =
     \<lparr>le_level = LevelWarn, le_text = T_agent_interrupted,
      le_attrs = [(''serverID'', VInt (uint sid)), (''commandID'', VText i), (''reason'', VMsg reason)]\<rparr>"

section \<open>\<open>Run\<close>\<close>

text \<open>
  \<open>Run\<close> keeps account of what it opens and closes: its world is the world of the libraries with the events so far.
\<close>

datatype ('h, 'r) boot_event = OpensDb 'h | ClosesDb 'h | OpensRedis 'r | ClosesRedis 'r | Serves

type_synonym ('w, 'h, 'r) booting = "'w \<times> ('h, 'r) boot_event list"

definition on_world :: "('w, 'a) go \<Rightarrow> ('w \<times> 'e list, 'a) go" where
  "on_world f = (\<lambda>(w, evs). case f w of (r, w') \<Rightarrow> (r, w', evs))"

definition noting :: "('a \<Rightarrow> 'e) \<Rightarrow> ('w, 'a) go \<Rightarrow> ('w \<times> 'e list, 'a) go" where
  "noting ev f = (\<lambda>(w, evs). case f w of (Inl e, w') \<Rightarrow> (Inl e, w', evs) | (Inr a, w') \<Rightarrow> (Inr a, w', evs @ [ev a]))"

definition noting_first :: "'e \<Rightarrow> ('w, 'a) go \<Rightarrow> ('w \<times> 'e list, 'a) go" where
  "noting_first ev f = (\<lambda>(w, evs). on_world f (w, evs @ [ev]))"

definition traced_db :: "('w, 'h) db_lib \<Rightarrow> (('w, 'h, 'r) booting, 'h) db_lib" where
  "traced_db L =
     \<lparr>db_dir = db_dir L, db_mkdir_all = (\<lambda>path mode. on_world (db_mkdir_all L path mode)),
      db_open_sqlite = (\<lambda>dsn l. noting OpensDb (db_open_sqlite L dsn l)),
      db_open_mysql = (\<lambda>dsn l. noting OpensDb (db_open_mysql L dsn l)),
      db_sql = (\<lambda>h. on_world (db_sql L h)), db_set_pool = (\<lambda>h a b c d (w, evs). (db_set_pool L h a b c d w, evs)),
      db_ping = (\<lambda>h t. on_world (db_ping L h t)), db_close = (\<lambda>h. noting_first (ClosesDb h) (db_close L h)),
      db_auto_migrate = (\<lambda>h es. on_world (db_auto_migrate L h es))\<rparr>"

definition traced_redis :: "('w, 'r) redis_lib \<Rightarrow> (('w, 'h, 'r) booting, 'r) redis_lib" where
  "traced_redis K =
     \<lparr>kl_new_client = (\<lambda>addr cfg (w, evs). case kl_new_client K addr cfg w of (r, w') \<Rightarrow> (r, w', evs @ [OpensRedis r])),
      kl_ping = (\<lambda>r t. on_world (kl_ping K r t)), kl_close = (\<lambda>r. noting_first (ClosesRedis r) (kl_close K r))\<rparr>"

text \<open>A value that needs no world; and \<open>defer\<close>, whose own error is only logged.\<close>

definition of_sum :: "go_err + 'a \<Rightarrow> ('w, 'a) go" where
  "of_sum r = (case r of Inl e \<Rightarrow> fail e | Inr a \<Rightarrow> ret a)"

definition deferring :: "('w, unit) go \<Rightarrow> ('w, 'a) go \<Rightarrow> ('w, 'a) go" where
  "deferring f body w = (case body w of (r, w1) \<Rightarrow> (r, snd (f w1)))"

text \<open>The libraries of the program; \<open>ho_externals\<close> and \<open>ho_panel\<close> are the models and libraries given a handle.\<close>

record ('w, 'h, 'r, 'v, 'c, 'b, 'g) host =
  ho_read_in_config :: "string \<Rightarrow> ('w, 'v) go"
  ho_unmarshal :: "'v \<Rightarrow> go_err + settings"
  ho_mkdir_all :: "string \<Rightarrow> int \<Rightarrow> ('w, unit) go"
  ho_path_join :: "string \<Rightarrow> string \<Rightarrow> string"
  ho_gcm :: "('w, 'b, 'g) gcm_lib"
  ho_db :: "('w, 'h) db_lib"
  ho_redis :: "('w, 'r) redis_lib"
  ho_aliyun :: "('w, 'c) aliyun_lib"
  ho_ctx_err :: "'w \<Rightarrow> go_err option \<times> 'w"
  ho_http :: "'w http_lib"
  ho_externals :: "'h \<Rightarrow> 'r \<Rightarrow> captcha_config \<Rightarrow> ('w, 'h) externals"
  ho_panel :: "'h \<Rightarrow> ('w, 'h) panel"
  ho_decoders :: decoders

text \<open>The choice of the SMS provider.\<close>

definition sms_client_of :: "('w, 'h, 'r, 'v, 'c, 'b, 'g) host \<Rightarrow> sms_config \<Rightarrow> go_err + 'w sms_client" where
  "sms_client_of Z cfg =
     (if pc_provider cfg = ''aliyun'' then
        (case new_aliyun_client (ho_aliyun Z) (pc_aliyun cfg) of
           Inl e \<Rightarrow> Inl e
         | Inr c \<Rightarrow> Inr (aliyun_sms_client (ho_aliyun Z) (ho_ctx_err Z) c))
      else if pc_provider cfg = ''mock'' then Inr new_mock_sms_client
      else Inl (ErrorMsg (BootMsg (M_sms_provider_unknown (pc_provider cfg)))))"

definition app_config_of :: "settings \<Rightarrow> app_config" where
  "app_config_of cfg =
     \<lparr>ac_jwt = st_jwt cfg, ac_captcha_expire = cc_expire (st_captcha cfg),
      ac_cookie_secure = hc_cookie_secure (st_server cfg), ac_allowed_origins = hc_allowed_origins (st_server cfg)\<rparr>"

definition engine_of ::
    "('w, 'h, 'r, 'v, 'c, 'b, 'g) host \<Rightarrow> settings \<Rightarrow> 'w encryptor \<Rightarrow> 'h \<Rightarrow> 'r \<Rightarrow> 'w sms_client \<Rightarrow> 'w engine" where
  "engine_of Z cfg enc db rdb sms =
     app ((ho_externals Z db rdb (st_captcha cfg))\<lparr>ex_sms_client := sms\<rparr>) ((ho_panel Z db)\<lparr>pe_encryptor := enc\<rparr>)
       (app_config_of cfg) (ho_decoders Z)"

definition run :: "('w, 'h, 'r, 'v, 'c, 'b, 'g) host \<Rightarrow> string \<Rightarrow> (('w, 'h, 'r) booting, unit) go" where
  "run Z config_path =
     (let L = traced_db (ho_db Z); K = traced_redis (ho_redis Z) in
      call (on_world (load_config (ho_read_in_config Z) (ho_unmarshal Z) config_path))
        (\<lambda>e. fail (Wrapped (BootMsg M_config_failed) e)) (\<lambda>cfg.
      call (on_world (init_logger (ho_mkdir_all Z) (ho_path_join Z) (st_log cfg) (ai_env (st_app cfg)))) fail (\<lambda>_.
      call (of_sum (new_aes_encryptor (ho_gcm Z) (st_aes_key cfg))) (\<lambda>e. fail (Wrapped (BootMsg M_aes_failed) e)) (\<lambda>enc.
      call (init_sqlite L (st_sqlite cfg)) fail (\<lambda>db.
      call (db_sql L db) (\<lambda>e. fail (Wrapped (BootMsg M_pool_failed) e)) (\<lambda>_.
      deferring (db_close L db)
        (call (init_redis K (st_redis cfg)) fail (\<lambda>rdb.
         deferring (kl_close K rdb)
           (call (of_sum (sms_client_of Z (st_sms cfg))) fail (\<lambda>sms.
            noting_first Serves
              (run_http_server (ho_http Z) (st_server cfg) (engine_of Z cfg enc db rdb sms))))))))))))"

text \<open>\<open>main\<close> of \<open>src/cmd/server/main.go\<close>, with the status it exits with.\<close>

definition server_main :: "('w, 'h, 'r, 'v, 'c, 'b, 'g) host \<Rightarrow> string \<Rightarrow> 'w \<Rightarrow> int \<times> ('w, 'h, 'r) booting" where
  "server_main Z config_path w = (case run Z config_path (w, []) of (Inl e, w') \<Rightarrow> (1, w') | (Inr _, w') \<Rightarrow> (0, w'))"

section \<open>What is opened is closed\<close>

lemma on_world_events [simp]: "on_world f (w, evs) = (r, w', evs') \<longleftrightarrow> f w = (r, w') \<and> evs' = evs"
  by (auto simp: on_world_def split: prod.split)

lemma noting_first_events [simp]:
  "noting_first ev f (w, evs) = (r, w', evs') \<longleftrightarrow> f w = (r, w') \<and> evs' = evs @ [ev]"
  by (simp add: noting_first_def)

lemma noting_events:
  "noting ev f (w, evs) = (r, w', evs') \<longleftrightarrow>
     f w = (r, w') \<and> evs' = (case r of Inl _ \<Rightarrow> evs | Inr a \<Rightarrow> evs @ [ev a])"
  by (auto simp: noting_def split: prod.split sum.split)

lemmas traced_simps = traced_db_def traced_redis_def noting_events

definition handles :: "('w, 'h) db_lib \<Rightarrow> bool" where
  "handles L \<longleftrightarrow> (\<forall>h w. \<exists>w'. db_sql L h w = (Inr (), w'))"

lemma migrate_events:
  assumes "handles L" and "migrate (traced_db L) h (w, evs) = (r, w', evs')"
  shows "r = Inr h \<and> evs' = evs \<or> (\<exists>e. r = Inl e) \<and> evs' = evs @ [ClosesDb h]"
proof -
  obtain r1 w1 where m: "db_auto_migrate L h entities w = (r1, w1)" by fastforce
  obtain w2 where s: "db_sql L h w1 = (Inr (), w2)" using assms(1) by (auto simp: handles_def)
  obtain r3 w3 where c: "db_close L h w2 = (r3, w3)" by fastforce
  show ?thesis
    using assms(2) m s c
    by (cases r1) (auto simp: migrate_def traced_db_def call_def ignoring_def fail_def ret_def on_world_def noting_first_def Let_def)
qed

lemma new_sqlite_events:
  assumes "handles L" and "new_sqlite (traced_db L) cfg (w, evs) = (r, w', evs')"
  shows "(\<exists>e. r = Inl e) \<and> evs' = evs \<or> (\<exists>h. r = Inr h \<and> evs' = evs @ [OpensDb h])"
proof -
  obtain r1 w1 where m: "db_mkdir_all L (db_dir L (sc_db_path cfg)) 511 w = (r1, w1)" by fastforce
  obtain r2 w2 where o: "db_open_sqlite L (sqlite_dsn (sc_db_path cfg)) (new_gorm_logger (sc_log_level cfg) 200000000 True) w1 = (r2, w2)"
    by fastforce
  have sql: "\<exists>w'. db_sql L h w2 = (Inr (), w')" for h using assms(1) by (simp add: handles_def)
  show ?thesis
  proof (cases r2)
    case (Inl e)
    with assms(2) m o show ?thesis
      by (cases r1) (auto simp: new_sqlite_def traced_db_def call_def fail_def on_world_def noting_def Let_def)
  next
    case (Inr h)
    obtain w3 where "db_sql L h w2 = (Inr (), w3)" using sql by blast
    with assms(2) m o Inr show ?thesis
      by (cases r1)
        (auto simp: new_sqlite_def traced_db_def call_def fail_def ret_def on_world_def noting_def Let_def change_world_def)
  qed
qed

lemma init_sqlite_events:
  assumes "handles L" and "init_sqlite (traced_db L) cfg (w, evs) = (r, w', evs')"
  shows "(\<exists>e. r = Inl e) \<and> (evs' = evs \<or> (\<exists>h. evs' = evs @ [OpensDb h, ClosesDb h])) \<or>
    (\<exists>h. r = Inr h \<and> evs' = evs @ [OpensDb h])"
proof -
  obtain r1 w1 evs1 where n: "new_sqlite (traced_db L) cfg (w, evs) = (r1, w1, evs1)" by (metis prod_cases3)
  from new_sqlite_events [OF assms(1) n] show ?thesis
  proof (elim disjE exE conjE)
    fix h assume h: "r1 = Inr h" "evs1 = evs @ [OpensDb h]"
    with n assms(2) have "migrate (traced_db L) h (w1, evs @ [OpensDb h]) = (r, w', evs')" by (simp add: init_sqlite_def)
    from migrate_events [OF assms(1) this] h show ?thesis by auto
  qed (use n assms(2) in \<open>auto simp: init_sqlite_def\<close>)
qed

lemma init_redis_events:
  assumes "init_redis (traced_redis K) cfg (w, evs) = (r, w', evs')"
  shows "\<exists>c. (\<exists>e. r = Inl e) \<and> evs' = evs @ [OpensRedis c, ClosesRedis c] \<or> r = Inr c \<and> evs' = evs @ [OpensRedis c]"
proof -
  let ?addr = "kc_host cfg @ '':'' @ show_int (kc_port cfg)"
  obtain c w1 where n: "kl_new_client K ?addr cfg w = (c, w1)" by fastforce
  obtain r2 w2 where p: "kl_ping K c (seconds 3) w1 = (r2, w2)" by fastforce
  obtain r3 w3 where q: "kl_close K c w2 = (r3, w3)" by fastforce
  show ?thesis
    using assms n p q
    by (cases r2)
      (auto simp: init_redis_def new_redis_client_def traced_redis_def call_def effect_def ignoring_def fail_def ret_def
        on_world_def noting_first_def)
qed

lemma of_sum_ret: "call (of_sum (Inr a)) g k w = k a w"
  by (simp add: of_sum_def)

lemma deferringD: "deferring f body w = (r, w2) \<Longrightarrow> \<exists>w1. body w = (r, w1) \<and> w2 = snd (f w1)"
  by (cases "body w") (simp add: deferring_def)

lemma close_events:
  "\<exists>w'. snd (db_close (traced_db L) h (w, evs)) = (w', evs @ [ClosesDb h])"
  "\<exists>w'. snd (kl_close (traced_redis K) c (w, evs)) = (w', evs @ [ClosesRedis c])"
  by (simp_all add: traced_db_def traced_redis_def noting_first_def on_world_def split: prod.split)

lemma serving_events:
  assumes "call (init_redis (traced_redis K) rc) fail (\<lambda>rdb. deferring (kl_close (traced_redis K) rdb)
      (call (of_sum s) fail (\<lambda>sms. noting_first Serves (F rdb sms)))) (w, evs) = (r, w', evs')"
  shows "\<exists>c. (\<exists>e. r = Inl e) \<and> evs' = evs @ [OpensRedis c, ClosesRedis c] \<or>
    evs' = evs @ [OpensRedis c, Serves, ClosesRedis c]"
proof -
  obtain r1 w1 evs1 where i: "init_redis (traced_redis K) rc (w, evs) = (r1, w1, evs1)" by (metis prod_cases3)
  from init_redis_events [OF i] show ?thesis
  proof (elim exE disjE conjE)
    fix c assume c: "r1 = Inr c" "evs1 = evs @ [OpensRedis c]"
    with assms i have "deferring (kl_close (traced_redis K) c) (call (of_sum s) fail (\<lambda>sms. noting_first Serves (F c sms)))
        (w1, evs @ [OpensRedis c]) = (r, w', evs')" by simp
    from deferringD [OF this] obtain w2 evs2 where
      b: "call (of_sum s) fail (\<lambda>sms. noting_first Serves (F c sms)) (w1, evs @ [OpensRedis c]) = (r, w2, evs2)"
      and e: "(w', evs') = snd (kl_close (traced_redis K) c (w2, evs2))" by auto
    have "(\<exists>e. r = Inl e) \<and> evs2 = evs @ [OpensRedis c] \<or> evs2 = evs @ [OpensRedis c, Serves]"
      using b by (cases s) (auto simp: of_sum_def call_def ret_def fail_def)
    then show ?thesis using close_events(2) [of K c w2 evs2] e by auto
  qed (use assms i in auto)
qed

section \<open>Property\<close>

text \<open>C25: whatever happens while the server starts, runs and stops, \<open>Run\<close> closes what it opened, each once and the
  last first: nothing was opened; or the database was opened and closed; or the database and then Redis, closed in
  the reverse order, with the HTTP server in between or not. Without an error the server was run.\<close>

theorem run_closes_what_it_opened:
  fixes Z :: "('w, 'h, 'r, 'v, 'c, 'b, 'g) host"
  assumes "handles (ho_db Z)" and "run Z config_path (w, []) = (r, w', evs)"
  shows "(\<exists>e. r = Inl e) \<and> (evs = [] \<or> (\<exists>h. evs = [OpensDb h, ClosesDb h]) \<or>
      (\<exists>h c. evs = [OpensDb h, OpensRedis c, ClosesRedis c, ClosesDb h])) \<or>
    (\<exists>h c. evs = [OpensDb h, OpensRedis c, Serves, ClosesRedis c, ClosesDb h])"
proof -
  let ?L = "traced_db (ho_db Z) :: (('w, 'h, 'r) booting, 'h) db_lib"
  obtain r1 w1 where c: "load_config (ho_read_in_config Z) (ho_unmarshal Z) config_path w = (r1, w1)" by fastforce
  show ?thesis
  proof (cases r1)
    case (Inl e)
    with assms(2) c show ?thesis by (auto simp: run_def Let_def call_def fail_def on_world_def)
  next
    case cfg: (Inr cfg)
    obtain r2 w2 where l: "init_logger (ho_mkdir_all Z) (ho_path_join Z) (st_log cfg) (ai_env (st_app cfg)) w1 = (r2, w2)"
      by fastforce
    have early: ?thesis if "r2 = Inl e \<or> new_aes_encryptor (ho_gcm Z) (st_aes_key cfg) = Inl e" for e
      using assms(2) c cfg l that by (cases r2) (auto simp: run_def Let_def call_def fail_def of_sum_def on_world_def)
    show ?thesis
    proof (cases "\<exists>u enc. r2 = Inr u \<and> new_aes_encryptor (ho_gcm Z) (st_aes_key cfg) = Inr enc")
      case False
      with early show ?thesis by (metis sum.exhaust)
    next
      case True
      then obtain u enc where ok: "r2 = Inr u" "new_aes_encryptor (ho_gcm Z) (st_aes_key cfg) = Inr enc" by blast
      obtain r3 w3 evs3 where i: "init_sqlite ?L (st_sqlite cfg) (w2, []) = (r3, w3, evs3)" by (metis prod_cases3)
      from init_sqlite_events [OF assms(1) i] show ?thesis
      proof (elim disjE conjE exE)
        fix h assume h: "r3 = Inr h" "evs3 = [] @ [OpensDb h]"
        obtain w4 where s: "db_sql (ho_db Z) h w3 = (Inr (), w4)" using assms(1) by (auto simp: handles_def)
        let ?serve = "call (init_redis (traced_redis (ho_redis Z)) (st_redis cfg)) fail (\<lambda>rdb.
            deferring (kl_close (traced_redis (ho_redis Z)) rdb) (call (of_sum (sms_client_of Z (st_sms cfg))) fail
              (\<lambda>sms. noting_first Serves (run_http_server (ho_http Z) (st_server cfg) (engine_of Z cfg enc h rdb sms)))))"
        have steps: "on_world (load_config (ho_read_in_config Z) (ho_unmarshal Z) config_path) (w, []) = (Inr cfg, w1, [])"
          "on_world (init_logger (ho_mkdir_all Z) (ho_path_join Z) (st_log cfg) (ai_env (st_app cfg))) (w1, []) = (Inr u, w2, [])"
          "db_sql ?L h (w3, [OpensDb h]) = (Inr (), w4, [OpensDb h])"
          "init_sqlite ?L (st_sqlite cfg) (w2, []) = (Inr h, w3, [OpensDb h])"
          using c cfg l ok i h s by (simp_all, simp add: traced_db_def)
        have "deferring (db_close ?L h) ?serve (w4, [OpensDb h]) = (r, w', evs)"
          using assms(2) by (simp add: run_def Let_def steps ok(2) of_sum_ret)
        from deferringD [OF this] obtain w5 evs5 where b: "?serve (w4, [OpensDb h]) = (r, w5, evs5)"
          and e: "(w', evs) = snd (db_close ?L h (w5, evs5))" by auto
        from serving_events [OF b] close_events(1) [of "ho_db Z" h w5 evs5] e show ?thesis by auto
      qed (use assms(2) c cfg l ok i in \<open>auto simp: run_def Let_def call_def fail_def ret_def of_sum_def on_world_def\<close>)
    qed
  qed
qed

definition quiet_db :: "(app_state, unit) db_lib" where
  "quiet_db =
     \<lparr>db_dir = (\<lambda>p. ''data''), db_mkdir_all = (\<lambda>p m. ret ()), db_open_sqlite = (\<lambda>dsn l. ret ()),
      db_open_mysql = (\<lambda>dsn l. fail (LibError ''dial tcp'')), db_sql = (\<lambda>h. ret ()), db_set_pool = (\<lambda>h a b c d w. w),
      db_ping = (\<lambda>h t. ret ()), db_close = (\<lambda>h. ret ()), db_auto_migrate = (\<lambda>h es. ret ())\<rparr>"

definition sample_settings :: settings where
  "sample_settings =
     \<lparr>st_app = \<lparr>ai_env = ''prod'', ai_name = ''panel'', ai_version = ''1''\<rparr>,
      st_server = \<lparr>hc_host = ''0.0.0.0'', hc_port = 8080, hc_mode = ''release'', hc_allowed_origins = [], hc_cookie_secure = True\<rparr>,
      st_log = \<lparr>ls_level = ''Warning'', ls_format = ''json'', ls_to_console = True, ls_to_file = False, ls_dir = [],
        ls_filename = [], ls_max_size = 1, ls_max_backups = 1, ls_max_age = 1, ls_compress = False\<rparr>,
      st_sqlite = \<lparr>sc_db_path = ''data/panel.db'', sc_max_open_conns = 1, sc_max_idle_conns = 1,
        sc_conn_max_lifetime = 0, sc_conn_max_idle_time = 0, sc_log_level = ''silent''\<rparr>,
      st_redis = \<lparr>kc_host = ''localhost'', kc_port = 6379, kc_password = [], kc_db = 0, kc_pool_size = 1,
        kc_dial_timeout = 0, kc_read_timeout = 0, kc_write_timeout = 0\<rparr>,
      st_jwt = sample_cfg, st_captcha = \<lparr>cc_expire = minutes 5, cc_img_width = 1, cc_img_height = 1, cc_length = 4, cc_dot_count = 1\<rparr>,
      st_sms = \<lparr>pc_provider = ''mock'', pc_aliyun = \<lparr>ay_access_key_id = [], ay_access_key_secret = [], ay_sign_name = [],
        ay_template_code = []\<rparr>\<rparr>,
      st_aes_key = ''0123456789abcdef''\<rparr>"

text \<open>A host on which everything works until a signal comes; \<open>provider\<close> is the SMS provider that is configured.\<close>

definition sample_host :: "string \<Rightarrow> (app_state, unit, unit, settings, unit, unit, unit) host" where
  "sample_host provider =
     \<lparr>ho_read_in_config = (\<lambda>p. ret (sample_settings\<lparr>st_sms := (st_sms sample_settings)\<lparr>pc_provider := provider\<rparr>\<rparr>)),
      ho_unmarshal = Inr, ho_mkdir_all = (\<lambda>p m. ret ()), ho_path_join = (\<lambda>d f. d @ f),
      ho_gcm = \<lparr>gl_new_cipher = (\<lambda>k. Inr ()), gl_new_gcm = (\<lambda>b. Inr ()), gl_nonce_size = (\<lambda>g. 2),
        gl_read_full = (\<lambda>n. ret (replicate n CHR ''n'')), gl_seal = (\<lambda>g d n p. d @ p), gl_open = (\<lambda>g n c. Inr c)\<rparr>,
      ho_db = quiet_db,
      ho_redis = \<lparr>kl_new_client = (\<lambda>a c w. ((), w)), kl_ping = (\<lambda>r t. ret ()), kl_close = (\<lambda>r. ret ())\<rparr>,
      ho_aliyun = \<lparr>al_new_client = (\<lambda>i s h g. Inl (LibError ''no key'')), al_send = (\<lambda>c r a b d. ret None)\<rparr>,
      ho_ctx_err = (\<lambda>w. (None, w)),
      ho_http = \<lparr>hl_serve = (\<lambda>a e w. (Signalled, w)), hl_shutdown = (\<lambda>t. ret ()), hl_close = ret (),
        hl_served = (\<lambda>w. (ErrServerClosed, w))\<rparr>,
      ho_externals = (\<lambda>h r c. app_externals), ho_panel = (\<lambda>h. app_panel), ho_decoders = app_decoders\<rparr>"

theorem run_closes_what_it_opened_witness:
  "\<exists>w. run (sample_host ''mock'') ''config.yaml'' (app_start, []) =
     (Inr (), w, [OpensDb (), OpensRedis (), Serves, ClosesRedis (), ClosesDb ()])"
proof -
  have law: "handles (ho_db (sample_host ''mock''))" by (simp add: handles_def sample_host_def quiet_db_def)
  have ok: "case fst (run (sample_host ''mock'') ''config.yaml'' (app_start, [])) of Inl _ \<Rightarrow> False | Inr _ \<Rightarrow> True"
    by code_simp
  obtain r w evs where run: "run (sample_host ''mock'') ''config.yaml'' (app_start, []) = (r, w, evs)" by (metis prod_cases3)
  from run_closes_what_it_opened [OF law run] ok run
  have "run (sample_host ''mock'') ''config.yaml'' (app_start, []) =
     (Inr (), w, [OpensDb (), OpensRedis (), Serves, ClosesRedis (), ClosesDb ()])"
    by (auto split: sum.splits)
  then show ?thesis by blast
qed

end
