(* ===== verification/Spec2Isabelle.thy ===== *)
theory Spec2Isabelle
  imports HubInterleaving AgentHandler RateLimiter ConcurrentAuth ConcurrentRegister Tenancy EndToEnd WebSession AgentConnect Startup
begin

text \<open>
  Verification of the backend of a game server panel (Go, under \<open>src/\<close>).

  \<^bold>\<open>The program.\<close> A server (\<open>src/cmd/server\<close>) offers an HTTP interface to the users of
  the panel: accounts and sessions, the game servers a user owns, the saved worlds on them, and the tasks that were
  started for them. On every game server runs an agent (\<open>src/cmd/agent\<close>), which keeps a websocket
  connection to the panel and runs a script for every command it gets. The server keeps users, servers, worlds and tasks
  in a database through gorm; SMS codes, captchas, revoked tokens, reset tokens, quotas and the request limit are in
  Redis, where Lua scripts make their updates atomic.

  \<^bold>\<open>How it is modelled.\<close> Every Go function is a HOL function with the same branches in the same
  order. A function that returns an error and has effects has the type \<open>('w, 'a) go\<close>: it takes the world
  and yields the error or the value, and the world afterwards. Code that is not in the repository is a parameter: a
  record of functions over the world. What is documented of it is a named predicate, and every predicate has a concrete
  instance on which the witnesses run:

  \<^item> Redis commands and the client: \<open>redis\<close>, \<open>redis_law\<close>, \<open>ref_redis\<close>
    (theory Redis). A call does what the command does on a store with a clock and expiring keys, or fails with a
    connection error, the command then executed or not.
  \<^item> gorm and the database: \<open>model\<close>, \<open>model_law\<close>, \<open>tx_law\<close>,
    \<open>ref_model\<close> (theory Gorm).
  \<^item> golang-jwt: \<open>jwt_lib\<close>, \<open>jwt_law\<close>, \<open>ref_jwt\<close> (theory Jwt); bcrypt, AES
    and GCM: theory Crypto; clock and random identifiers: theory Runtime; image captcha, SMS provider and
    \<open>crypto/rand\<close>: theories Captcha, SmsService, SmsProvider.
  \<^item> gin: routing, headers, cookies and the decoding of bodies are part of the request, \<open>gin_request\<close>
    and \<open>decoders\<close> (theory Gin).
  \<^item> \<open>os/exec\<close>, files, the websocket of the agent and its dialer: theories AgentClient and
    AgentConnect (\<open>files_law\<close>).
  \<^item> \<open>net/http\<close>, database drivers, viper: theory Startup.

  Identifiers are 64-bit words, Go strings are lists of bytes, times are nanoseconds as integers. User-visible messages
  are constructors, one for each literal (theory GoBase). Texts that are sent over the network are bytes.

  \<^bold>\<open>The theories\<close>, from the bottom:

  \<^item> GoBase, GoStrings, Runtime, NetAddr, JsonText, JsonString: the prelude. Errors, the combinators for Go's
    error handling, \<open>strings\<close>, \<open>strconv\<close>, UTF-8, \<open>net/netip\<close>, the scanner and the
    strings of \<open>encoding/json\<close>.
  \<^item> Protocol (\<open>internal/protocol\<close>), CommandTracker, Hub, AgentService, AgentHandler
    (\<open>internal/agent_manager\<close>): messages, the registry of connected agents, commands and answers, the
    websocket endpoint and the authentication of an agent. HubInterleaving splits the methods of the hub into their
    critical sections and lets them interleave.
  \<^item> AgentClient, AgentRun, AgentConnect (\<open>internal/agent_client\<close>): the executor and the messages of
    the agent, its goroutines as a step relation, and its connection with heartbeat and reconnection. EndToEnd puts both
    ends together.
  \<^item> Redis, Window, SingleUse: the store, counting in a window, and things that may be used once. SmsCache,
    SmsLimit, AuthCache (\<open>internal/repository/cache\<close>), RateLimiter
    (\<open>internal/platform/redis/limiter.go\<close>), Captcha (\<open>internal/platform/captcha\<close>), SmsService
    (\<open>internal/service/sms\<close>), SmsProvider (\<open>internal/platform/sms\<close>).
  \<^item> Jwt, Crypto (\<open>internal/platform\<close>), Entities (\<open>internal/model/entity\<close>), Gorm,
    UserRepo (\<open>internal/repository/user\<close>), AuthService (\<open>internal/service/auth\<close>); AuthWorld,
    AuthSession, Login, PasswordReset: what the service does over its real parts. Interleaving,
    ConcurrentAuth and ConcurrentRegister: programs of atomic actions that take turns, and three operations of the
    service as such programs, proved to be the operations when they run by themselves.
  \<^item> Owned, ServerRepo, DstRepo, TaskRepo (\<open>internal/repository\<close>), ServerService, DstService,
    TaskService (\<open>internal/service\<close>), Panel, Tenancy: the panel's data, for one request and for any
    sequence of requests of any users.
  \<^item> Result (\<open>internal/result\<close>, \<open>internal/apperr\<close>), Gin, Middleware
    (\<open>internal/middleware\<close>), AuthHandlers, PanelHandlers (\<open>internal/handler/v1\<close>), Router
    (\<open>internal/router\<close> and the wiring of \<open>internal/bootstrap/app.go\<close>): the HTTP interface;
    WebAnswers, WebSafety, WebSession: what holds of every request to the whole application.
  \<^item> Logging (\<open>internal/platform/logger\<close>) and Startup (\<open>internal/config\<close>,
    \<open>internal/platform/database\<close>, \<open>internal/bootstrap\<close>): logging, configuration, and how the
    server starts and stops.

  Five contracts of the program are locales, interpreted on the models: \<open>command_tracker\<close> (does a command
  still wait for its outcome; provider Hub), \<open>event_window\<close> (the admitted events of a window are a true
  upper bound; providers RateLimiter and SmsLimit), \<open>single_use\<close> (a thing is used at most once; providers
  Captcha, AuthSession and PasswordReset), \<open>one_winner\<close> (of the programs that race for a thing at most one
  succeeds; providers ConcurrentAuth and ConcurrentRegister) and \<open>tenant\<close> (operations in a user's name keep the rows of the
  others; provider Tenancy).

  \<^bold>\<open>What the theorems show.\<close>

  \<^item> Tenancy, WebSafety: no sequence of requests of others changes the data of a user; over HTTP a change needs an
    access token that is accepted, of the user whose data changes; names, addresses, slots and the deployment task of
    every server are as they should be in every reachable state; every request does one of the changes of an abstract
    specification (\<open>change\<close>); a server and its task are stored together or not at all; lists and pages
    equal a reference specification.
  \<^item> AuthSession, Login, PasswordReset, Jwt, WebSession: \<open>Authenticate\<close> answers an abstract verdict
    on the token; a refresh token is exchanged once; logout, password reset and disabling end sessions; a login opens
    one, also through all the middleware; registration makes one account; tokens are read back as they were issued,
    exactly until they expire.
  \<^item> ConcurrentAuth: of any number of requests that exchange one refresh token or use one reset token at the same
    time, in any interleaving of their calls to the stores, at most one succeeds; for the refresh token this holds until it
    expires, and \<open>late_refresh_wins_twice\<close> shows that it does not hold longer. ConcurrentRegister: of any number of
    registrations with one phone number at the same time at most one succeeds.
  \<^item> SmsCache, SmsLimit, SmsService, Captcha, RateLimiter: codes, captchas and reset tokens are used once; quotas
    and the request limit are never exceeded in any window, also when replies are lost.
  \<^item> Hub, HubInterleaving, AgentService, AgentHandler, AgentRun, AgentConnect, EndToEnd: in every interleaving a
    command that was written is pending, or reported finished once, or reported interrupted once, and none is lost; a
    connection leaves no registration; the agent runs one script at a time, its work terminates, and what it answers is
    what is reported; an agent comes back as the server its token was issued for, and keeps connecting until it is told
    to stop.
  \<^item> Crypto, NetAddr, JsonString: encryption, addresses and JSON strings round trip.
  \<^item> WebAnswers: every request gets one answer of the uniform shape with its trace id, and one entry in the access
    log; so does a request whose handler panics, with the answer 500.
  \<^item> Startup: what is opened is closed, on every path.

  \<^bold>\<open>Termination and fuel.\<close> No definition has fuel. Loops over data are structural or have a measure;
  the read loops of both ends work on the list of what arrives, and say whether they have returned. The loop of the
  agent's \<open>Start\<close> is a \<open>partial_function\<close> whose value \<open>None\<close> means that it does
  not return; a theorem of AgentConnect says exactly when it does. The goroutines of the agent and the
  critical sections of the hub are step relations; that they end is proved for every schedule.

  \<^bold>\<open>Not modelled.\<close> Panics inside the services: an operation of the model never panics, and what
  \<open>Recovery\<close> does is shown for any steps that may. The formatting of log records and their rotation; how gin matches a path and decodes a request (its outcome is part of the request);
  \<open>GameEnv\<close>, an entity nothing uses; the shell script \<open>scripts/dst.sh\<close> the agent runs.
  Requests to the panel are handled one after the other, except where the text of a theorem says otherwise: the
  interleavings that are modelled are those of the hub, of the agent's goroutines, of the exchange of a refresh token,
  the use of a reset token (ConcurrentAuth) and the registration (ConcurrentRegister), and of creating a saved world with deleting its server
  (\<open>dst_create_races_delete\<close>). Where the data is guarded by a single statement or Lua script, as for SMS codes,
  quotas and the request limit, that is one step of the store.
\<close>

end
